(* ===== verification/Prelude.thy ===== *)
theory Prelude
  imports Main "HOL-Library.Word" "HOL-Library.Signed_Division"
begin

text \<open>
  Shared vocabulary of the development: the two flavours of the port, C integers as words,
  errors as values, the code buffer an assembler writes to, and bit fields of words.

  The port is written once for 32-bit and 64-bit PowerPC; the branches of
  \<^verbatim>\<open>#ifdef PPC32\<close> and \<^verbatim>\<open>#ifdef PPC64\<close> are branches on a value of type \<open>arch\<close>. The
  build modelled is the debug build: \<^verbatim>\<open>assert\<close>, \<^verbatim>\<open>guarantee\<close>, \<^verbatim>\<open>ShouldNotReachHere\<close> and
  \<^verbatim>\<open>Unimplemented\<close> stop the program, and are the values of type \<open>error\<close>. An operation that
  can stop returns a value of type \<open>error + 'a\<close>. Behaviour the C++ standard leaves undefined
  and that the code does not guard against is the error \<open>UndefinedBehaviour\<close>; a loop that
  never ends is \<open>DoesNotReturn\<close>; \<^verbatim>\<open>fatal\<close> is \<open>FatalError\<close>.
\<close>

unbundle bit_operations_syntax

named_theorems asm_defs \<open>definitions of the instruction emitters\<close>
named_theorems field_simps_w \<open>extraction of bit fields from assembled words\<close>
named_theorems reg_defs \<open>the named registers\<close>

section \<open>Flavours, integers and errors\<close>

datatype arch = PPC32 | PPC64

type_synonym c_int = "32 word"

datatype error =
    AssertFailed string
  | GuaranteeFailed string
  | ShouldNotReachHere
  | Unimplemented
  | UndefinedBehaviour
  | DoesNotReturn
  | FatalError string

type_synonym 'a result = "error + 'a"

definition wordSize :: "arch \<Rightarrow> int" where
  "wordSize arch = (case arch of PPC32 \<Rightarrow> 4 | PPC64 \<Rightarrow> 8)"

definition LogBytesPerWord :: "arch \<Rightarrow> int" where
  "LogBytesPerWord arch = (case arch of PPC32 \<Rightarrow> 2 | PPC64 \<Rightarrow> 3)"

lemma wordSize_simps [simp]:
  "wordSize PPC32 = 4" "wordSize PPC64 = 8"
  "LogBytesPerWord PPC32 = 2" "LogBytesPerWord PPC64 = 3"
  by (simp_all add: wordSize_def LogBytesPerWord_def)

lemma wordSize_power: "wordSize arch = 2 ^ nat (LogBytesPerWord arch)"
  by (cases arch) simp_all

lemma wordSize_pos [simp]: "0 < wordSize arch"
  by (cases arch) simp_all

section \<open>Sequencing operations that may stop\<close>

definition bindR :: "'a result \<Rightarrow> ('a \<Rightarrow> 'b result) \<Rightarrow> 'b result" where
  "bindR m k = (case m of Inl e \<Rightarrow> Inl e | Inr a \<Rightarrow> k a)"

lemma bindR_simps [simp]:
  "bindR (Inl e) k = Inl e"
  "bindR (Inr a) k = k a"
  by (simp_all add: bindR_def)

lemma bindR_assoc: "bindR (bindR m f) g = bindR m (\<lambda>x. bindR (f x) g)"
  by (cases m) simp_all

lemma bindR_Inr [simp]: "bindR m Inr = m"
  by (cases m) simp_all

lemma bindR_eq_Inr: "bindR m k = Inr c \<longleftrightarrow> (\<exists>a. m = Inr a \<and> k a = Inr c)"
  by (cases m) auto

lemma bindR_eq_Inl: "bindR m k = Inl e \<longleftrightarrow> m = Inl e \<or> (\<exists>a. m = Inr a \<and> k a = Inl e)"
  by (cases m) auto

lemma bindR_Inr_E:
  assumes "bindR m k = Inr c"
  obtains a where "m = Inr a" "k a = Inr c"
  using assms by (auto simp: bindR_eq_Inr)

text \<open>\<open>asserting p msg k\<close> is \<^verbatim>\<open>assert(p, msg); k\<close>.\<close>

definition asserting :: "bool \<Rightarrow> string \<Rightarrow> ('s \<Rightarrow> 'a result) \<Rightarrow> 's \<Rightarrow> 'a result" where
  "asserting p msg k s = (if p then k s else Inl (AssertFailed msg))"

lemma asserting_simps [simp]:
  "asserting True msg k s = k s"
  "asserting False msg k s = Inl (AssertFailed msg)"
  by (simp_all add: asserting_def)

lemma asserting_eq_Inr: "asserting p msg k s = Inr c \<longleftrightarrow> p \<and> k s = Inr c"
  by (simp add: asserting_def)

definition asserted :: "bool \<Rightarrow> string \<Rightarrow> 'a result \<Rightarrow> 'a result" where
  "asserted p msg r = (if p then r else Inl (AssertFailed msg))"

lemma asserted_simps [simp]:
  "asserted True msg r = r"
  "asserted False msg r = Inl (AssertFailed msg)"
  by (simp_all add: asserted_def)

lemma asserted_eq_Inr: "asserted p msg r = Inr c \<longleftrightarrow> p \<and> r = Inr c"
  by (simp add: asserted_def)

text \<open>\<open>withR m k\<close> evaluates an argument that may stop, then runs a state operation on it.\<close>

definition withR :: "'a result \<Rightarrow> ('a \<Rightarrow> 's \<Rightarrow> 'b result) \<Rightarrow> 's \<Rightarrow> 'b result" where
  "withR m k s = bindR m (\<lambda>a. k a s)"

lemma withR_simps [simp]:
  "withR (Inl e) k s = Inl e"
  "withR (Inr a) k s = k a s"
  by (simp_all add: withR_def)

text \<open>A block of statements: run in order, stopping at the first error.\<close>

fun seqR :: "('s \<Rightarrow> 's result) list \<Rightarrow> 's \<Rightarrow> 's result" where
  "seqR [] s = Inr s"
| "seqR (x # xs) s = bindR (x s) (seqR xs)"

lemma seqR_append: "seqR (xs @ ys) s = bindR (seqR xs s) (seqR ys)"
proof (induction xs arbitrary: s)
  case (Cons x xs)
  then show ?case by (cases "x s") simp_all
qed simp

lemma seqR_singleton [simp]: "seqR [x] s = x s"
  by (cases "x s") simp_all

lemma bindR_seqR_Nil [simp]: "bindR m (seqR []) = m"
  by (cases m) simp_all

definition whenR :: "bool \<Rightarrow> ('s \<Rightarrow> 's result) list \<Rightarrow> 's \<Rightarrow> 's result" where
  "whenR c xs = (if c then seqR xs else Inr)"

lemma whenR_simps [simp]: "whenR True xs = seqR xs" "whenR False xs s = Inr s"
  by (simp_all add: whenR_def)

section \<open>Bit fields\<close>

text \<open>
  \<open>fits n x\<close>: \<open>x\<close> has no bit at or above position \<open>n\<close>. The assertions of the emitters,
  \<^verbatim>\<open>!(x & ~mask)\<close> with \<^verbatim>\<open>mask == (1 << n) - 1\<close>, say this. \<open>fld m n w\<close> is the field of
  \<open>n\<close> bits of \<open>w\<close> that starts at bit \<open>m\<close> (counted from the least significant one).
\<close>

definition fits :: "nat \<Rightarrow> 'w::len word \<Rightarrow> bool" where
  "fits n x \<longleftrightarrow> take_bit n x = x"

definition fld :: "nat \<Rightarrow> nat \<Rightarrow> 'w::len word \<Rightarrow> 'w word" where
  "fld m n w = take_bit n (drop_bit m w)"

lemma fits_iff_bit: "fits n x \<longleftrightarrow> (\<forall>i. bit x i \<longrightarrow> i < n)"
proof -
  have "take_bit n x = x \<longleftrightarrow> (\<forall>i. bit (take_bit n x) i = bit x i)"
    by (metis bit_eqI)
  then show ?thesis by (auto simp: fits_def bit_take_bit_iff)
qed

lemma fits_and_not_mask: "x AND NOT (mask n) = 0 \<longleftrightarrow> fits n x"
proof -
  have "x AND NOT (mask n) = 0 \<longleftrightarrow> (\<forall>i. \<not> bit (x AND NOT (mask n)) i)"
    by (metis bit_0_eq bit_eqI bot_apply bot_bool_def)
  moreover have "bit (x AND NOT (mask n)) i \<longleftrightarrow> bit x i \<and> \<not> i < n" for i
    by (auto simp: bit_simps dest: bit_imp_le_length)
  ultimately show ?thesis by (auto simp: fits_iff_bit)
qed

lemma fits_unat: "fits n (x :: 'w::len word) \<longleftrightarrow> unat x < 2 ^ n"
proof -
  have "fits n x \<longleftrightarrow> unat (take_bit n x) = unat x"
    by (simp add: fits_def word_unat_eq_iff)
  also have "unat (take_bit n x) = unat x mod 2 ^ n"
    by (subst unsigned_take_bit_eq) (rule take_bit_eq_mod)
  also have "unat x mod 2 ^ n = unat x \<longleftrightarrow> unat x < 2 ^ n"
    by (metis mod_less mod_less_divisor zero_less_numeral zero_less_power)
  finally show ?thesis .
qed

lemma fits_mono: "fits m x \<Longrightarrow> m \<le> n \<Longrightarrow> fits n x"
  by (auto simp: fits_iff_bit)

lemma fits_masks:
  fixes x :: "'w::len word"
  shows "x AND NOT 0x3 = 0 \<longleftrightarrow> fits 2 x"
    "x AND NOT 0x7 = 0 \<longleftrightarrow> fits 3 x"
    "x AND NOT 0x1f = 0 \<longleftrightarrow> fits 5 x"
    "x AND NOT 0x3f = 0 \<longleftrightarrow> fits 6 x"
    "x AND NOT 0x3ff = 0 \<longleftrightarrow> fits 10 x"
    "x AND NOT 0x3fff = 0 \<longleftrightarrow> fits 14 x"
    "x AND NOT 0xffff = 0 \<longleftrightarrow> fits 16 x"
    "x AND NOT 0xffffff = 0 \<longleftrightarrow> fits 24 x"
  using fits_and_not_mask [of x 2] fits_and_not_mask [of x 3] fits_and_not_mask [of x 5]
    fits_and_not_mask [of x 6] fits_and_not_mask [of x 10] fits_and_not_mask [of x 14]
    fits_and_not_mask [of x 16] fits_and_not_mask [of x 24]
  by (simp_all add: mask_eq_exp_minus_1)

lemmas fits_masks_neg = fits_masks [simplified]

lemma and_masks:
  fixes x :: "'w::len word"
  shows "x AND 0x1f = take_bit 5 x" "x AND 0x3fff = take_bit 14 x" "x AND 0xffff = take_bit 16 x"
  by (simp_all add: take_bit_eq_mask mask_eq_exp_minus_1)

lemma fits_take_bit [simp]: "fits n (take_bit n x)"
  by (simp add: fits_def)

lemma fits_of_bool [simp]: "fits (Suc 0) (of_bool b :: 'w::len word)" "fits 1 (of_bool b :: 'w::len word)"
  by (cases b; simp add: fits_iff_bit bit_1_iff)+

lemma fld_or [field_simps_w]: "fld m n (x OR y) = fld m n x OR fld m n y"
  by (rule bit_word_eqI) (auto simp: fld_def bit_simps)

lemma fld_high [field_simps_w]: "m + n \<le> k \<Longrightarrow> fld m n (push_bit k x) = 0"
  by (rule bit_word_eqI) (auto simp: fld_def bit_simps)

lemma fld_low [field_simps_w]: "fits j x \<Longrightarrow> k + j \<le> m \<Longrightarrow> fld m n (push_bit k x) = 0"
  by (rule bit_word_eqI) (auto simp: fld_def fits_iff_bit bit_simps)

lemma fld_low0 [field_simps_w]: "fits j x \<Longrightarrow> j \<le> m \<Longrightarrow> fld m n x = 0"
  by (rule bit_word_eqI) (auto simp: fld_def fits_iff_bit bit_simps)

lemma fld_exact [field_simps_w]:
  "fits n x \<Longrightarrow> m + n \<le> LENGTH('w) \<Longrightarrow> fld m n (push_bit m x :: 'w::len word) = x"
  by (rule bit_word_eqI) (auto simp: fld_def fits_iff_bit bit_simps)

lemma fld_exact0 [field_simps_w]: "fits n x \<Longrightarrow> fld 0 n x = x"
  by (simp add: fld_def fits_def)

lemma and_field: "x AND push_bit m (mask n) = push_bit m (fld m n (x :: 'w::len word))"
  by (rule bit_word_eqI) (auto simp: fld_def bit_simps)

lemma drop_bit_eq_fld: "m + n = LENGTH('w) \<Longrightarrow> drop_bit m (x :: 'w::len word) = fld m n x"
  by (rule bit_word_eqI) (auto simp: fld_def bit_simps dest: bit_imp_le_length)

lemma fld_fits: "fits n (fld m n w)"
  by (simp add: fld_def fits_def)

lemma bit_fld_iff: "bit (fld m n w) i \<longleftrightarrow> i < n \<and> bit w (m + i)"
  by (simp add: fld_def bit_simps)

lemma or_zero [field_simps_w]: "x OR 0 = x" "0 OR x = (x :: 'w::len word)"
  by simp_all

section \<open>Signed readings of words\<close>

lemma uint_sint_cases:
  fixes w :: "'w::len word"
  shows "uint w = (if 0 \<le> sint w then sint w else sint w + 2 ^ LENGTH('w))"
proof -
  have u: "uint w = sint w mod 2 ^ LENGTH('w)"
    by (simp add: uint_sint take_bit_eq_mod)
  have lo: "- (2 ^ (LENGTH('w) - 1)) \<le> sint w" and hi: "sint w < 2 ^ (LENGTH('w) - 1)"
    by (rule sint_ge, rule sint_lt)
  have p: "(2::int) ^ LENGTH('w) = 2 * 2 ^ (LENGTH('w) - 1)"
    by (cases "LENGTH('w)") simp_all
  show ?thesis
  proof (cases "0 \<le> sint w")
    case True
    have "sint w < 2 ^ LENGTH('w)" using hi p True by linarith
    with True u show ?thesis by simp
  next
    case False
    have "sint w mod 2 ^ LENGTH('w) = (sint w + 2 ^ LENGTH('w)) mod 2 ^ LENGTH('w)" by simp
    also have "\<dots> = sint w + 2 ^ LENGTH('w)"
      using False lo p by (intro mod_pos_pos_trivial) linarith+
    finally show ?thesis using u False by simp
  qed
qed

lemma sint_small:
  fixes w :: "'w::len word"
  assumes "unat w < 2 ^ (LENGTH('w) - 1)"
  shows "sint w = int (unat w)"
proof -
  have "uint w < 2 ^ (LENGTH('w) - 1)" using assms by (metis of_nat_less_iff of_nat_numeral of_nat_power of_nat_unat)
  moreover have "- (2 ^ (LENGTH('w) - 1)) \<le> sint w" by (rule sint_ge)
  moreover have "(2::int) ^ LENGTH('w) = 2 * 2 ^ (LENGTH('w) - 1)"
    by (cases "LENGTH('w)") simp_all
  ultimately have "uint w = sint w" using uint_sint_cases [of w] by (auto split: if_splits)
  then show ?thesis by simp
qed

lemma sint_large:
  fixes w :: "'w::len word"
  assumes "2 ^ (LENGTH('w) - 1) \<le> unat w"
  shows "sint w = int (unat w) - 2 ^ LENGTH('w)"
proof -
  have "2 ^ (LENGTH('w) - 1) \<le> uint w" using assms by (metis of_nat_le_iff of_nat_numeral of_nat_power of_nat_unat)
  moreover have "sint w < 2 ^ (LENGTH('w) - 1)" by (rule sint_lt)
  ultimately have "uint w = sint w + 2 ^ LENGTH('w)" using uint_sint_cases [of w] by (auto split: if_splits)
  then show ?thesis by simp
qed

lemma sint_range_unat:
  fixes n :: "'w::len word"
  assumes "0 \<le> sint n" "sint n < int k"
  shows "unat n < k"
  using assms uint_sint_cases [of n] by (metis of_nat_less_iff of_nat_unat)
lemma sint_unat_less_iff:
  fixes n :: "'w::len word"
  assumes "k \<le> 2 ^ (LENGTH('w) - 1)"
  shows "0 \<le> sint n \<and> sint n < int k \<longleftrightarrow> unat n < k"
  using assms sint_range_unat [of n k] sint_small [of n] by (auto simp del: of_nat_unat)

section \<open>The code buffer\<close>

text \<open>
  The assembler writes through \<^verbatim>\<open>AbstractAssembler::emit_long\<close> into a code buffer of 32-bit
  words that starts at \<open>asm_base\<close>; \<^verbatim>\<open>pc()\<close> is the address of the next word. Addresses are
  words of the machine's width \<open>'w\<close>. \<open>asm_labels\<close> holds the \<^verbatim>\<open>Label\<close> objects in scope, by
  number: what the code asks of one is whether it is bound and where (\<^verbatim>\<open>is_bound\<close>,
  \<^verbatim>\<open>target\<close>), and that it remembers the branches that wait for it (\<^verbatim>\<open>add_patch_at\<close>).
\<close>

record 'a label =
  bound_at :: "'a option"
  patch_sites :: "'a list"

record 'a asm =
  asm_base :: 'a
  asm_code :: "c_int list"
  asm_labels :: "'a label list"

type_synonym 'a emitter = "'a asm \<Rightarrow> 'a asm result"

definition start_at :: "'a \<Rightarrow> 'a asm" where
  "start_at a = \<lparr>asm_base = a, asm_code = [], asm_labels = []\<rparr>"

definition offset :: "'a asm \<Rightarrow> nat" where
  "offset s = 4 * length (asm_code s)"

definition pc :: "'w::len word asm \<Rightarrow> 'w word" where
  "pc s = asm_base s + word_of_nat (offset s)"

definition emit_long :: "c_int \<Rightarrow> 'a emitter" where
  "emit_long w s = Inr (s\<lparr>asm_code := asm_code s @ [w]\<rparr>)"

definition emits :: "'a emitter \<Rightarrow> c_int list \<Rightarrow> bool" where
  "emits e ws \<longleftrightarrow> (\<forall>s. e s = Inr (s\<lparr>asm_code := asm_code s @ ws\<rparr>))"

lemma emitsD: "emits e ws \<Longrightarrow> e s = Inr (s\<lparr>asm_code := asm_code s @ ws\<rparr>)"
  by (simp add: emits_def)

lemma emits_emit_long [simp]: "emits (emit_long w) [w]"
  by (simp add: emits_def emit_long_def)

lemma emits_Nil: "emits Inr []"
  by (simp add: emits_def)

lemma emits_seq_Nil [simp]: "emits (seqR []) []"
  by (simp add: emits_def)

lemma emits_seq_Cons: "emits e ws \<Longrightarrow> emits (seqR es) vs \<Longrightarrow> emits (seqR (e # es)) (ws @ vs)"
  by (simp add: emits_def)

lemma emits_seq_append:
  "emits (seqR xs) ws \<Longrightarrow> emits (seqR ys) vs \<Longrightarrow> emits (seqR (xs @ ys)) (ws @ vs)"
  by (simp add: emits_def seqR_append)

lemma emits_seq_map:
  "(\<And>x. x \<in> set xs \<Longrightarrow> emits (f x) (g x)) \<Longrightarrow> emits (seqR (map f xs)) (concat (map g xs))"
  by (induction xs) (auto intro: emits_seq_Cons)

lemma emits_unique: "emits e ws \<Longrightarrow> emits e vs \<Longrightarrow> ws = vs"
  by (drule emitsD [where s = "start_at undefined"], drule emitsD [where s = "start_at undefined"])
     (simp add: start_at_def)

lemma offset_emit [simp]: "offset (s\<lparr>asm_code := asm_code s @ ws\<rparr>) = offset s + 4 * length ws"
  by (simp add: offset_def)

lemma pc_emit: "pc (s\<lparr>asm_code := asm_code s @ ws\<rparr>) = pc s + word_of_nat (4 * length ws)"
  by (simp add: pc_def)

end
