(* ===== verification/Registers.thy ===== *)
theory Registers
  imports Prelude
begin

text \<open>
  The registers of the port (\<^verbatim>\<open>register_CPU.hpp\<close>, \<^verbatim>\<open>register_CPU.cpp\<close>) and their numbering as
  \<^verbatim>\<open>VMReg\<close>s (\<^verbatim>\<open>vmreg_CPU.cpp\<close>, \<^verbatim>\<open>vmreg_CPU.inline.hpp\<close>). A \<^verbatim>\<open>Register\<close> is a pointer whose
  value is the register's number, made by \<^verbatim>\<open>as_Register\<close> from any \<^verbatim>\<open>int\<close>; \<^verbatim>\<open>encoding()\<close> asserts
  that the number is that of a register. The four kinds share the contract \<open>reg_kind\<close>;
  those that can be walked with \<^verbatim>\<open>successor()\<close> and have names share \<open>reg_file\<close>.
\<close>

section \<open>The contract of a kind of register\<close>

locale reg_kind =
  fixes mk :: "c_int \<Rightarrow> 'r" and enc :: "'r \<Rightarrow> c_int result"
    and valid :: "'r \<Rightarrow> bool" and width :: nat
  assumes mk_surj: "\<exists>i. r = mk i"
    and mk_inj: "mk i = mk j \<Longrightarrow> i = j"
    and enc_mk: "valid (mk i) \<Longrightarrow> enc (mk i) = Inr i"
    and enc_invalid: "\<not> valid r \<Longrightarrow> enc r = Inl (AssertFailed ''invalid register'')"
    and valid_fits: "valid (mk i) \<Longrightarrow> fits width i"
begin

lemma enc_fits: "enc r = Inr i \<Longrightarrow> fits width i"
proof -
  assume e: "enc r = Inr i"
  obtain j where r: "r = mk j" using mk_surj by blast
  have "valid r" using e enc_invalid [of r] by auto
  with r e enc_mk [of j] have "j = i" by simp
  with r \<open>valid r\<close> valid_fits show ?thesis by simp
qed

lemma enc_total: "valid r \<Longrightarrow> \<exists>i. enc r = Inr i \<and> fits width i \<and> r = mk i"
  using mk_surj [of r] enc_mk valid_fits by fastforce

lemma enc_iff: "enc r = Inr i \<longleftrightarrow> valid r \<and> r = mk i"
  using mk_surj [of r] enc_mk enc_invalid [of r] by (cases "valid r") (auto dest: mk_inj)

lemma enc_inj: "enc r = Inr i \<Longrightarrow> enc r' = Inr i \<Longrightarrow> r = r'"
  by (simp add: enc_iff)

end

section \<open>Integer registers\<close>

datatype Register = as_Register c_int

definition number_of_registers :: nat where
  "number_of_registers = 32"

fun Register_is_valid :: "Register \<Rightarrow> bool" where
  "Register_is_valid (as_Register n) \<longleftrightarrow> 0 \<le> sint n \<and> sint n < int number_of_registers"

fun Register_encoding :: "Register \<Rightarrow> c_int result" where
  "Register_encoding (as_Register n) =
     asserted (Register_is_valid (as_Register n)) ''invalid register'' (Inr n)"

definition Register_successor :: "Register \<Rightarrow> Register result" where
  "Register_successor r = bindR (Register_encoding r) (\<lambda>n. Inr (as_Register (n + 1)))"

definition Register_names :: "string list" where
  "Register_names = [
    ''r0'', ''r1'', ''r2'', ''r3'', ''r4'', ''r5'', ''r6'', ''r7'',
    ''r8'', ''r9'', ''r10'', ''r11'', ''r12'', ''r13'', ''r14'', ''r15'',
    ''r16'', ''r17'', ''r18'', ''r19'', ''r20'', ''r21'', ''r22'', ''r23'',
    ''r24'', ''r25'', ''r26'', ''r27'', ''r28'', ''r29'', ''r30'', ''r31'']"

definition Register_name :: "Register \<Rightarrow> string result" where
  "Register_name r =
     (if Register_is_valid r
      then bindR (Register_encoding r) (\<lambda>n. Inr (Register_names ! unat n))
      else Inr ''noreg'')"

definition noreg :: Register where [reg_defs]: "noreg = as_Register (- 1)"

definition r0 :: Register where [reg_defs]: "r0 = as_Register 0"
definition r1 :: Register where [reg_defs]: "r1 = as_Register 1"
definition r2 :: Register where [reg_defs]: "r2 = as_Register 2"
definition r3 :: Register where [reg_defs]: "r3 = as_Register 3"
definition r4 :: Register where [reg_defs]: "r4 = as_Register 4"
definition r5 :: Register where [reg_defs]: "r5 = as_Register 5"
definition r6 :: Register where [reg_defs]: "r6 = as_Register 6"
definition r7 :: Register where [reg_defs]: "r7 = as_Register 7"
definition r8 :: Register where [reg_defs]: "r8 = as_Register 8"
definition r9 :: Register where [reg_defs]: "r9 = as_Register 9"
definition r10 :: Register where [reg_defs]: "r10 = as_Register 10"
definition r11 :: Register where [reg_defs]: "r11 = as_Register 11"
definition r12 :: Register where [reg_defs]: "r12 = as_Register 12"
definition r13 :: Register where [reg_defs]: "r13 = as_Register 13"
definition r14 :: Register where [reg_defs]: "r14 = as_Register 14"
definition r15 :: Register where [reg_defs]: "r15 = as_Register 15"
definition r16 :: Register where [reg_defs]: "r16 = as_Register 16"
definition r17 :: Register where [reg_defs]: "r17 = as_Register 17"
definition r18 :: Register where [reg_defs]: "r18 = as_Register 18"
definition r19 :: Register where [reg_defs]: "r19 = as_Register 19"
definition r20 :: Register where [reg_defs]: "r20 = as_Register 20"
definition r21 :: Register where [reg_defs]: "r21 = as_Register 21"
definition r22 :: Register where [reg_defs]: "r22 = as_Register 22"
definition r23 :: Register where [reg_defs]: "r23 = as_Register 23"
definition r24 :: Register where [reg_defs]: "r24 = as_Register 24"
definition r25 :: Register where [reg_defs]: "r25 = as_Register 25"
definition r26 :: Register where [reg_defs]: "r26 = as_Register 26"
definition r27 :: Register where [reg_defs]: "r27 = as_Register 27"
definition r28 :: Register where [reg_defs]: "r28 = as_Register 28"
definition r29 :: Register where [reg_defs]: "r29 = as_Register 29"
definition r30 :: Register where [reg_defs]: "r30 = as_Register 30"
definition r31 :: Register where [reg_defs]: "r31 = as_Register 31"

section \<open>Floating point registers\<close>

datatype FloatRegister = as_FloatRegister c_int

definition number_of_float_registers :: nat where
  "number_of_float_registers = 32"

fun FloatRegister_is_valid :: "FloatRegister \<Rightarrow> bool" where
  "FloatRegister_is_valid (as_FloatRegister n) \<longleftrightarrow>
     0 \<le> sint n \<and> sint n < int number_of_float_registers"

fun FloatRegister_encoding :: "FloatRegister \<Rightarrow> c_int result" where
  "FloatRegister_encoding (as_FloatRegister n) =
     asserted (FloatRegister_is_valid (as_FloatRegister n)) ''invalid register'' (Inr n)"

definition FloatRegister_successor :: "FloatRegister \<Rightarrow> FloatRegister result" where
  "FloatRegister_successor r =
     bindR (FloatRegister_encoding r) (\<lambda>n. Inr (as_FloatRegister (n + 1)))"

definition FloatRegister_names :: "string list" where
  "FloatRegister_names = [
    ''f0'', ''f1'', ''f2'', ''f3'', ''f4'', ''f5'', ''f6'', ''f7'',
    ''f8'', ''f9'', ''f10'', ''f11'', ''f12'', ''f13'', ''f14'', ''f15'',
    ''f16'', ''f17'', ''f18'', ''f19'', ''f20'', ''f21'', ''f22'', ''f23'',
    ''f24'', ''f25'', ''f26'', ''f27'', ''f28'', ''f29'', ''f30'', ''f31'']"

definition FloatRegister_name :: "FloatRegister \<Rightarrow> string result" where
  "FloatRegister_name r =
     (if FloatRegister_is_valid r
      then bindR (FloatRegister_encoding r) (\<lambda>n. Inr (FloatRegister_names ! unat n))
      else Inr ''noreg'')"

definition f0 :: FloatRegister where [reg_defs]: "f0 = as_FloatRegister 0"
definition f1 :: FloatRegister where [reg_defs]: "f1 = as_FloatRegister 1"
definition f2 :: FloatRegister where [reg_defs]: "f2 = as_FloatRegister 2"
definition f3 :: FloatRegister where [reg_defs]: "f3 = as_FloatRegister 3"
definition f4 :: FloatRegister where [reg_defs]: "f4 = as_FloatRegister 4"
definition f5 :: FloatRegister where [reg_defs]: "f5 = as_FloatRegister 5"
definition f6 :: FloatRegister where [reg_defs]: "f6 = as_FloatRegister 6"
definition f7 :: FloatRegister where [reg_defs]: "f7 = as_FloatRegister 7"
definition f8 :: FloatRegister where [reg_defs]: "f8 = as_FloatRegister 8"
definition f9 :: FloatRegister where [reg_defs]: "f9 = as_FloatRegister 9"
definition f10 :: FloatRegister where [reg_defs]: "f10 = as_FloatRegister 10"
definition f11 :: FloatRegister where [reg_defs]: "f11 = as_FloatRegister 11"
definition f12 :: FloatRegister where [reg_defs]: "f12 = as_FloatRegister 12"
definition f13 :: FloatRegister where [reg_defs]: "f13 = as_FloatRegister 13"
definition f14 :: FloatRegister where [reg_defs]: "f14 = as_FloatRegister 14"
definition f15 :: FloatRegister where [reg_defs]: "f15 = as_FloatRegister 15"
definition f16 :: FloatRegister where [reg_defs]: "f16 = as_FloatRegister 16"
definition f17 :: FloatRegister where [reg_defs]: "f17 = as_FloatRegister 17"
definition f18 :: FloatRegister where [reg_defs]: "f18 = as_FloatRegister 18"
definition f19 :: FloatRegister where [reg_defs]: "f19 = as_FloatRegister 19"
definition f20 :: FloatRegister where [reg_defs]: "f20 = as_FloatRegister 20"
definition f21 :: FloatRegister where [reg_defs]: "f21 = as_FloatRegister 21"
definition f22 :: FloatRegister where [reg_defs]: "f22 = as_FloatRegister 22"
definition f23 :: FloatRegister where [reg_defs]: "f23 = as_FloatRegister 23"
definition f24 :: FloatRegister where [reg_defs]: "f24 = as_FloatRegister 24"
definition f25 :: FloatRegister where [reg_defs]: "f25 = as_FloatRegister 25"
definition f26 :: FloatRegister where [reg_defs]: "f26 = as_FloatRegister 26"
definition f27 :: FloatRegister where [reg_defs]: "f27 = as_FloatRegister 27"
definition f28 :: FloatRegister where [reg_defs]: "f28 = as_FloatRegister 28"
definition f29 :: FloatRegister where [reg_defs]: "f29 = as_FloatRegister 29"
definition f30 :: FloatRegister where [reg_defs]: "f30 = as_FloatRegister 30"
definition f31 :: FloatRegister where [reg_defs]: "f31 = as_FloatRegister 31"

section \<open>Condition registers and special purpose registers\<close>

datatype ConditionRegister = as_ConditionRegister c_int

fun ConditionRegister_is_valid :: "ConditionRegister \<Rightarrow> bool" where
  "ConditionRegister_is_valid (as_ConditionRegister n) \<longleftrightarrow> 0 \<le> sint n \<and> sint n < 8"

fun ConditionRegister_encoding :: "ConditionRegister \<Rightarrow> c_int result" where
  "ConditionRegister_encoding (as_ConditionRegister n) =
     asserted (ConditionRegister_is_valid (as_ConditionRegister n)) ''invalid register'' (Inr n)"

definition cr0 :: ConditionRegister where [reg_defs]: "cr0 = as_ConditionRegister 0"
definition cr1 :: ConditionRegister where [reg_defs]: "cr1 = as_ConditionRegister 1"
definition cr2 :: ConditionRegister where [reg_defs]: "cr2 = as_ConditionRegister 2"
definition cr3 :: ConditionRegister where [reg_defs]: "cr3 = as_ConditionRegister 3"
definition cr4 :: ConditionRegister where [reg_defs]: "cr4 = as_ConditionRegister 4"
definition cr5 :: ConditionRegister where [reg_defs]: "cr5 = as_ConditionRegister 5"
definition cr6 :: ConditionRegister where [reg_defs]: "cr6 = as_ConditionRegister 6"
definition cr7 :: ConditionRegister where [reg_defs]: "cr7 = as_ConditionRegister 7"

datatype SpecialPurposeRegister = as_SpecialPurposeRegister c_int

fun SpecialPurposeRegister_is_valid :: "SpecialPurposeRegister \<Rightarrow> bool" where
  "SpecialPurposeRegister_is_valid (as_SpecialPurposeRegister n) \<longleftrightarrow> n = 1 \<or> n = 8 \<or> n = 9"

fun SpecialPurposeRegister_encoding :: "SpecialPurposeRegister \<Rightarrow> c_int result" where
  "SpecialPurposeRegister_encoding (as_SpecialPurposeRegister n) =
     asserted (SpecialPurposeRegister_is_valid (as_SpecialPurposeRegister n))
       ''invalid register'' (Inr n)"

definition xer :: SpecialPurposeRegister where [reg_defs]: "xer = as_SpecialPurposeRegister 1"
definition lr :: SpecialPurposeRegister where [reg_defs]: "lr = as_SpecialPurposeRegister 8"
definition ctr :: SpecialPurposeRegister where [reg_defs]: "ctr = as_SpecialPurposeRegister 9"

section \<open>Every kind keeps the contract\<close>

section \<open>Every kind keeps the contract\<close>

lemma small_number_fits: "0 \<le> sint (n :: c_int) \<Longrightarrow> sint n < int k \<Longrightarrow> k \<le> 2 ^ m \<Longrightarrow> fits m n"
  using sint_range_unat [of n k] by (simp add: fits_unat)

interpretation gpr: reg_kind as_Register Register_encoding Register_is_valid 5
proof
  fix r i j
  show "\<exists>i. r = as_Register i" by (cases r) simp
  show "as_Register i = as_Register j \<Longrightarrow> i = j" by simp
  show "Register_is_valid (as_Register i) \<Longrightarrow> Register_encoding (as_Register i) = Inr i" by simp
  show "\<not> Register_is_valid r \<Longrightarrow> Register_encoding r = Inl (AssertFailed ''invalid register'')"
    by (cases r) (auto simp: asserted_def)
  show "Register_is_valid (as_Register i) \<Longrightarrow> fits 5 i"
    by (auto simp: number_of_registers_def intro: small_number_fits [where k = 32])
qed

interpretation fpr: reg_kind as_FloatRegister FloatRegister_encoding FloatRegister_is_valid 5
proof
  fix r i j
  show "\<exists>i. r = as_FloatRegister i" by (cases r) simp
  show "as_FloatRegister i = as_FloatRegister j \<Longrightarrow> i = j" by simp
  show "FloatRegister_is_valid (as_FloatRegister i) \<Longrightarrow>
    FloatRegister_encoding (as_FloatRegister i) = Inr i" by simp
  show "\<not> FloatRegister_is_valid r \<Longrightarrow>
    FloatRegister_encoding r = Inl (AssertFailed ''invalid register'')"
    by (cases r) (auto simp: asserted_def)
  show "FloatRegister_is_valid (as_FloatRegister i) \<Longrightarrow> fits 5 i"
    by (auto simp: number_of_float_registers_def intro: small_number_fits [where k = 32])
qed

interpretation crf: reg_kind as_ConditionRegister ConditionRegister_encoding
  ConditionRegister_is_valid 3
proof
  fix r i j
  show "\<exists>i. r = as_ConditionRegister i" by (cases r) simp
  show "as_ConditionRegister i = as_ConditionRegister j \<Longrightarrow> i = j" by simp
  show "ConditionRegister_is_valid (as_ConditionRegister i) \<Longrightarrow>
    ConditionRegister_encoding (as_ConditionRegister i) = Inr i" by simp
  show "\<not> ConditionRegister_is_valid r \<Longrightarrow>
    ConditionRegister_encoding r = Inl (AssertFailed ''invalid register'')"
    by (cases r) (auto simp: asserted_def)
  show "ConditionRegister_is_valid (as_ConditionRegister i) \<Longrightarrow> fits 3 i"
    by (auto intro: small_number_fits [where k = 8])
qed

interpretation spr: reg_kind as_SpecialPurposeRegister SpecialPurposeRegister_encoding
  SpecialPurposeRegister_is_valid 5
proof
  fix r i j
  show "\<exists>i. r = as_SpecialPurposeRegister i" by (cases r) simp
  show "as_SpecialPurposeRegister i = as_SpecialPurposeRegister j \<Longrightarrow> i = j" by simp
  show "SpecialPurposeRegister_is_valid (as_SpecialPurposeRegister i) \<Longrightarrow>
    SpecialPurposeRegister_encoding (as_SpecialPurposeRegister i) = Inr i" by simp
  show "\<not> SpecialPurposeRegister_is_valid r \<Longrightarrow>
    SpecialPurposeRegister_encoding r = Inl (AssertFailed ''invalid register'')"
    by (cases r) simp
  show "SpecialPurposeRegister_is_valid (as_SpecialPurposeRegister i) \<Longrightarrow> fits 5 i"
    by (auto simp: fits_unat)
qed

lemma Register_is_valid_iff: "Register_is_valid (as_Register n) \<longleftrightarrow> unat n < 32"
  using sint_unat_less_iff [of 32 n] by (simp add: number_of_registers_def)

lemma FloatRegister_is_valid_iff: "FloatRegister_is_valid (as_FloatRegister n) \<longleftrightarrow> unat n < 32"
  using sint_unat_less_iff [of 32 n] by (simp add: number_of_float_registers_def)

declare Register_is_valid.simps [simp del] FloatRegister_is_valid.simps [simp del]

section \<open>Numbering as VMRegs\<close>

text \<open>
  A \<^verbatim>\<open>VMReg\<close> is a pointer whose value (\<^verbatim>\<open>value()\<close>) is an \<^verbatim>\<open>int\<close>: first the integer registers,
  then the floating point registers.
\<close>

datatype VMReg = VMReg (VMReg_value: c_int)

definition max_gpr :: nat where
  "max_gpr = number_of_registers"

definition max_fpr :: nat where
  "max_fpr = max_gpr + number_of_float_registers"

definition number_of_concrete_registers :: nat where
  "number_of_concrete_registers = number_of_registers + number_of_float_registers"

definition Register_as_VMReg :: "Register \<Rightarrow> VMReg result" where
  "Register_as_VMReg r = bindR (Register_encoding r) (\<lambda>n. Inr (VMReg n))"

definition FloatRegister_as_VMReg :: "FloatRegister \<Rightarrow> VMReg result" where
  "FloatRegister_as_VMReg r =
     bindR (FloatRegister_encoding r) (\<lambda>n. Inr (VMReg (n + word_of_nat max_gpr)))"

definition VMReg_is_Register :: "VMReg \<Rightarrow> bool" where
  "VMReg_is_Register v \<longleftrightarrow> 0 \<le> sint (VMReg_value v) \<and> sint (VMReg_value v) < int max_gpr"

definition VMReg_is_FloatRegister :: "VMReg \<Rightarrow> bool" where
  "VMReg_is_FloatRegister v \<longleftrightarrow>
     int max_gpr \<le> sint (VMReg_value v) \<and> sint (VMReg_value v) < int max_fpr"

definition VMReg_as_Register :: "VMReg \<Rightarrow> Register result" where
  "VMReg_as_Register v =
     asserted (VMReg_is_Register v) ''must be'' (Inr (as_Register (VMReg_value v)))"

definition VMReg_as_FloatRegister :: "VMReg \<Rightarrow> FloatRegister result" where
  "VMReg_as_FloatRegister v =
     asserted (VMReg_is_FloatRegister v) ''must be''
       (Inr (as_FloatRegister (VMReg_value v - word_of_nat max_gpr)))"

text \<open>
  \<^verbatim>\<open>set_regName\<close> fills the array \<^verbatim>\<open>regName\<close> from index 0 on; the model returns the list of
  the names written. The two loops count \<^verbatim>\<open>i\<close> up to \<^verbatim>\<open>max_gpr\<close> and \<^verbatim>\<open>max_fpr\<close>; the first
  argument is the number of iterations left.
\<close>

fun set_regName_gpr :: "nat \<Rightarrow> Register \<Rightarrow> string list result" where
  "set_regName_gpr 0 reg = Inr []"
| "set_regName_gpr (Suc k) reg =
     bindR (Register_name reg) (\<lambda>nm.
     bindR (Register_successor reg) (\<lambda>reg'.
     bindR (set_regName_gpr k reg') (\<lambda>nms. Inr (nm # nms))))"

fun set_regName_fpr :: "nat \<Rightarrow> FloatRegister \<Rightarrow> string list result" where
  "set_regName_fpr 0 reg = Inr []"
| "set_regName_fpr (Suc k) reg =
     bindR (FloatRegister_name reg) (\<lambda>nm.
     bindR (FloatRegister_successor reg) (\<lambda>reg'.
     bindR (set_regName_fpr k reg') (\<lambda>nms. Inr (nm # nms))))"

definition set_regName :: "string list result" where
  "set_regName =
     bindR (set_regName_gpr max_gpr (as_Register 0)) (\<lambda>gs.
     bindR (set_regName_fpr (max_fpr - max_gpr) (as_FloatRegister 0)) (\<lambda>fs.
     asserted (length (gs @ fs) = number_of_concrete_registers) ''fix this'' (Inr (gs @ fs))))"

lemma set_regName_value: "set_regName = Inr (Register_names @ FloatRegister_names)"
  by code_simp

lemma length_Register_names: "length Register_names = 32"
  by (simp add: Register_names_def)

lemma sint_add_32:
  assumes "unat (n :: c_int) < 32"
  shows "sint (n + 32) = int (unat n) + 32"
proof -
  have "unat (n + 32) = unat n + 32"
    using assms by (subst unat_add_lem [THEN iffD1]) simp_all
  then show ?thesis using assms sint_small [of "n + 32"] by simp
qed

lemma Register_VMReg_roundtrip:
  assumes "Register_is_valid r"
  shows "\<exists>v. Register_as_VMReg r = Inr v \<and> VMReg_is_Register v \<and>
      \<not> VMReg_is_FloatRegister v \<and> VMReg_as_Register v = Inr r"
proof -
  obtain n where r: "r = as_Register n" by (cases r)
  with assms have "unat n < 32" by (simp add: Register_is_valid_iff)
  then have "0 \<le> sint n \<and> sint n < 32" using sint_unat_less_iff [of 32 n] by simp
  with assms r show ?thesis
    by (simp add: Register_as_VMReg_def VMReg_is_Register_def VMReg_is_FloatRegister_def
        VMReg_as_Register_def max_gpr_def max_fpr_def number_of_registers_def)
qed

lemma FloatRegister_VMReg_roundtrip:
  assumes "FloatRegister_is_valid q"
  shows "\<exists>v. FloatRegister_as_VMReg q = Inr v \<and> VMReg_is_FloatRegister v \<and>
      \<not> VMReg_is_Register v \<and> VMReg_as_FloatRegister v = Inr q"
proof -
  obtain n where q: "q = as_FloatRegister n" by (cases q)
  with assms have n: "unat n < 32" by (simp add: FloatRegister_is_valid_iff)
  then have "sint (n + 32) = int (unat n) + 32" "int (unat n) < 32"
    by (rule sint_add_32) (use n in linarith)
  with assms q show ?thesis
    by (simp add: FloatRegister_as_VMReg_def VMReg_is_Register_def VMReg_is_FloatRegister_def
        VMReg_as_FloatRegister_def max_gpr_def max_fpr_def number_of_registers_def
        number_of_float_registers_def del: of_nat_unat)
qed

text \<open>
  C36. The numbering of registers as VMRegs keeps the two kinds apart and loses nothing: a
  valid integer register becomes a VMReg that is recognised as an integer register, not as a
  floating point register, and is converted back to the same register; likewise for a
  floating point register; and the name \<^verbatim>\<open>set_regName\<close> stores at the VMReg's index is the
  register's own name.
\<close>

theorem VMReg_roundtrip:
  assumes "Register_is_valid r" and "FloatRegister_is_valid q"
  shows "\<exists>v w names. Register_as_VMReg r = Inr v \<and> FloatRegister_as_VMReg q = Inr w \<and>
      set_regName = Inr names \<and>
      VMReg_is_Register v \<and> \<not> VMReg_is_FloatRegister v \<and> VMReg_as_Register v = Inr r \<and>
      Register_name r = Inr (names ! unat (VMReg_value v)) \<and>
      VMReg_is_FloatRegister w \<and> \<not> VMReg_is_Register w \<and> VMReg_as_FloatRegister w = Inr q \<and>
      FloatRegister_name q = Inr (names ! unat (VMReg_value w))"
proof -
  obtain n m where r: "r = as_Register n" and q: "q = as_FloatRegister m"
    by (cases r, cases q)
  with assms have nm: "unat n < 32" "unat m < 32"
    by (simp_all add: Register_is_valid_iff FloatRegister_is_valid_iff)
  from nm have "unat (m + 32) = 32 + unat m"
    by (subst unat_add_lem [THEN iffD1]) simp_all
  with nm have "(Register_names @ FloatRegister_names) ! unat n = Register_names ! unat n"
    "(Register_names @ FloatRegister_names) ! unat (m + 32) = FloatRegister_names ! unat m"
    by (simp_all add: nth_append length_Register_names)
  with Register_VMReg_roundtrip [OF assms(1)] FloatRegister_VMReg_roundtrip [OF assms(2)] r q assms
  show ?thesis
    by (auto simp: set_regName_value Register_as_VMReg_def FloatRegister_as_VMReg_def
        Register_name_def FloatRegister_name_def max_gpr_def number_of_registers_def)
qed

theorem VMReg_roundtrip_witness:
  "\<exists>v. Register_as_VMReg (as_Register 31) = Inr v \<and> VMReg_as_Register v = Inr (as_Register 31)"
proof -
  have "Register_is_valid (as_Register 31)" "FloatRegister_is_valid (as_FloatRegister 31)"
    by (simp_all add: Register_is_valid_iff FloatRegister_is_valid_iff)
  from VMReg_roundtrip [OF this] show ?thesis by blast
qed

end
