(* ===== verification/Assembler.thy ===== *)
theory Assembler
  imports Registers
begin

text \<open>
  The class \<^verbatim>\<open>Assembler\<close> (\<^verbatim>\<open>assembler_CPU.hpp\<close>, \<^verbatim>\<open>assembler_CPU.cpp\<close>): memory operands, the
  instruction emitters of each form, branch targets, one definition per instruction and
  mnemonic, and the fixing up of forward branches. An instruction \<^verbatim>\<open>Assembler::foo\<close> is
  \<open>asm_foo\<close>; where C++ overloads a name, a suffix tells the overloads apart (\<open>asm_b\<close> takes an
  address, \<open>asm_b_label\<close> a label).
\<close>

section \<open>Memory operands\<close>

record Address =
  Address_base :: Register
  Address_disp :: "16 word"

definition mk_Address :: "Register \<Rightarrow> int \<Rightarrow> Address result" where
  "mk_Address base displacement =
     asserted (base \<noteq> r0) ''can't use r0 for addressing''
       (Inr \<lparr>Address_base = base, Address_disp = word_of_int displacement\<rparr>)"

definition Address_displacement :: "Address \<Rightarrow> c_int" where
  "Address_displacement a = scast (Address_disp a) AND 0xffff"

text \<open>\<^verbatim>\<open>>>\<close> on an \<^verbatim>\<open>int\<close> is arithmetic.\<close>

definition c_shr :: "c_int \<Rightarrow> nat \<Rightarrow> c_int" where
  "c_shr x n = signed_drop_bit n x"

definition is_simm :: "int \<Rightarrow> nat \<Rightarrow> bool" where
  "is_simm x nbits \<longleftrightarrow> - (2 ^ (nbits - 1)) \<le> x \<and> x < 2 ^ (nbits - 1)"

definition is_simm16 :: "int \<Rightarrow> bool" where
  "is_simm16 x \<longleftrightarrow> is_simm x 16"

section \<open>Instruction forms\<close>

definition I_form :: "c_int \<Rightarrow> c_int \<Rightarrow> bool \<Rightarrow> bool \<Rightarrow> c_int" where
  "I_form opcode li aa lk =
     push_bit 26 opcode OR push_bit 2 li OR push_bit 1 (of_bool aa) OR of_bool lk"

definition emit_I :: "c_int \<Rightarrow> c_int \<Rightarrow> bool \<Rightarrow> bool \<Rightarrow> 'a emitter" where
  "emit_I opcode li aa lk =
     asserting (opcode AND NOT 0x3f = 0) ''invalid opcode''
    (asserting (li AND NOT 0xffffff = 0) ''invalid operand''
    (emit_long (I_form opcode li aa lk)))"

definition B_form :: "c_int \<Rightarrow> c_int \<Rightarrow> c_int \<Rightarrow> c_int \<Rightarrow> bool \<Rightarrow> bool \<Rightarrow> c_int" where
  "B_form opcode bo bi bd aa lk =
     push_bit 26 opcode OR push_bit 21 bo OR push_bit 16 bi OR push_bit 2 bd OR
     push_bit 1 (of_bool aa) OR of_bool lk"

definition emit_B :: "c_int \<Rightarrow> c_int \<Rightarrow> c_int \<Rightarrow> c_int \<Rightarrow> bool \<Rightarrow> bool \<Rightarrow> 'a emitter" where
  "emit_B opcode bo bi bd aa lk =
     asserting (opcode AND NOT 0x3f = 0) ''invalid opcode''
    (asserting (bo AND NOT 0x1f = 0) ''invalid operand''
    (asserting (bi AND NOT 0x1f = 0) ''invalid operand''
    (asserting (bd AND NOT 0x3fff = 0) ''invalid operand''
    (emit_long (B_form opcode bo bi bd aa lk)))))"

definition D_form :: "c_int \<Rightarrow> c_int \<Rightarrow> c_int \<Rightarrow> c_int \<Rightarrow> c_int" where
  "D_form opcode a b c = push_bit 26 opcode OR push_bit 21 a OR push_bit 16 b OR c"

definition emit_D :: "c_int \<Rightarrow> c_int \<Rightarrow> c_int \<Rightarrow> c_int \<Rightarrow> 'a emitter" where
  "emit_D opcode a b c =
     asserting (opcode AND NOT 0x3f = 0) ''invalid opcode''
    (asserting (a AND NOT 0x1f = 0) ''invalid operand''
    (asserting (b AND NOT 0x1f = 0) ''invalid operand''
    (if sint c < 0
     then asserting (c AND NOT 0xffff = NOT 0xffff) ''invalid operand''
       (emit_long (D_form opcode a b (c AND 0xffff)))
     else asserting (c AND NOT 0xffff = 0) ''invalid operand''
       (emit_long (D_form opcode a b c)))))"

definition DS_form :: "c_int \<Rightarrow> c_int \<Rightarrow> c_int \<Rightarrow> c_int \<Rightarrow> c_int \<Rightarrow> c_int" where
  "DS_form opcode a b c d =
     push_bit 26 opcode OR push_bit 21 a OR push_bit 16 b OR push_bit 2 c OR d"

definition emit_DS :: "c_int \<Rightarrow> c_int \<Rightarrow> c_int \<Rightarrow> c_int \<Rightarrow> c_int \<Rightarrow> 'a emitter" where
  "emit_DS opcode a b c d =
     asserting (opcode AND NOT 0x3f = 0) ''invalid opcode''
    (asserting (a AND NOT 0x1f = 0) ''invalid operand''
    (asserting (b AND NOT 0x1f = 0) ''invalid operand''
    (if sint c < 0
     then asserting (c AND NOT 0x3fff = NOT 0x3fff) ''invalid operand''
       (asserting (d AND NOT 0x3 = 0) ''invalid operand''
       (emit_long (DS_form opcode a b (c AND 0x3fff) d)))
     else asserting (c AND NOT 0x3fff = 0) ''invalid operand''
       (asserting (d AND NOT 0x3 = 0) ''invalid operand''
       (emit_long (DS_form opcode a b c d))))))"

definition X_form :: "c_int \<Rightarrow> c_int \<Rightarrow> c_int \<Rightarrow> c_int \<Rightarrow> c_int \<Rightarrow> bool \<Rightarrow> c_int" where
  "X_form opcode a b c xo rc =
     push_bit 26 opcode OR push_bit 21 a OR push_bit 16 b OR push_bit 11 c OR
     push_bit 1 xo OR of_bool rc"

definition emit_X :: "c_int \<Rightarrow> c_int \<Rightarrow> c_int \<Rightarrow> c_int \<Rightarrow> c_int \<Rightarrow> bool \<Rightarrow> 'a emitter" where
  "emit_X opcode a b c xo rc =
     asserting (opcode AND NOT 0x3f = 0) ''invalid opcode''
    (asserting (a AND NOT 0x1f = 0) ''invalid operand''
    (asserting (b AND NOT 0x1f = 0) ''invalid operand''
    (asserting (c AND NOT 0x1f = 0) ''invalid operand''
    (asserting (xo AND NOT 0x3ff = 0) ''invalid operand''
    (emit_long (X_form opcode a b c xo rc))))))"

definition M_form :: "c_int \<Rightarrow> c_int \<Rightarrow> c_int \<Rightarrow> c_int \<Rightarrow> c_int \<Rightarrow> c_int \<Rightarrow> bool \<Rightarrow> c_int" where
  "M_form opcode a b c d e rc =
     push_bit 26 opcode OR push_bit 21 a OR push_bit 16 b OR push_bit 11 c OR
     push_bit 6 d OR push_bit 1 e OR of_bool rc"

text \<open>The M-form (opcode 21) and the MD-form (opcode 30), whose operands are split in two.\<close>

definition emit_M ::
  "c_int \<Rightarrow> c_int \<Rightarrow> c_int \<Rightarrow> c_int \<Rightarrow> c_int \<Rightarrow> c_int \<Rightarrow> bool \<Rightarrow> 'a emitter" where
  "emit_M opcode a b c d e rc =
     (if opcode = 21 then
        asserting (a AND NOT 0x1f = 0) ''invalid operand''
       (asserting (b AND NOT 0x1f = 0) ''invalid operand''
       (asserting (c AND NOT 0x1f = 0) ''invalid operand''
       (asserting (d AND NOT 0x1f = 0) ''invalid operand''
       (asserting (e AND NOT 0x1f = 0) ''invalid operand''
       (emit_long (M_form opcode a b c d e rc))))))
      else if opcode = 30 then
        asserting (a AND NOT 0x1f = 0) ''invalid operand''
       (asserting (b AND NOT 0x1f = 0) ''invalid operand''
       (asserting (c AND NOT 0x3f = 0) ''invalid operand''
       (asserting (d AND NOT 0x3f = 0) ''invalid operand''
       (asserting (e AND NOT 0x07 = 0) ''invalid operand''
       (let C = c AND 0x1f; D = d AND 0x1f;
            E = c_shr (d AND 0x20) 1 OR push_bit 1 e OR c_shr (c AND 0x20) 5
        in emit_long (M_form opcode a b C D E rc))))))
      else (\<lambda>s. Inl ShouldNotReachHere))"

section \<open>Wrappers: operands to encodings\<close>

definition emit_D_RRi :: "c_int \<Rightarrow> Register \<Rightarrow> Register \<Rightarrow> c_int \<Rightarrow> 'a emitter" where
  "emit_D_RRi opcode a b c =
     withR (Register_encoding a) (\<lambda>a'. withR (Register_encoding b) (\<lambda>b'. emit_D opcode a' b' c))"

definition emit_DS_RRii :: "c_int \<Rightarrow> Register \<Rightarrow> Register \<Rightarrow> c_int \<Rightarrow> c_int \<Rightarrow> 'a emitter" where
  "emit_DS_RRii opcode a b c d =
     withR (Register_encoding a) (\<lambda>a'. withR (Register_encoding b) (\<lambda>b'. emit_DS opcode a' b' c d))"

definition emit_D_FRi :: "c_int \<Rightarrow> FloatRegister \<Rightarrow> Register \<Rightarrow> c_int \<Rightarrow> 'a emitter" where
  "emit_D_FRi opcode a b c =
     withR (FloatRegister_encoding a) (\<lambda>a'.
     withR (Register_encoding b) (\<lambda>b'. emit_D opcode a' b' c))"

definition emit_D_RA :: "c_int \<Rightarrow> Register \<Rightarrow> Address result \<Rightarrow> 'a emitter" where
  "emit_D_RA opcode a b =
     withR b (\<lambda>b'. emit_D_RRi opcode a (Address_base b') (Address_displacement b'))"

definition emit_DS_RA :: "c_int \<Rightarrow> Register \<Rightarrow> Address result \<Rightarrow> c_int \<Rightarrow> 'a emitter" where
  "emit_DS_RA opcode a b c =
     withR b (\<lambda>b'. emit_DS_RRii opcode a (Address_base b') (c_shr (Address_displacement b') 2) c)"

definition emit_D_FA :: "c_int \<Rightarrow> FloatRegister \<Rightarrow> Address result \<Rightarrow> 'a emitter" where
  "emit_D_FA opcode a b =
     withR b (\<lambda>b'. emit_D_FRi opcode a (Address_base b') (Address_displacement b'))"

definition emit_X_Rii :: "c_int \<Rightarrow> Register \<Rightarrow> c_int \<Rightarrow> c_int \<Rightarrow> c_int \<Rightarrow> bool \<Rightarrow> 'a emitter" where
  "emit_X_Rii opcode a b c xo rc = withR (Register_encoding a) (\<lambda>a'. emit_X opcode a' b c xo rc)"

definition emit_X_RRR ::
  "c_int \<Rightarrow> Register \<Rightarrow> Register \<Rightarrow> Register \<Rightarrow> c_int \<Rightarrow> bool \<Rightarrow> 'a emitter" where
  "emit_X_RRR opcode a b c xo rc =
     withR (Register_encoding a) (\<lambda>a'.
     withR (Register_encoding b) (\<lambda>b'.
     withR (Register_encoding c) (\<lambda>c'. emit_X opcode a' b' c' xo rc)))"

definition emit_X_RS ::
  "c_int \<Rightarrow> Register \<Rightarrow> SpecialPurposeRegister \<Rightarrow> c_int \<Rightarrow> c_int \<Rightarrow> bool \<Rightarrow> 'a emitter" where
  "emit_X_RS opcode a b c xo rc =
     withR (Register_encoding a) (\<lambda>a'.
     withR (SpecialPurposeRegister_encoding b) (\<lambda>b'. emit_X opcode a' b' c xo rc))"

definition emit_X_SR ::
  "c_int \<Rightarrow> SpecialPurposeRegister \<Rightarrow> Register \<Rightarrow> c_int \<Rightarrow> c_int \<Rightarrow> bool \<Rightarrow> 'a emitter" where
  "emit_X_SR opcode a b c xo rc =
     withR (SpecialPurposeRegister_encoding a) (\<lambda>a'.
     withR (Register_encoding b) (\<lambda>b'. emit_X opcode a' b' c xo rc))"

definition emit_M_RR ::
  "c_int \<Rightarrow> Register \<Rightarrow> Register \<Rightarrow> c_int \<Rightarrow> c_int \<Rightarrow> c_int \<Rightarrow> bool \<Rightarrow> 'a emitter" where
  "emit_M_RR opcode a b c d e rc =
     withR (Register_encoding a) (\<lambda>a'.
     withR (Register_encoding b) (\<lambda>b'. emit_M opcode a' b' c d e rc))"

definition emit_X_iRR ::
  "c_int \<Rightarrow> c_int \<Rightarrow> Register \<Rightarrow> Register \<Rightarrow> c_int \<Rightarrow> bool \<Rightarrow> 'a emitter" where
  "emit_X_iRR opcode a b c d rc =
     withR (Register_encoding b) (\<lambda>b'.
     withR (Register_encoding c) (\<lambda>c'. emit_X opcode a b' c' d rc))"

definition emit_X_CR ::
  "c_int \<Rightarrow> ConditionRegister \<Rightarrow> bool \<Rightarrow> Register \<Rightarrow> Register \<Rightarrow> c_int \<Rightarrow> bool \<Rightarrow> 'a emitter" where
  "emit_X_CR opcode a l b c d rc =
     withR (ConditionRegister_encoding a) (\<lambda>a'.
       emit_X_iRR opcode (push_bit 2 a' OR of_bool l) b c d rc)"

definition emit_D_CR ::
  "c_int \<Rightarrow> ConditionRegister \<Rightarrow> bool \<Rightarrow> Register \<Rightarrow> c_int \<Rightarrow> 'a emitter" where
  "emit_D_CR opcode a l b c =
     withR (ConditionRegister_encoding a) (\<lambda>a'.
     withR (Register_encoding b) (\<lambda>b'. emit_D opcode (push_bit 2 a' OR of_bool l) b' c))"

definition emit_X_FiF ::
  "c_int \<Rightarrow> FloatRegister \<Rightarrow> c_int \<Rightarrow> FloatRegister \<Rightarrow> c_int \<Rightarrow> bool \<Rightarrow> 'a emitter" where
  "emit_X_FiF opcode a b c xo rc =
     withR (FloatRegister_encoding a) (\<lambda>a'.
     withR (FloatRegister_encoding c) (\<lambda>c'. emit_X opcode a' b c' xo rc))"

section \<open>Branch targets\<close>

text \<open>Addresses and displacements are \<^verbatim>\<open>intptr_t\<close>: words of the machine's width \<open>'w\<close>.\<close>

definition branch_target :: "'w::len word \<Rightarrow> 'w word \<Rightarrow> nat \<Rightarrow> 'w word result" where
  "branch_target branch target bits =
     asserted (branch AND 3 = 0) ''invalid address''
    (asserted (target AND 3 = 0) ''invalid address''
    (let disp = signed_drop_bit 2 (target - branch);
         mask_w = push_bit bits 1 - 1;
         msb_w = push_bit (bits - 1) 1
     in if disp AND msb_w \<noteq> 0
        then asserted (disp AND NOT mask_w = NOT mask_w) ''invalid displacement''
               (Inr (disp AND mask_w))
        else asserted (disp AND NOT mask_w = 0) ''invalid displacement'' (Inr disp)))"

section \<open>Instructions\<close>

definition asm_add :: "Register \<Rightarrow> Register \<Rightarrow> Register \<Rightarrow> 'a emitter" where [asm_defs]:
  "asm_add dst a b = emit_X_RRR 31 dst a b 266 False"

definition asm_addi :: "Register \<Rightarrow> Register \<Rightarrow> c_int \<Rightarrow> 'a emitter" where [asm_defs]:
  "asm_addi dst a b = emit_D_RRi 14 dst a b"

definition asm_addis :: "Register \<Rightarrow> Register \<Rightarrow> c_int \<Rightarrow> 'a emitter" where [asm_defs]:
  "asm_addis dst a b = emit_D_RRi 15 dst a b"

definition asm_andi_rc :: "Register \<Rightarrow> Register \<Rightarrow> c_int \<Rightarrow> 'a emitter" where [asm_defs]:
  "asm_andi_rc dst a b = emit_D_RRi 28 a dst b"

definition asm_b :: "'w::len word \<Rightarrow> 'w word emitter" where [asm_defs]:
  "asm_b a s = bindR (branch_target (pc s) a 24) (\<lambda>d. emit_I 18 (ucast d) False False s)"

definition asm_bc :: "c_int \<Rightarrow> c_int \<Rightarrow> 'w::len word \<Rightarrow> 'w word emitter" where [asm_defs]:
  "asm_bc bo bi a s = bindR (branch_target (pc s) a 14) (\<lambda>d. emit_B 16 bo bi (ucast d) False False s)"

definition asm_bcctrl :: "c_int \<Rightarrow> c_int \<Rightarrow> 'a emitter" where [asm_defs]:
  "asm_bcctrl bo bi = emit_X 19 bo bi 0 528 True"

definition asm_bcl :: "c_int \<Rightarrow> c_int \<Rightarrow> 'w::len word \<Rightarrow> 'w word emitter" where [asm_defs]:
  "asm_bcl bo bi a s = bindR (branch_target (pc s) a 14) (\<lambda>d. emit_B 16 bo bi (ucast d) False True s)"

definition asm_bclr :: "c_int \<Rightarrow> c_int \<Rightarrow> 'a emitter" where [asm_defs]:
  "asm_bclr bo bi = emit_X 19 bo bi 0 16 False"

definition asm_bclrl :: "c_int \<Rightarrow> c_int \<Rightarrow> 'a emitter" where [asm_defs]:
  "asm_bclrl bo bi = emit_X 19 bo bi 0 16 True"

definition asm_bl :: "'w::len word \<Rightarrow> 'w word emitter" where [asm_defs]:
  "asm_bl a s = bindR (branch_target (pc s) a 24) (\<lambda>d. emit_I 18 (ucast d) False True s)"

definition asm_cmp :: "ConditionRegister \<Rightarrow> bool \<Rightarrow> Register \<Rightarrow> Register \<Rightarrow> 'a emitter" where [asm_defs]:
  "asm_cmp dst l a b = emit_X_CR 31 dst l a b 0 False"

definition asm_cmpi :: "ConditionRegister \<Rightarrow> bool \<Rightarrow> Register \<Rightarrow> c_int \<Rightarrow> 'a emitter" where [asm_defs]:
  "asm_cmpi dst l a b = emit_D_CR 11 dst l a b"

definition asm_dcbf :: "Register \<Rightarrow> Register \<Rightarrow> 'a emitter" where [asm_defs]:
  "asm_dcbf a b = emit_X_iRR 31 0 a b 86 False"

definition asm_extsb :: "Register \<Rightarrow> Register \<Rightarrow> 'a emitter" where [asm_defs]:
  "asm_extsb dst src = emit_X_RRR 31 src dst (as_Register 0) 954 False"

definition asm_extsh :: "Register \<Rightarrow> Register \<Rightarrow> 'a emitter" where [asm_defs]:
  "asm_extsh dst src = emit_X_RRR 31 src dst (as_Register 0) 922 False"

definition asm_fmr :: "FloatRegister \<Rightarrow> FloatRegister \<Rightarrow> 'a emitter" where [asm_defs]:
  "asm_fmr dst src = emit_X_FiF 63 dst 0 src 72 False"

definition asm_icbi :: "Register \<Rightarrow> Register \<Rightarrow> 'a emitter" where [asm_defs]:
  "asm_icbi a b = emit_X_iRR 31 0 a b 982 False"

definition asm_isync :: "'a emitter" where [asm_defs]:
  "asm_isync = emit_X 19 0 0 0 150 False"

definition asm_lbzx :: "Register \<Rightarrow> Register \<Rightarrow> Register \<Rightarrow> 'a emitter" where [asm_defs]:
  "asm_lbzx dst a b = emit_X_RRR 31 dst a b 87 False"

definition asm_lfd :: "FloatRegister \<Rightarrow> Address result \<Rightarrow> 'a emitter" where [asm_defs]:
  "asm_lfd dst src = emit_D_FA 50 dst src"

definition asm_lfs :: "FloatRegister \<Rightarrow> Address result \<Rightarrow> 'a emitter" where [asm_defs]:
  "asm_lfs dst src = emit_D_FA 48 dst src"

definition asm_lhz :: "Register \<Rightarrow> Address result \<Rightarrow> 'a emitter" where [asm_defs]:
  "asm_lhz dst src = emit_D_RA 40 dst src"

definition asm_lhzx :: "Register \<Rightarrow> Register \<Rightarrow> Register \<Rightarrow> 'a emitter" where [asm_defs]:
  "asm_lhzx dst a b = emit_X_RRR 31 dst a b 279 False"

definition asm_lwarx :: "Register \<Rightarrow> Register \<Rightarrow> Register \<Rightarrow> 'a emitter" where [asm_defs]:
  "asm_lwarx dst a b = emit_X_RRR 31 dst a b 20 False"

definition asm_lwz :: "Register \<Rightarrow> Address result \<Rightarrow> 'a emitter" where [asm_defs]:
  "asm_lwz dst src = emit_D_RA 32 dst src"

definition asm_lwzx :: "Register \<Rightarrow> Register \<Rightarrow> Register \<Rightarrow> 'a emitter" where [asm_defs]:
  "asm_lwzx dst a b = emit_X_RRR 31 dst a b 23 False"

definition asm_mfcr :: "Register \<Rightarrow> 'a emitter" where [asm_defs]:
  "asm_mfcr dst = emit_X_Rii 31 dst 0 0 19 False"

definition asm_mfspr :: "Register \<Rightarrow> SpecialPurposeRegister \<Rightarrow> 'a emitter" where [asm_defs]:
  "asm_mfspr dst src = emit_X_RS 31 dst src 0 339 False"

definition asm_mtcrf :: "c_int \<Rightarrow> Register \<Rightarrow> 'a emitter" where [asm_defs]:
  "asm_mtcrf m src = emit_X_Rii 31 src (c_shr (m AND 0xf0) 4) (push_bit 1 (m AND 0xf)) 144 False"

definition asm_mtspr :: "SpecialPurposeRegister \<Rightarrow> Register \<Rightarrow> 'a emitter" where [asm_defs]:
  "asm_mtspr dst src = emit_X_RS 31 src dst 0 467 False"

definition asm_neg :: "Register \<Rightarrow> Register \<Rightarrow> 'a emitter" where [asm_defs]:
  "asm_neg dst src = emit_X_RRR 31 dst src (as_Register 0) 104 False"

definition asm_OR :: "Register \<Rightarrow> Register \<Rightarrow> Register \<Rightarrow> 'a emitter" where [asm_defs]:
  "asm_OR dst a b = emit_X_RRR 31 a dst b 444 False"

definition asm_ori :: "Register \<Rightarrow> Register \<Rightarrow> c_int \<Rightarrow> 'a emitter" where [asm_defs]:
  "asm_ori dst a b = emit_D_RRi 24 a dst b"

definition asm_oris :: "Register \<Rightarrow> Register \<Rightarrow> c_int \<Rightarrow> 'a emitter" where [asm_defs]:
  "asm_oris dst a b = emit_D_RRi 25 a dst b"

definition asm_rlwinm :: "Register \<Rightarrow> Register \<Rightarrow> c_int \<Rightarrow> c_int \<Rightarrow> c_int \<Rightarrow> 'a emitter" where [asm_defs]:
  "asm_rlwinm dst a b mb me = emit_M_RR 21 a dst b mb me False"

definition asm_stfd :: "FloatRegister \<Rightarrow> Address result \<Rightarrow> 'a emitter" where [asm_defs]:
  "asm_stfd src dst = emit_D_FA 54 src dst"

definition asm_stfs :: "FloatRegister \<Rightarrow> Address result \<Rightarrow> 'a emitter" where [asm_defs]:
  "asm_stfs src dst = emit_D_FA 52 src dst"

definition asm_stw :: "Register \<Rightarrow> Address result \<Rightarrow> 'a emitter" where [asm_defs]:
  "asm_stw src dst = emit_D_RA 36 src dst"

definition asm_stwcx_rc :: "Register \<Rightarrow> Register \<Rightarrow> Register \<Rightarrow> 'a emitter" where [asm_defs]:
  "asm_stwcx_rc src a b = emit_X_RRR 31 src a b 150 True"

definition asm_stwu :: "Register \<Rightarrow> Address result \<Rightarrow> 'a emitter" where [asm_defs]:
  "asm_stwu src dst = emit_D_RA 37 src dst"

definition asm_stwux :: "Register \<Rightarrow> Register \<Rightarrow> Register \<Rightarrow> 'a emitter" where [asm_defs]:
  "asm_stwux src a b = emit_X_RRR 31 src a b 183 False"

definition asm_stwx :: "Register \<Rightarrow> Register \<Rightarrow> Register \<Rightarrow> 'a emitter" where [asm_defs]:
  "asm_stwx src a b = emit_X_RRR 31 src a b 151 False"

definition asm_subf :: "Register \<Rightarrow> Register \<Rightarrow> Register \<Rightarrow> 'a emitter" where [asm_defs]:
  "asm_subf dst a b = emit_X_RRR 31 dst a b 40 False"

definition asm_subfic :: "Register \<Rightarrow> Register \<Rightarrow> c_int \<Rightarrow> 'a emitter" where [asm_defs]:
  "asm_subfic dst a b = emit_D_RRi 8 dst a b"

definition asm_sync :: "'a emitter" where [asm_defs]:
  "asm_sync = emit_X 31 0 0 0 598 False"

text \<open>Instructions for 64-bit implementations only.\<close>

definition asm_extsw :: "Register \<Rightarrow> Register \<Rightarrow> 'a emitter" where [asm_defs]:
  "asm_extsw dst src = emit_X_RRR 31 src dst (as_Register 0) 986 False"

definition asm_ld :: "Register \<Rightarrow> Address result \<Rightarrow> 'a emitter" where [asm_defs]:
  "asm_ld dst src = emit_DS_RA 58 dst src 0"

definition asm_ldarx :: "Register \<Rightarrow> Register \<Rightarrow> Register \<Rightarrow> 'a emitter" where [asm_defs]:
  "asm_ldarx dst a b = emit_X_RRR 31 dst a b 84 False"

definition asm_ldx :: "Register \<Rightarrow> Register \<Rightarrow> Register \<Rightarrow> 'a emitter" where [asm_defs]:
  "asm_ldx dst a b = emit_X_RRR 31 dst a b 21 False"

definition asm_rldicl :: "Register \<Rightarrow> Register \<Rightarrow> c_int \<Rightarrow> c_int \<Rightarrow> 'a emitter" where [asm_defs]:
  "asm_rldicl dst a sh mb = emit_M_RR 30 a dst sh mb 0 False"

definition asm_rldicr :: "Register \<Rightarrow> Register \<Rightarrow> c_int \<Rightarrow> c_int \<Rightarrow> 'a emitter" where [asm_defs]:
  "asm_rldicr dst a sh me = emit_M_RR 30 a dst sh me 1 False"

definition asm_std :: "Register \<Rightarrow> Address result \<Rightarrow> 'a emitter" where [asm_defs]:
  "asm_std src dst = emit_DS_RA 62 src dst 0"

definition asm_stdcx_rc :: "Register \<Rightarrow> Register \<Rightarrow> Register \<Rightarrow> 'a emitter" where [asm_defs]:
  "asm_stdcx_rc src a b = emit_X_RRR 31 src a b 214 True"

definition asm_stdu :: "Register \<Rightarrow> Address result \<Rightarrow> 'a emitter" where [asm_defs]:
  "asm_stdu src dst = emit_DS_RA 62 src dst 1"

definition asm_stdux :: "Register \<Rightarrow> Register \<Rightarrow> Register \<Rightarrow> 'a emitter" where [asm_defs]:
  "asm_stdux src a b = emit_X_RRR 31 src a b 181 False"

definition asm_stdx :: "Register \<Rightarrow> Register \<Rightarrow> Register \<Rightarrow> 'a emitter" where [asm_defs]:
  "asm_stdx src a b = emit_X_RRR 31 src a b 149 False"

section \<open>Labels\<close>

text \<open>
  A branch to a label that is bound is a branch to its address. A branch to one that is not
  is recorded with the label (\<^verbatim>\<open>add_patch_at\<close>) and emitted as a branch to itself, whose
  displacement is zero.
\<close>

definition is_bound :: "nat \<Rightarrow> 'a asm \<Rightarrow> bool" where
  "is_bound l s \<longleftrightarrow> bound_at (asm_labels s ! l) \<noteq> None"

definition add_patch_at :: "nat \<Rightarrow> 'a \<Rightarrow> 'a asm \<Rightarrow> 'a asm" where
  "add_patch_at l a s = s\<lparr>asm_labels := (asm_labels s)
     [l := (asm_labels s ! l)\<lparr>patch_sites := patch_sites (asm_labels s ! l) @ [a]\<rparr>]\<rparr>"

definition branch_to_label ::
  "nat \<Rightarrow> ('w::len word \<Rightarrow> 'w word emitter) \<Rightarrow> 'w word emitter" where
  "branch_to_label l br s =
     (if length (asm_labels s) \<le> l then Inl UndefinedBehaviour
      else case bound_at (asm_labels s ! l) of
        Some t \<Rightarrow> br t s
      | None \<Rightarrow> br (pc s) (add_patch_at l (pc s) s))"

text \<open>The declaration of a local \<^verbatim>\<open>Label\<close>: a fresh one, neither bound nor waited for.\<close>

definition with_label :: "(nat \<Rightarrow> 'a emitter) \<Rightarrow> 'a emitter" where
  "with_label k s = k (length (asm_labels s))
     (s\<lparr>asm_labels := asm_labels s @ [\<lparr>bound_at = None, patch_sites = []\<rparr>]\<rparr>)"

text \<open>Wrappers for branch instructions, to a label.\<close>

definition asm_b_label :: "nat \<Rightarrow> 'w::len word emitter" where [asm_defs]:
  "asm_b_label l = branch_to_label l asm_b"

definition asm_bc_label :: "c_int \<Rightarrow> c_int \<Rightarrow> nat \<Rightarrow> 'w::len word emitter" where [asm_defs]:
  "asm_bc_label bo bi l = branch_to_label l (asm_bc bo bi)"

definition asm_bl_label :: "nat \<Rightarrow> 'w::len word emitter" where [asm_defs]:
  "asm_bl_label l = branch_to_label l asm_bl"

text \<open>Standard mnemonics common to 32- and 64-bit implementations.\<close>

definition asm_bctrl :: "'a emitter" where [asm_defs]:
  "asm_bctrl = asm_bcctrl 20 0"

definition asm_bdnz :: "nat \<Rightarrow> 'w::len word emitter" where [asm_defs]:
  "asm_bdnz l = asm_bc_label 16 0 l"

definition asm_beq :: "nat \<Rightarrow> 'w::len word emitter" where [asm_defs]:
  "asm_beq l = asm_bc_label 12 2 l"

definition asm_beqlr :: "'a emitter" where [asm_defs]:
  "asm_beqlr = asm_bclr 12 2"

definition asm_bge :: "nat \<Rightarrow> 'w::len word emitter" where [asm_defs]:
  "asm_bge l = asm_bc_label 4 0 l"

definition asm_bgt :: "nat \<Rightarrow> 'w::len word emitter" where [asm_defs]:
  "asm_bgt l = asm_bc_label 12 1 l"

definition asm_ble :: "nat \<Rightarrow> 'w::len word emitter" where [asm_defs]:
  "asm_ble l = asm_bc_label 4 1 l"

definition asm_blelr :: "'a emitter" where [asm_defs]:
  "asm_blelr = asm_bclr 4 1"

definition asm_blr :: "'a emitter" where [asm_defs]:
  "asm_blr = asm_bclr 20 0"

definition asm_blrl :: "'a emitter" where [asm_defs]:
  "asm_blrl = asm_bclrl 20 0"

definition asm_blt :: "nat \<Rightarrow> 'w::len word emitter" where [asm_defs]:
  "asm_blt l = asm_bc_label 12 0 l"

definition asm_bne_cr :: "ConditionRegister \<Rightarrow> nat \<Rightarrow> 'w::len word emitter" where [asm_defs]:
  "asm_bne_cr r l = withR (ConditionRegister_encoding r) (\<lambda>e. asm_bc_label 4 (push_bit 2 e OR 2) l)"

definition asm_bne :: "nat \<Rightarrow> 'w::len word emitter" where [asm_defs]:
  "asm_bne l = asm_bne_cr cr0 l"

definition asm_cmpw :: "ConditionRegister \<Rightarrow> Register \<Rightarrow> Register \<Rightarrow> 'a emitter" where [asm_defs]:
  "asm_cmpw dst a b = asm_cmp dst False a b"

definition asm_cmpwi :: "ConditionRegister \<Rightarrow> Register \<Rightarrow> c_int \<Rightarrow> 'a emitter" where [asm_defs]:
  "asm_cmpwi dst a b = asm_cmpi dst False a b"

definition asm_la :: "Register \<Rightarrow> Address result \<Rightarrow> 'a emitter" where [asm_defs]:
  "asm_la dst value = withR value (\<lambda>v. asm_addi dst (Address_base v) (Address_displacement v))"

definition asm_li :: "Register \<Rightarrow> c_int \<Rightarrow> 'a emitter" where [asm_defs]:
  "asm_li dst value = asm_addi dst (as_Register 0) value"

definition asm_lis :: "Register \<Rightarrow> c_int \<Rightarrow> 'a emitter" where [asm_defs]:
  "asm_lis dst value = asm_addis dst (as_Register 0) value"

definition asm_mr :: "Register \<Rightarrow> Register \<Rightarrow> 'a emitter" where [asm_defs]:
  "asm_mr dst src = asm_OR dst src src"

definition asm_mfctr :: "Register \<Rightarrow> 'a emitter" where [asm_defs]:
  "asm_mfctr dst = asm_mfspr dst ctr"

definition asm_mflr :: "Register \<Rightarrow> 'a emitter" where [asm_defs]:
  "asm_mflr dst = asm_mfspr dst lr"

definition asm_mtcr :: "Register \<Rightarrow> 'a emitter" where [asm_defs]:
  "asm_mtcr src = asm_mtcrf 0xff src"

definition asm_mtctr :: "Register \<Rightarrow> 'a emitter" where [asm_defs]:
  "asm_mtctr src = asm_mtspr ctr src"

definition asm_mtlr :: "Register \<Rightarrow> 'a emitter" where [asm_defs]:
  "asm_mtlr src = asm_mtspr lr src"

definition asm_nop :: "'a emitter" where [asm_defs]:
  "asm_nop = asm_ori r0 r0 0"

definition asm_slwi :: "Register \<Rightarrow> Register \<Rightarrow> c_int \<Rightarrow> 'a emitter" where [asm_defs]:
  "asm_slwi dst a b = asm_rlwinm dst a b 0 (31 - b)"

definition asm_srwi :: "Register \<Rightarrow> Register \<Rightarrow> c_int \<Rightarrow> 'a emitter" where [asm_defs]:
  "asm_srwi dst a b = asm_rlwinm dst a (32 - b) b 31"

definition asm_sub :: "Register \<Rightarrow> Register \<Rightarrow> Register \<Rightarrow> 'a emitter" where [asm_defs]:
  "asm_sub dst a b = asm_subf dst b a"

definition asm_subi :: "Register \<Rightarrow> Register \<Rightarrow> c_int \<Rightarrow> 'a emitter" where [asm_defs]:
  "asm_subi dst a b = asm_addi dst a (- b)"

text \<open>Standard mnemonics for 64-bit implementations only.\<close>

definition asm_cmpd :: "ConditionRegister \<Rightarrow> Register \<Rightarrow> Register \<Rightarrow> 'a emitter" where [asm_defs]:
  "asm_cmpd dst a b = asm_cmp dst True a b"

definition asm_cmpdi :: "ConditionRegister \<Rightarrow> Register \<Rightarrow> c_int \<Rightarrow> 'a emitter" where [asm_defs]:
  "asm_cmpdi dst a b = asm_cmpi dst True a b"

definition asm_sldi :: "Register \<Rightarrow> Register \<Rightarrow> c_int \<Rightarrow> 'a emitter" where [asm_defs]:
  "asm_sldi dst a b = asm_rldicr dst a b (63 - b)"

definition asm_srdi :: "Register \<Rightarrow> Register \<Rightarrow> c_int \<Rightarrow> 'a emitter" where [asm_defs]:
  "asm_srdi dst a b = asm_rldicl dst a (64 - b) b"

section \<open>Fixing up forward branches\<close>

text \<open>The word at an address of the code buffer, which must be one of those emitted.\<close>

definition code_index :: "'w::len word \<Rightarrow> 'w word asm \<Rightarrow> nat result" where
  "code_index a s =
     (let i = unat (a - asm_base s)
      in if i mod 4 = 0 \<and> i div 4 < length (asm_code s) then Inr (i div 4)
         else Inl UndefinedBehaviour)"

definition pd_patch_instruction :: "'w::len word \<Rightarrow> 'w word \<Rightarrow> 'w word emitter" where
  "pd_patch_instruction branch target s =
     bindR (code_index branch s) (\<lambda>i.
       let instruction = asm_code s ! i; opcode = drop_bit 26 instruction
       in asserting (instruction AND 2 = 0) ''must use relocations for absolute branches'' (\<lambda>s.
          if opcode = 16 then
            asserting (instruction AND 0xfffc = 0) ''should be zeroed'' (\<lambda>s.
              bindR (branch_target branch target 14) (\<lambda>d.
                Inr (s\<lparr>asm_code := (asm_code s)[i := instruction OR ucast (push_bit 2 d)]\<rparr>))) s
          else if opcode = 18 then
            asserting (instruction AND 0x3fffffc = 0) ''should be zeroed'' (\<lambda>s.
              bindR (branch_target branch target 24) (\<lambda>d.
                Inr (s\<lparr>asm_code := (asm_code s)[i := instruction OR ucast (push_bit 2 d)]\<rparr>))) s
          else Inl Unimplemented) s)"

text \<open>
  \<^verbatim>\<open>bind(l)\<close> binds a label to the current \<^verbatim>\<open>pc()\<close> and has \<^verbatim>\<open>pd_patch_instruction\<close> fix up each
  branch recorded with it. (\<^verbatim>\<open>AbstractAssembler::bind\<close> is shared code; its contract with
  \<^verbatim>\<open>pd_patch_instruction\<close> is what is stated here.)
\<close>

definition asm_bind :: "nat \<Rightarrow> 'w::len word emitter" where
  "asm_bind l s =
     (if length (asm_labels s) \<le> l then Inl UndefinedBehaviour
      else if is_bound l s then Inl (GuaranteeFailed ''attempt to redefine label'')
      else seqR (map (\<lambda>site. pd_patch_instruction site (pc s)) (patch_sites (asm_labels s ! l)))
        (s\<lparr>asm_labels := (asm_labels s)[l := \<lparr>bound_at = Some (pc s), patch_sites = []\<rparr>]\<rparr>))"

section \<open>What the emitters emit\<close>

lemma Register_encoding_valid [simp]:
  "unat n < 32 \<Longrightarrow> Register_encoding (as_Register n) = Inr n"
  by (simp add: Register_is_valid_iff)

lemma FloatRegister_encoding_valid [simp]:
  "unat n < 32 \<Longrightarrow> FloatRegister_encoding (as_FloatRegister n) = Inr n"
  by (simp add: FloatRegister_is_valid_iff)

declare Register_encoding.simps [simp del] FloatRegister_encoding.simps [simp del]

lemma fits5_small: "unat (n :: c_int) < 32 \<Longrightarrow> fits 5 n"
  by (simp add: fits_unat)

lemma emit_I_emits:
  "fits 6 opc \<Longrightarrow> fits 24 li \<Longrightarrow> emits (emit_I opc li aa lk) [I_form opc li aa lk]"
  by (simp add: emits_def emit_I_def fits_masks fits_masks_neg emit_long_def)

lemma emit_B_emits:
  "fits 6 opc \<Longrightarrow> fits 5 bo \<Longrightarrow> fits 5 bi \<Longrightarrow> fits 14 bd \<Longrightarrow>
    emits (emit_B opc bo bi bd aa lk) [B_form opc bo bi bd aa lk]"
  by (simp add: emits_def emit_B_def fits_masks fits_masks_neg emit_long_def)

lemma emit_X_emits:
  "fits 6 opc \<Longrightarrow> fits 5 a \<Longrightarrow> fits 5 b \<Longrightarrow> fits 5 c \<Longrightarrow> fits 10 xo \<Longrightarrow>
    emits (emit_X opc a b c xo rc) [X_form opc a b c xo rc]"
  by (simp add: emits_def emit_X_def fits_masks fits_masks_neg emit_long_def)

text \<open>
  The 16-bit immediate of a D-form instruction is what the assertions let through: a value
  between \<open>-65536\<close> and \<open>65535\<close>; its low 16 bits are emitted.
\<close>

lemma simm_and_not_mask:
  assumes "n < LENGTH('w)"
  shows "(c :: 'w::len word) AND NOT (mask n) = NOT (mask n) \<longleftrightarrow> (\<forall>i. n \<le> i \<and> i < LENGTH('w) \<longrightarrow> bit c i)"
proof -
  have "c AND NOT (mask n) = NOT (mask n) \<longleftrightarrow>
      (\<forall>i<LENGTH('w). bit (c AND NOT (mask n)) i = bit (NOT (mask n) :: 'w word) i)"
    by (metis bit_word_eqI)
  then show ?thesis by (auto simp: bit_simps)
qed

lemma emit_D_emits_pos:
  "fits 6 opc \<Longrightarrow> fits 5 a \<Longrightarrow> fits 5 b \<Longrightarrow> fits 16 c \<Longrightarrow>
    emits (emit_D opc a b c) [D_form opc a b c]"
  using sint_small [of c]
  by (simp add: emits_def emit_D_def fits_masks fits_masks_neg emit_long_def fits_unat)

lemma Address_displacement_fits [simp]: "fits 16 (Address_displacement a)"
  by (simp add: Address_displacement_def and_masks)

section \<open>Reading the fields back\<close>

lemma fits_of_bool_le: "0 < n \<Longrightarrow> fits n (of_bool b :: 'w::len word)"
  by (rule fits_mono [where m = 1]) simp_all

lemma fits_0 [simp]: "fits n (0 :: 'w::len word)"
  by (simp add: fits_iff_bit)

lemma I_form_fields:
  assumes "fits 6 opc" "fits 24 li"
  shows "fld 26 6 (I_form opc li aa lk) = opc" "fld 2 24 (I_form opc li aa lk) = li"
    "fld 1 1 (I_form opc li aa lk) = of_bool aa" "fld 0 1 (I_form opc li aa lk) = of_bool lk"
  using assms unfolding I_form_def
  by (simp_all add: fld_or fld_exact fld_exact0 fld_high fld_low [where j = 24] fld_low [where j = 1]
      fld_low0 [where j = 1] fits_of_bool_le del: One_nat_def)

lemma B_form_fields:
  assumes "fits 6 opc" "fits 5 bo" "fits 5 bi" "fits 14 bd"
  shows "fld 26 6 (B_form opc bo bi bd aa lk) = opc" "fld 21 5 (B_form opc bo bi bd aa lk) = bo"
    "fld 16 5 (B_form opc bo bi bd aa lk) = bi" "fld 2 14 (B_form opc bo bi bd aa lk) = bd"
    "fld 1 1 (B_form opc bo bi bd aa lk) = of_bool aa" "fld 0 1 (B_form opc bo bi bd aa lk) = of_bool lk"
  using assms unfolding B_form_def
  by (simp_all add: fld_or fld_exact fld_exact0 fld_high fld_low [where j = 5] fld_low [where j = 14]
      fld_low [where j = 1] fld_low0 [where j = 1] fits_of_bool_le del: One_nat_def)

lemma D_form_fields:
  assumes "fits 6 opc" "fits 5 a" "fits 5 b" "fits 16 c"
  shows "fld 26 6 (D_form opc a b c) = opc" "fld 21 5 (D_form opc a b c) = a"
    "fld 16 5 (D_form opc a b c) = b" "fld 0 16 (D_form opc a b c) = c"
  using assms unfolding D_form_def
  by (simp_all add: fld_or fld_exact fld_exact0 fld_high fld_low [where j = 5] fld_low0 [where j = 16])

lemma DS_form_fields:
  assumes "fits 6 opc" "fits 5 a" "fits 5 b" "fits 14 c" "fits 2 d"
  shows "fld 26 6 (DS_form opc a b c d) = opc" "fld 21 5 (DS_form opc a b c d) = a"
    "fld 16 5 (DS_form opc a b c d) = b" "fld 2 14 (DS_form opc a b c d) = c"
    "fld 0 2 (DS_form opc a b c d) = d"
  using assms unfolding DS_form_def
  by (simp_all add: fld_or fld_exact fld_exact0 fld_high fld_low [where j = 5] fld_low [where j = 14]
      fld_low0 [where j = 2])

lemma X_form_fields:
  assumes "fits 6 opc" "fits 5 a" "fits 5 b" "fits 5 c" "fits 10 xo"
  shows "fld 26 6 (X_form opc a b c xo rc) = opc" "fld 21 5 (X_form opc a b c xo rc) = a"
    "fld 16 5 (X_form opc a b c xo rc) = b" "fld 11 5 (X_form opc a b c xo rc) = c"
    "fld 1 10 (X_form opc a b c xo rc) = xo" "fld 0 1 (X_form opc a b c xo rc) = of_bool rc"
  using assms unfolding X_form_def
  by (simp_all add: fld_or fld_exact fld_exact0 fld_high fld_low [where j = 5] fld_low [where j = 10]
      fld_low0 [where j = 1] fits_of_bool_le del: One_nat_def)

lemma M_form_fields:
  assumes "fits 6 opc" "fits 5 a" "fits 5 b" "fits 5 c" "fits 5 d" "fits 5 e"
  shows "fld 26 6 (M_form opc a b c d e rc) = opc" "fld 21 5 (M_form opc a b c d e rc) = a"
    "fld 16 5 (M_form opc a b c d e rc) = b" "fld 11 5 (M_form opc a b c d e rc) = c"
    "fld 6 5 (M_form opc a b c d e rc) = d" "fld 1 5 (M_form opc a b c d e rc) = e"
    "fld 0 1 (M_form opc a b c d e rc) = of_bool rc"
  using assms unfolding M_form_def
  by (simp_all add: fld_or fld_exact fld_exact0 fld_high fld_low [where j = 5]
      fld_low0 [where j = 1] fits_of_bool_le del: One_nat_def)

end
