(* ===== verification/Branches.thy ===== *)
theory Branches
  imports Assembler
begin

text \<open>
  Branch displacements and forward branches. \<open>branch_target\<close> is characterised as a range check
  on the signed distance; the contract \<open>patchable_branch\<close> is what \<^verbatim>\<open>pd_patch_instruction\<close> and
  the branch emitters owe each other, and gives once and for all that a branch emitted before
  its label is bound ends up as the branch that would have been emitted had the label been
  bound already. Interpreted on \<open>asm_b\<close>, \<open>asm_bl\<close> and \<open>asm_bc\<close>.
\<close>

section \<open>Branch displacements\<close>

lemma sint_range_iff_bits:
  fixes w :: "'w::len word"
  assumes "k < LENGTH('w)"
  shows "- (2 ^ k) \<le> sint w \<and> sint w < 2 ^ k \<longleftrightarrow> (\<forall>i. k \<le> i \<and> i < LENGTH('w) \<longrightarrow> bit w i = bit w k)"
    (is "?l \<longleftrightarrow> ?r")
proof -
  have "?l \<longleftrightarrow> signed_take_bit k (sint w) = sint w"
    by (simp add: signed_take_bit_int_eq_self_iff)
  also have "\<dots> \<longleftrightarrow> (\<forall>i. bit (signed_take_bit k (sint w)) i = bit (sint w) i)"
    by (metis bit_eqI)
  also have "\<dots> \<longleftrightarrow> (\<forall>i. k \<le> i \<longrightarrow> bit (sint w) k = bit (sint w) i)"
    by (auto simp: bit_signed_take_bit_iff min_def)
  also have "\<dots> \<longleftrightarrow> ?r"
  proof
    assume l: "\<forall>i. k \<le> i \<longrightarrow> bit (sint w) k = bit (sint w) i"
    show ?r
    proof (intro allI impI)
      fix i assume i: "k \<le> i \<and> i < LENGTH('w)"
      then have "bit (sint w) k = bit (sint w) i" using l by blast
      moreover have "bit (sint w) i = bit w i" "bit (sint w) k = bit w k"
        using assms i by (simp_all add: bit_sint_iff)
      ultimately show "bit w i = bit w k" by blast
    qed
  next
    assume r: ?r
    show "\<forall>i. k \<le> i \<longrightarrow> bit (sint w) k = bit (sint w) i"
    proof (intro allI impI)
      fix i assume i: "k \<le> i"
      have top: "bit w (LENGTH('w) - Suc 0) = bit w k"
        by (rule r [rule_format]) (use assms in auto)
      have "bit (sint w) k = bit w k"
        using assms by (simp add: bit_sint_iff)
      moreover have "bit (sint w) i = bit w k"
      proof (cases "i < LENGTH('w)")
        case True
        then have "bit (sint w) i = bit w i" by (simp add: bit_sint_iff)
        moreover have "bit w i = bit w k" by (rule r [rule_format]) (use True i in simp)
        ultimately show ?thesis by simp
      next
        case False
        then have "bit (sint w) i = bit w (LENGTH('w) - Suc 0)"
          by (auto simp: bit_sint_iff dest: bit_imp_le_length)
        with top show ?thesis by simp
      qed
      ultimately show "bit (sint w) k = bit (sint w) i" by simp
    qed
  qed
  finally show ?thesis .
qed

lemma push_bit_1_minus_1: "push_bit n 1 - 1 = (mask n :: 'w::len word)"
  by (simp add: mask_eq_exp_minus_1 push_bit_eq_mult)

lemma and_bit_zero_iff: "x AND push_bit n 1 = (0 :: 'w::len word) \<longleftrightarrow> \<not> bit x n"
proof -
  have "x AND push_bit n 1 = 0 \<longleftrightarrow> (\<forall>i<LENGTH('w). \<not> bit (x AND push_bit n 1) i)"
    by (metis bit_0_eq bit_word_eqI bot_apply bot_bool_def)
  also have "\<dots> \<longleftrightarrow> \<not> bit x n"
    by (auto simp: bit_simps dest: bit_imp_le_length)
  finally show ?thesis .
qed

lemma and_not_mask_zero: "(c :: 'w::len word) AND NOT (mask n) = 0 \<longleftrightarrow> (\<forall>i. n \<le> i \<longrightarrow> \<not> bit c i)"
  unfolding fits_and_not_mask fits_iff_bit by (metis linorder_not_le)

lemma displacement_check:
  fixes x :: "'w::len word"
  assumes "0 < n" "n < LENGTH('w)"
  shows "(if x AND push_bit (n - 1) 1 \<noteq> 0
          then asserted (x AND NOT (push_bit n 1 - 1) = NOT (push_bit n 1 - 1)) m (Inr (x AND (push_bit n 1 - 1)))
          else asserted (x AND NOT (push_bit n 1 - 1) = 0) m (Inr x)) =
         asserted (- (2 ^ (n - 1)) \<le> sint x \<and> sint x < 2 ^ (n - 1)) m (Inr (take_bit n x))"
proof -
  have k: "n - 1 < LENGTH('w)" using assms by simp
  have split: "n - 1 \<le> i \<longleftrightarrow> i = n - 1 \<or> n \<le> i" for i
    using assms(1) by auto
  have neg: "x AND NOT (mask n) = NOT (mask n) \<longleftrightarrow> (\<forall>i. n - 1 \<le> i \<and> i < LENGTH('w) \<longrightarrow> bit x i = bit x (n - 1))"
    if "bit x (n - 1)"
    unfolding simm_and_not_mask [OF assms(2)] split using that by auto
  have pos: "x AND NOT (mask n) = 0 \<longleftrightarrow> (\<forall>i. n - 1 \<le> i \<and> i < LENGTH('w) \<longrightarrow> bit x i = bit x (n - 1))"
    if "\<not> bit x (n - 1)"
    unfolding and_not_mask_zero split using that by (auto dest: bit_imp_le_length)
  have tb: "take_bit n x = x" if "x AND NOT (mask n) = 0"
    using that by (simp add: fits_and_not_mask fits_def)
  show ?thesis
    unfolding push_bit_1_minus_1 and_bit_zero_iff sint_range_iff_bits [OF k, of x]
  proof (cases "bit x (n - 1)")
    case True
    then show "(if \<not> \<not> bit x (n - 1)
      then asserted (x AND NOT (mask n) = NOT (mask n)) m (Inr (x AND mask n))
      else asserted (x AND NOT (mask n) = 0) m (Inr x)) =
      asserted (\<forall>i. n - 1 \<le> i \<and> i < LENGTH('w) \<longrightarrow> bit x i = bit x (n - 1)) m (Inr (take_bit n x))"
      by (simp only: neg take_bit_eq_mask not_not if_True)
  next
    case False
    then show "(if \<not> \<not> bit x (n - 1)
      then asserted (x AND NOT (mask n) = NOT (mask n)) m (Inr (x AND mask n))
      else asserted (x AND NOT (mask n) = 0) m (Inr x)) =
      asserted (\<forall>i. n - 1 \<le> i \<and> i < LENGTH('w) \<longrightarrow> bit x i = bit x (n - 1)) m (Inr (take_bit n x))"
      unfolding pos [OF False, symmetric] using tb False by (auto simp: asserted_def)
  qed
qed

lemma low2_diff:
  fixes a b :: "'w::len word"
  assumes "a AND 3 = 0" "b AND 3 = 0"
  shows "take_bit 2 (a - b) = 0"
proof -
  have m: "x AND 3 = take_bit 2 x" for x :: "'w word"
    by (simp add: take_bit_eq_mask mask_eq_exp_minus_1)
  show ?thesis
    using assms unfolding m take_bit_eq_0_iff by (rule dvd_diff)
qed

lemma push_signed_drop:
  fixes x :: "'w::len word"
  assumes "take_bit 2 x = 0"
  shows "push_bit 2 (signed_drop_bit 2 x) = x"
proof (rule bit_word_eqI)
  fix i assume i: "i < LENGTH('w)"
  have low: "\<not> bit x j" if "j < 2" for j
    using assms that by (metis bit_0_eq bit_take_bit_iff bot_apply bot_bool_def)
  have "bit (signed_drop_bit 2 x) (i - 2) = bit x i" if "2 \<le> i"
  proof -
    from that obtain j where j: "i = 2 + j" using le_Suc_ex by blast
    with i show ?thesis by (auto simp: bit_signed_drop_bit_iff)
  qed
  with i low [of i] show "bit (push_bit 2 (signed_drop_bit 2 x)) i = bit x i"
    by (cases "2 \<le> i") (auto simp: bit_push_bit_iff not_le)
qed

lemma branch_target_eq:
  fixes branch target :: "'w::len word"
  assumes "0 < bits" "bits < LENGTH('w)"
  shows "branch_target branch target bits =
    asserted (branch AND 3 = 0) ''invalid address''
   (asserted (target AND 3 = 0) ''invalid address''
   (asserted (- (2 ^ (bits - 1)) \<le> sint (signed_drop_bit 2 (target - branch)) \<and>
              sint (signed_drop_bit 2 (target - branch)) < 2 ^ (bits - 1)) ''invalid displacement''
     (Inr (take_bit bits (signed_drop_bit 2 (target - branch))))))"
  unfolding branch_target_def Let_def displacement_check [OF assms] by simp

lemma branch_target_fits:
  fixes d :: "'w::len word"
  assumes "branch_target b t bits = Inr d" "0 < bits"
  shows "fits bits d"
proof (cases "bits < LENGTH('w)")
  case True
  with assms show ?thesis by (auto simp: branch_target_eq asserted_eq_Inr)
next
  case False
  then show ?thesis by (auto simp: fits_iff_bit dest: bit_imp_le_length)
qed

lemma branch_target_roundtrip_aux:
  fixes branch target :: "'w::len word"
  assumes "0 < bits" "bits < LENGTH('w)" and d: "branch_target branch target bits = Inr d"
  shows "branch + push_bit 2 (signed_take_bit (bits - 1) d) = target"
proof -
  let ?x = "signed_drop_bit 2 (target - branch)"
  have all: "branch AND 3 = 0 \<and> target AND 3 = 0 \<and>
      (- (2 ^ (bits - 1)) \<le> sint ?x \<and> sint ?x < 2 ^ (bits - 1)) \<and> Inr (take_bit bits ?x) = (Inr d :: error + 'w word)"
    using d unfolding branch_target_eq [OF assms(1,2)] asserted_eq_Inr by blast
  then have al: "branch AND 3 = 0" "target AND 3 = 0" by blast+
  from all have dd: "d = take_bit bits ?x" by blast
  from all have rng: "- (2 ^ (bits - 1)) \<le> sint ?x \<and> sint ?x < 2 ^ (bits - 1)" by blast
  have k: "bits - 1 < LENGTH('w)" using assms by simp
  from rng have ext: "\<And>i. bits - 1 \<le> i \<Longrightarrow> i < LENGTH('w) \<Longrightarrow> bit ?x i = bit ?x (bits - 1)"
    using sint_range_iff_bits [OF k, of ?x] by blast
  have "signed_take_bit (bits - 1) d = ?x"
  proof (rule bit_word_eqI)
    fix i assume i: "i < LENGTH('w)"
    show "bit (signed_take_bit (bits - 1) d) i = bit ?x i"
      using i assms ext [of i]
      by (cases "bits - 1 \<le> i") (auto simp: dd bit_signed_take_bit_iff bit_take_bit_iff min_def)
  qed
  then show ?thesis using push_signed_drop [OF low2_diff [OF al(2) al(1)]] by simp
qed


lemma fits_ucast: "fits n (d :: 'w::len word) \<Longrightarrow> fits n (ucast d :: 'v::len word)"
  by (auto simp: fits_iff_bit bit_simps)

lemma ucast_push_bit:
  fixes d :: "'w::len word"
  assumes "fits n d" "n + k \<le> LENGTH('w)"
  shows "(ucast (push_bit k d) :: 'v::len word) = push_bit k (ucast d)"
  using assms by (intro bit_word_eqI) (auto simp: fits_iff_bit bit_simps)

lemma branch_target_self:
  assumes "a AND 3 = 0" "0 < bits" "bits < LENGTH('w)"
  shows "branch_target a (a :: 'w::len word) bits = Inr 0"
  using assms by (simp add: branch_target_eq)

section \<open>Forward branches\<close>

definition emit_words :: "c_int list \<Rightarrow> 'a emitter" where
  "emit_words ws = seqR (map emit_long ws)"

lemma emits_emit_words: "emits (emit_words ws) ws"
  using emits_seq_map [of ws emit_long "\<lambda>w. [w]"] by (simp add: emit_words_def)

lemma code_index_pc:
  fixes s :: "'w::len word asm"
  assumes "asm_code s' = asm_code s @ w # ws" "asm_base s' = asm_base s" "offset s < 2 ^ LENGTH('w)"
  shows "code_index (pc s) s' = Inr (length (asm_code s))"
proof -
  have "unat (pc s - asm_base s') = offset s"
    using assms by (simp add: pc_def unat_of_nat take_bit_eq_mod)
  then show ?thesis using assms by (simp add: code_index_def Let_def offset_def)
qed

locale patchable_branch =
  fixes direct :: "'w::len word \<Rightarrow> 'w word emitter" and ok :: bool
    and base_word :: c_int and bits :: nat
  assumes direct_eq: "direct t s = bindR (branch_target (pc s) t bits)
      (\<lambda>d. asserting ok ''invalid operand'' (emit_long (base_word OR push_bit 2 (ucast d))) s)"
    and form: "ok \<Longrightarrow> bits = 14 \<and> drop_bit 26 base_word = 16 \<and> base_word AND 0xfffc = 0 \<or>
      bits = 24 \<and> drop_bit 26 base_word = 18 \<and> base_word AND 0x3fffffc = 0"
    and relative: "ok \<Longrightarrow> base_word AND 2 = 0"
begin

lemma placeholder:
  assumes "ok" "pc s AND 3 = 0" "32 \<le> LENGTH('w)"
  shows "direct (pc s) s = Inr (s\<lparr>asm_code := asm_code s @ [base_word]\<rparr>)"
  using assms form by (auto simp: direct_eq branch_target_self emit_long_def)

lemma patch:
  fixes a t :: "'w word" and s :: "'w word asm"
  assumes "ok" "32 \<le> LENGTH('w)" "code_index a s = Inr i" "asm_code s ! i = base_word"
  shows "pd_patch_instruction a t s = bindR (branch_target a t bits)
    (\<lambda>d. Inr (s\<lparr>asm_code := (asm_code s)[i := base_word OR push_bit 2 (ucast d)]\<rparr>))"
proof -
  have *: "(ucast (push_bit 2 d) :: c_int) = push_bit 2 (ucast d)"
    if "branch_target a t bits = Inr d" for d
    using branch_target_fits [OF that] form [OF assms(1)] assms(2)
    by (intro ucast_push_bit [where n = bits]) auto
  show ?thesis
    using assms form [OF assms(1)] relative [OF assms(1)] *
    by (cases "branch_target a t bits") (auto simp: pd_patch_instruction_def Let_def)
qed

lemma forward:
  fixes s :: "'w word asm" and ws :: "c_int list"
  defines "t \<equiv> pc s + word_of_nat (4 * Suc (length ws))"
  assumes "ok" "32 \<le> LENGTH('w)" "pc s AND 3 = 0" "offset s < 2 ^ LENGTH('w)"
    and l: "l < length (asm_labels s)" "asm_labels s ! l = \<lparr>bound_at = None, patch_sites = []\<rparr>"
  shows "seqR [branch_to_label l direct, emit_words ws, asm_bind l] s =
    bindR (direct t s) (\<lambda>s'. Inr (s'\<lparr>asm_code := asm_code s' @ ws,
      asm_labels := (asm_labels s)[l := \<lparr>bound_at = Some t, patch_sites = []\<rparr>]\<rparr>))"
proof -
  define s1 where "s1 = add_patch_at l (pc s) s"
  have pc1: "pc s1 = pc s" by (simp add: s1_def add_patch_at_def pc_def offset_def)
  have b: "branch_to_label l direct s = Inr (s1\<lparr>asm_code := asm_code s @ [base_word]\<rparr>)"
    using placeholder [of s1] assms pc1
    by (simp add: branch_to_label_def s1_def add_patch_at_def)
  define s2 where "s2 = s1\<lparr>asm_code := asm_code s @ base_word # ws\<rparr>"
  have w: "emit_words ws (s1\<lparr>asm_code := asm_code s @ [base_word]\<rparr>) = Inr s2"
    by (simp add: emitsD [OF emits_emit_words] s2_def)
  have pc2: "pc s2 = t" by (simp add: s2_def s1_def add_patch_at_def pc_def offset_def t_def)
  define s3 where "s3 = s2\<lparr>asm_labels := (asm_labels s2)[l := \<lparr>bound_at = Some t, patch_sites = []\<rparr>]\<rparr>"
  have ci: "code_index (pc s) s3 = Inr (length (asm_code s))"
    by (rule code_index_pc) (use assms in \<open>simp_all add: s3_def s2_def s1_def add_patch_at_def\<close>)
  have p: "pd_patch_instruction (pc s) t s3 = bindR (branch_target (pc s) t bits)
    (\<lambda>d. Inr (s3\<lparr>asm_code := (asm_code s3)[length (asm_code s) := base_word OR push_bit 2 (ucast d)]\<rparr>))"
    by (rule patch) (use assms ci in \<open>simp_all add: s3_def s2_def\<close>)
  have lab: "asm_labels s2 ! l = \<lparr>bound_at = None, patch_sites = [pc s]\<rparr>" "l < length (asm_labels s2)"
    using l by (simp_all add: s2_def s1_def add_patch_at_def)
  then have "asm_bind l s2 = pd_patch_instruction (pc s) t s3"
    by (simp add: asm_bind_def pc2 is_bound_def s3_def)
  then show ?thesis
    using b w p assms(2)
    by (cases "branch_target (pc s) t bits")
       (simp_all add: direct_eq emit_long_def s3_def s2_def s1_def add_patch_at_def)
qed

end

lemma I_form_18:
  "drop_bit 26 (I_form 18 0 False lk) = 18"
  "I_form 18 0 False lk AND 0x3fffffc = 0"
  "I_form 18 0 False lk AND 2 = 0"
  by (cases lk; simp add: I_form_def)+

lemma B_form_16:
  assumes "fits 5 bo" "fits 5 bi"
  shows "drop_bit 26 (B_form 16 bo bi 0 False lk) = 16"
    "B_form 16 bo bi 0 False lk AND 0xfffc = 0"
    "B_form 16 bo bi 0 False lk AND 2 = 0"
proof -
  let ?w = "B_form 16 bo bi 0 False lk"
  have f: "fits 6 (16 :: c_int)" by (simp add: fits_unat)
  have "fld 26 6 ?w = 16" "fld 2 14 ?w = 0" "fld 1 1 ?w = 0"
    using B_form_fields [OF f assms fits_0, of False lk] by simp_all
  then show "drop_bit 26 ?w = 16" "?w AND 0xfffc = 0" "?w AND 2 = 0"
    using and_field [of ?w 2 14] and_field [of ?w 1 1]
    by (simp_all add: drop_bit_eq_fld [where n = 6] mask_eq_exp_minus_1)
qed

lemma I_form_split: "I_form opc li aa lk = I_form opc 0 aa lk OR push_bit 2 li"
  by (simp add: I_form_def or.assoc or.commute or.left_commute)

lemma B_form_split: "B_form opc bo bi bd aa lk = B_form opc bo bi 0 aa lk OR push_bit 2 bd"
  by (simp add: B_form_def or.assoc or.commute or.left_commute)

interpretation b_branch: patchable_branch asm_b True "I_form 18 0 False False" 24
proof
  fix t :: "'a word" and s :: "'a word asm"
  show "asm_b t s = bindR (branch_target (pc s) t 24)
      (\<lambda>d. asserting True ''invalid operand''
        (emit_long (I_form 18 0 False False OR push_bit 2 (ucast d))) s)"
    using branch_target_fits [of "pc s" t 24, THEN fits_ucast, where 'v = 32]
    by (cases "branch_target (pc s) t 24")
       (simp_all add: asm_b_def asm_bl_def emit_I_def fits_masks fits_masks_neg
         I_form_split [where li = "ucast d" for d])
qed (simp_all add: I_form_18)

interpretation bl_branch: patchable_branch asm_bl True "I_form 18 0 False True" 24
proof
  fix t :: "'a word" and s :: "'a word asm"
  show "asm_bl t s = bindR (branch_target (pc s) t 24)
      (\<lambda>d. asserting True ''invalid operand''
        (emit_long (I_form 18 0 False True OR push_bit 2 (ucast d))) s)"
    using branch_target_fits [of "pc s" t 24, THEN fits_ucast, where 'v = 32]
    by (cases "branch_target (pc s) t 24")
       (simp_all add: asm_b_def asm_bl_def emit_I_def fits_masks fits_masks_neg
         I_form_split [where li = "ucast d" for d])
qed (simp_all add: I_form_18)

interpretation bc_branch: patchable_branch "asm_bc bo bi" "fits 5 bo \<and> fits 5 bi"
  "B_form 16 bo bi 0 False False" 14 for bo bi
proof
  fix t :: "'a word" and s :: "'a word asm"
  show "asm_bc bo bi t s = bindR (branch_target (pc s) t 14)
      (\<lambda>d. asserting (fits 5 bo \<and> fits 5 bi) ''invalid operand''
        (emit_long (B_form 16 bo bi 0 False False OR push_bit 2 (ucast d))) s)"
    using branch_target_fits [of "pc s" t 14, THEN fits_ucast, where 'v = 32]
    by (cases "branch_target (pc s) t 14")
       (simp_all add: asm_bc_def emit_B_def asserting_def fits_masks fits_masks_neg
         B_form_split [where bd = "ucast d" for d])
qed (auto simp: B_form_16)





end
