(* ===== verification/Macros.thy ===== *)
theory Macros
  imports Branches
begin

text \<open>
  The part of the class \<^verbatim>\<open>MacroAssembler\<close> (\<^verbatim>\<open>assembler_CPU.cpp\<close>) that does not need a stack
  frame: padding, non-standard mnemonics, the operations that differ between the 32-bit and
  the 64-bit flavour, constants, calls and the compare-and-exchange sequence. A member
  \<^verbatim>\<open>MacroAssembler::foo\<close> is \<open>masm_foo\<close>.
\<close>

section \<open>Padding\<close>

lemma bindR_cong [fundef_cong]:
  "m = n \<Longrightarrow> (\<And>a. n = Inr a \<Longrightarrow> k a = k' a) \<Longrightarrow> bindR m k = bindR n k'"
  by (cases n) simp_all

lemma emits_nop: "emits asm_nop [0x60000000]"
  by (simp add: asm_nop_def asm_ori_def emit_D_RRi_def reg_defs emits_def emit_D_def emit_long_def
      D_form_def)

lemma offset_nop: "asm_nop s = Inr s' \<Longrightarrow> offset s' = offset s + 4"
  by (auto simp: emitsD [OF emits_nop])

lemma padding_exists:
  assumes "0 < m"
  shows "\<exists>k. (offset s + 4 * k) mod m = 0"
proof -
  obtain q where q: "offset s = 4 * q" by (simp add: offset_def)
  have "(offset s + 4 * (q * (m - 1))) mod m = (4 * q * m) mod m"
    using assms by (cases m) (simp_all add: q algebra_simps)
  then show ?thesis by (metis mod_mult_self2_is_0)
qed

lemma Least_padding_Suc:
  fixes m n :: nat
  assumes "n mod m \<noteq> 0" "\<exists>k. (n + 4 * k) mod m = 0"
  shows "(LEAST k. (n + 4 + 4 * k) mod m = 0) < (LEAST k. (n + 4 * k) mod m = 0)"
proof -
  let ?P = "\<lambda>k. (n + 4 * k) mod m = 0"
  have p: "?P (LEAST k. ?P k)" using assms(2) by (rule LeastI_ex)
  with assms(1) obtain j where j: "(LEAST k. ?P k) = Suc j"
    by (metis add_0_right mult_0_right not0_implies_Suc)
  with p have "(n + 4 + 4 * j) mod m = 0" by (simp add: algebra_simps)
  then have "(LEAST k. (n + 4 + 4 * k) mod m = 0) \<le> j" by (rule Least_le)
  with j show ?thesis by simp
qed

text \<open>
  \<^verbatim>\<open>while (offset() % modulus != 0) nop();\<close> A remainder by zero is undefined.
\<close>

function masm_align_loop :: "nat \<Rightarrow> 'a emitter" where
  "masm_align_loop modulus s =
     (if modulus = 0 then Inl UndefinedBehaviour
      else if offset s mod modulus \<noteq> 0 then bindR (asm_nop s) (masm_align_loop modulus)
      else Inr s)"
  by pat_completeness auto
termination
proof (relation "measure (\<lambda>(m, s). LEAST k. (offset s + 4 * k) mod m = 0)")
  fix m :: nat and s s' :: "'a asm"
  assume "m \<noteq> 0" "offset s mod m \<noteq> 0" "asm_nop s = Inr s'"
  with Least_padding_Suc [of "offset s" m] padding_exists [of m s] offset_nop [of s s']
  show "((m, s'), m, s) \<in> measure (\<lambda>(m, s). LEAST k. (offset s + 4 * k) mod m = 0)"
    by simp
qed simp

declare masm_align_loop.simps [simp del]

definition masm_align :: "nat \<Rightarrow> 'a emitter" where
  "masm_align modulus s =
     (if modulus = 0 then Inl UndefinedBehaviour
      else asserted ((word_of_nat (offset s mod modulus) :: c_int) AND 3 = 0) ''invalid alignment''
        (masm_align_loop modulus s))"

section \<open>Non-standard mnemonics\<close>

definition masm_lbax :: "Register \<Rightarrow> Register \<Rightarrow> Register \<Rightarrow> 'a emitter" where
  "masm_lbax dst a b = seqR [asm_lbzx dst a b, asm_extsb dst dst]"

definition masm_lhax :: "Register \<Rightarrow> Register \<Rightarrow> Register \<Rightarrow> 'a emitter" where
  "masm_lhax dst a b = seqR [asm_lhzx dst a b, asm_extsh dst dst]"

definition masm_lwa :: "arch \<Rightarrow> Register \<Rightarrow> Address result \<Rightarrow> 'a emitter" where
  "masm_lwa arch dst src = seqR [asm_lwz dst src, whenR (arch = PPC64) [asm_extsw dst dst]]"

definition masm_lwax :: "arch \<Rightarrow> Register \<Rightarrow> Register \<Rightarrow> Register \<Rightarrow> 'a emitter" where
  "masm_lwax arch dst a b = seqR [asm_lwzx dst a b, whenR (arch = PPC64) [asm_extsw dst dst]]"

definition masm_mpclr :: "'w::len word emitter" where
  "masm_mpclr s = asm_bcl 20 31 (pc s + 4) s"

section \<open>Operations which are different on PPC32 and PPC64\<close>

definition masm_compare_cr_i ::
  "arch \<Rightarrow> ConditionRegister \<Rightarrow> Register \<Rightarrow> c_int \<Rightarrow> 'a emitter" where
  "masm_compare_cr_i arch dst a b =
     (case arch of PPC32 \<Rightarrow> asm_cmpwi dst a b | PPC64 \<Rightarrow> asm_cmpdi dst a b)"

definition masm_compare_cr ::
  "arch \<Rightarrow> ConditionRegister \<Rightarrow> Register \<Rightarrow> Register \<Rightarrow> 'a emitter" where
  "masm_compare_cr arch dst a b =
     (case arch of PPC32 \<Rightarrow> asm_cmpw dst a b | PPC64 \<Rightarrow> asm_cmpd dst a b)"

definition masm_compare_i :: "arch \<Rightarrow> Register \<Rightarrow> c_int \<Rightarrow> 'a emitter" where
  "masm_compare_i arch a b = masm_compare_cr_i arch cr0 a b"

definition masm_compare :: "arch \<Rightarrow> Register \<Rightarrow> Register \<Rightarrow> 'a emitter" where
  "masm_compare arch a b = masm_compare_cr arch cr0 a b"

text \<open>
  \<^verbatim>\<open>load(Register, long)\<close>: the constant is cut into 16-bit pieces. A \<^verbatim>\<open>long\<close> has the
  machine's width.
\<close>

definition masm_load_32 :: "Register \<Rightarrow> 32 word \<Rightarrow> 'a emitter" where
  "masm_load_32 dst value =
     (let a = signed_drop_bit 16 value; b = value AND 0xffff
      in if a \<noteq> 0
         then seqR [asm_lis dst a, whenR (b \<noteq> 0) [asm_ori dst dst b]]
         else asm_li dst b)"

definition masm_load_64 :: "Register \<Rightarrow> 64 word \<Rightarrow> 'a emitter" where
  "masm_load_64 dst value =
     (let a = ucast (signed_drop_bit 48 value) :: c_int;
          b = ucast (signed_drop_bit 32 value) AND 0xffff :: c_int;
          c = ucast (signed_drop_bit 16 value) AND 0xffff :: c_int;
          d = ucast value AND 0xffff :: c_int;
          ab = (a \<noteq> 0 \<or> b \<noteq> 0)
      in seqR [
           if a \<noteq> 0 then seqR [asm_lis dst a, whenR (b \<noteq> 0) [asm_ori dst dst b]]
           else whenR (b \<noteq> 0) [asm_li dst b],
           whenR ab [asm_sldi dst dst 32],
           if c \<noteq> 0
           then seqR [if ab then asm_oris dst dst c else asm_lis dst c,
                      whenR (d \<noteq> 0) [asm_ori dst dst d]]
           else whenR (d \<noteq> 0 \<or> \<not> ab)
                  [if ab then asm_ori dst dst d else asm_li dst d]])"

definition masm_load :: "arch \<Rightarrow> Register \<Rightarrow> int \<Rightarrow> 'a emitter" where
  "masm_load arch dst value =
     (case arch of
        PPC32 \<Rightarrow> masm_load_32 dst (word_of_int value)
      | PPC64 \<Rightarrow> masm_load_64 dst (word_of_int value))"

definition masm_load_A :: "arch \<Rightarrow> Register \<Rightarrow> Address result \<Rightarrow> 'a emitter" where
  "masm_load_A arch dst src = (case arch of PPC32 \<Rightarrow> asm_lwz dst src | PPC64 \<Rightarrow> asm_ld dst src)"

definition masm_load_and_reserve_indexed ::
  "arch \<Rightarrow> Register \<Rightarrow> Register \<Rightarrow> Register \<Rightarrow> 'a emitter" where
  "masm_load_and_reserve_indexed arch dst a b =
     (case arch of PPC32 \<Rightarrow> asm_lwarx dst a b | PPC64 \<Rightarrow> asm_ldarx dst a b)"

definition masm_load_indexed ::
  "arch \<Rightarrow> Register \<Rightarrow> Register \<Rightarrow> Register \<Rightarrow> 'a emitter" where
  "masm_load_indexed arch dst a b =
     (case arch of PPC32 \<Rightarrow> asm_lwzx dst a b | PPC64 \<Rightarrow> asm_ldx dst a b)"

definition masm_shift_left :: "arch \<Rightarrow> Register \<Rightarrow> Register \<Rightarrow> c_int \<Rightarrow> 'a emitter" where
  "masm_shift_left arch dst a b =
     (case arch of PPC32 \<Rightarrow> asm_slwi dst a b | PPC64 \<Rightarrow> asm_sldi dst a b)"

definition masm_shift_right :: "arch \<Rightarrow> Register \<Rightarrow> Register \<Rightarrow> c_int \<Rightarrow> 'a emitter" where
  "masm_shift_right arch dst a b =
     (case arch of PPC32 \<Rightarrow> asm_srwi dst a b | PPC64 \<Rightarrow> asm_srdi dst a b)"

definition masm_store :: "arch \<Rightarrow> Register \<Rightarrow> Address result \<Rightarrow> 'a emitter" where
  "masm_store arch src dst = (case arch of PPC32 \<Rightarrow> asm_stw src dst | PPC64 \<Rightarrow> asm_std src dst)"

definition masm_store_conditional_indexed ::
  "arch \<Rightarrow> Register \<Rightarrow> Register \<Rightarrow> Register \<Rightarrow> 'a emitter" where
  "masm_store_conditional_indexed arch src a b =
     (case arch of PPC32 \<Rightarrow> asm_stwcx_rc src a b | PPC64 \<Rightarrow> asm_stdcx_rc src a b)"

definition masm_store_indexed ::
  "arch \<Rightarrow> Register \<Rightarrow> Register \<Rightarrow> Register \<Rightarrow> 'a emitter" where
  "masm_store_indexed arch src a b =
     (case arch of PPC32 \<Rightarrow> asm_stwx src a b | PPC64 \<Rightarrow> asm_stdx src a b)"

definition masm_store_update :: "arch \<Rightarrow> Register \<Rightarrow> Address result \<Rightarrow> 'a emitter" where
  "masm_store_update arch src dst =
     (case arch of PPC32 \<Rightarrow> asm_stwu src dst | PPC64 \<Rightarrow> asm_stdu src dst)"

definition masm_store_update_indexed ::
  "arch \<Rightarrow> Register \<Rightarrow> Register \<Rightarrow> Register \<Rightarrow> 'a emitter" where
  "masm_store_update_indexed arch src a b =
     (case arch of PPC32 \<Rightarrow> asm_stwux src a b | PPC64 \<Rightarrow> asm_stdux src a b)"

section \<open>Calls and entry points\<close>

definition masm_call_reg :: "arch \<Rightarrow> Register \<Rightarrow> 'a emitter" where
  "masm_call_reg arch func = seqR (case arch of
     PPC32 \<Rightarrow> [asm_mtctr func, asm_bctrl]
   | PPC64 \<Rightarrow> [asm_std r2 (mk_Address r1 40),
       asm_ld r2 (mk_Address func 8),
       asm_ld r0 (mk_Address func 0),
       asm_mtctr r0,
       asm_bctrl,
       asm_ld r2 (mk_Address r1 40)])"

definition masm_call :: "arch \<Rightarrow> 'w::len word \<Rightarrow> 'a emitter" where
  "masm_call arch func =
     asserting (func AND 3 = 0) ''invalid address''
    (let reg = (case arch of PPC32 \<Rightarrow> r0 | PPC64 \<Rightarrow> r12)
     in seqR [masm_load arch reg (sint func), masm_call_reg arch reg])"

text \<open>
  \<^verbatim>\<open>enter()\<close> returns the current \<^verbatim>\<open>pc()\<close>; on PPC64 it emits a function descriptor there, two
  64-bit addresses in the big-endian order of the machine.
\<close>

definition emit_address_64 :: "64 word \<Rightarrow> 'a emitter" where
  "emit_address_64 a = seqR [emit_long (ucast (drop_bit 32 a)), emit_long (ucast a)]"

definition masm_enter :: "arch \<Rightarrow> 'w::len word emitter" where
  "masm_enter arch s = (case arch of
     PPC32 \<Rightarrow> Inr s
   | PPC64 \<Rightarrow> seqR [emit_address_64 (ucast (pc s + 16)), emit_address_64 0] s)"

section \<open>Atomic compare and exchange\<close>

definition masm_cmpxchg :: "arch \<Rightarrow> Register \<Rightarrow> Register \<Rightarrow> Register \<Rightarrow> 'w::len word emitter" where
  "masm_cmpxchg arch exchange dst compare =
     asserting (distinct [exchange, dst, compare, r0]) ''registers must be different''
    (with_label (\<lambda>loop. with_label (\<lambda>done.
       seqR [
         asm_sync,
         asm_bind loop,
         masm_load_and_reserve_indexed arch r0 (as_Register 0) dst,
         masm_compare arch r0 compare,
         asm_bne done,
         masm_store_conditional_indexed arch exchange (as_Register 0) dst,
         asm_bne loop,
         asm_isync,
         asm_bind done])))"

end
