(* ===== verification/Disassembler.thy ===== *)
theory Disassembler
  imports Macros
begin

text \<open>
  The disassembler (\<^verbatim>\<open>disassembler_CPU.cpp\<close>): a parser that reads an instruction field by
  field, one printer per shape of instruction, the table that maps opcodes to mnemonics and
  printers, and the routines that print one instruction and a range of code. What is written
  to the output stream is a string; output that precedes a stop of the program is lost with
  it. How \<^verbatim>\<open>%p\<close> writes an address is up to the C library: the argument \<open>fmt_p\<close>.
\<close>

section \<open>Formatting\<close>

text \<open>\<^verbatim>\<open>%d\<close> and \<^verbatim>\<open>%0<n>x\<close>.\<close>

fun fmt_nat :: "nat \<Rightarrow> string" where
  "fmt_nat n = (if n < 10 then [char_of (48 + n)] else fmt_nat (n div 10) @ [char_of (48 + n mod 10)])"

declare fmt_nat.simps [simp del]

definition fmt_d :: "c_int \<Rightarrow> string" where
  "fmt_d x = (if sint x < 0 then ''-'' @ fmt_nat (nat (- sint x)) else fmt_nat (nat (sint x)))"

definition hex_digit :: "nat \<Rightarrow> char" where
  "hex_digit n = (if n < 10 then char_of (48 + n) else char_of (87 + n))"

fun fmt_hex :: "nat \<Rightarrow> nat \<Rightarrow> string" where
  "fmt_hex 0 n = ''''"
| "fmt_hex (Suc k) n = fmt_hex k (n div 16) @ [hex_digit (n mod 16)]"

fun fmt_lx :: "nat \<Rightarrow> string" where
  "fmt_lx n = (if n < 16 then [hex_digit n] else fmt_lx (n div 16) @ [hex_digit (n mod 16)])"

declare fmt_lx.simps [simp del]

section \<open>The parser\<close>

record 'a InstructionParser =
  ip_addr :: 'a
  ip_instruction :: c_int
  ip_bits :: int

definition mk_InstructionParser :: "'a \<Rightarrow> c_int \<Rightarrow> 'a InstructionParser" where
  "mk_InstructionParser addr word = \<lparr>ip_addr = addr, ip_instruction = word, ip_bits = 26\<rparr>"

definition ip_opcode :: "'a InstructionParser \<Rightarrow> c_int" where
  "ip_opcode p = c_shr (ip_instruction p) 26 AND 0x3f"

definition ip_extended_opcode :: "'a InstructionParser \<Rightarrow> c_int" where
  "ip_extended_opcode p =
     (if ip_opcode p = 19 \<or> ip_opcode p = 31 \<or> ip_opcode p = 63 then c_shr (ip_instruction p) 1 AND 0x3ff
      else if ip_opcode p = 30 then c_shr (ip_instruction p) 2 AND 7
      else if ip_opcode p = 58 \<or> ip_opcode p = 62 then ip_instruction p AND 3
      else - 1)"

text \<open>A read passes the field and the parser on to what follows.\<close>

definition ip_read :: "nat \<Rightarrow> (c_int \<Rightarrow> 'a InstructionParser \<Rightarrow> 'b result) \<Rightarrow> 'a InstructionParser \<Rightarrow> 'b result" where
  "ip_read nbits k p =
     (let bits = ip_bits p - int nbits
      in asserted (0 \<le> bits) ''oops''
           (k (c_shr (ip_instruction p) (nat bits) AND (push_bit nbits 1 - 1)) (p\<lparr>ip_bits := bits\<rparr>)))"

definition ip_read_signed :: "nat \<Rightarrow> (c_int \<Rightarrow> 'a InstructionParser \<Rightarrow> 'b result) \<Rightarrow> 'a InstructionParser \<Rightarrow> 'b result" where
  "ip_read_signed nbits k =
     ip_read nbits (\<lambda>v. k (if v AND push_bit (nbits - 1) 1 \<noteq> 0 then v OR NOT (push_bit nbits 1 - 1) else v))"

definition ip_read_reg :: "(c_int \<Rightarrow> 'a InstructionParser \<Rightarrow> 'b result) \<Rightarrow> 'a InstructionParser \<Rightarrow> 'b result" where
  "ip_read_reg = ip_read 5"

definition ip_read_xo :: "(c_int \<Rightarrow> 'a InstructionParser \<Rightarrow> 'b result) \<Rightarrow> 'a InstructionParser \<Rightarrow> 'b result" where
  "ip_read_xo k = ip_read 10 (\<lambda>xo p. asserted (xo = ip_extended_opcode p) ''should be'' (k xo p))"

section \<open>Instruction definitions\<close>

datatype printer_t =
    print_B_bc | print_I_b | print_D_reg_reg_simm | print_D_reg_reg_uimm | print_D_reg_addr
  | print_D_freg_addr | print_DS_reg_addr | print_X_bcspr | print_M | print_MD
  | print_X_reg_reg_reg | print_X_reg_regorzero_reg | print_X_res_regorzero_reg
  | print_X_reg_reg_res | print_X_reg_res_res | print_X_switched_regreg_reg
  | print_X_switched_regreg | print_X_reserved | print_X_cmp | print_D_cmpi | print_X_mspr
  | print_X_mtcrf | print_X_freg_res_freg

record InstructionDefinition =
  def_opcode :: c_int
  def_extended_opcode :: c_int
  def_mnemonic :: string
  def_printer :: printer_t

definition def_plain :: "c_int \<Rightarrow> string \<Rightarrow> printer_t \<Rightarrow> InstructionDefinition" where
  "def_plain opcode mn p =
     \<lparr>def_opcode = opcode, def_extended_opcode = - 1, def_mnemonic = mn, def_printer = p\<rparr>"

definition def_xo :: "c_int \<Rightarrow> c_int \<Rightarrow> string \<Rightarrow> printer_t \<Rightarrow> InstructionDefinition" where
  "def_xo opcode xo mn p =
     \<lparr>def_opcode = opcode, def_extended_opcode = xo, def_mnemonic = mn, def_printer = p\<rparr>"

section \<open>Printers\<close>

definition branch_condition :: "c_int \<Rightarrow> c_int \<Rightarrow> string result" where
  "branch_condition BO BI =
     (let CONDITION = (\<lambda>bo bi :: c_int. push_bit 2 bo OR (bi AND 3)); c = CONDITION BO BI
      in if c = CONDITION 12 0 then Inr ''lt''
         else if c = CONDITION 4 1 then Inr ''le''
         else if c = CONDITION 12 2 then Inr ''eq''
         else if c = CONDITION 4 0 then Inr ''ge''
         else if c = CONDITION 12 1 then Inr ''gt''
         else if c = CONDITION 4 2 then Inr ''ne''
         else if c = CONDITION 16 0 then Inr ''dnz''
         else if c = CONDITION 20 0 then Inr ''''
         else Inl ShouldNotReachHere)"

definition dot :: "c_int \<Rightarrow> string" where
  "dot Rc = (if Rc \<noteq> 0 then ''.'' else '''')"

text \<open>\<^verbatim>\<open>%s%d\<close> with \<^verbatim>\<open>RA ? "r" : "", RA\<close>: the operand that means zero when it is \<open>r0\<close>.\<close>

definition reg_or_zero :: "c_int \<Rightarrow> string" where
  "reg_or_zero RA = (if RA \<noteq> 0 then ''r'' else '''') @ fmt_d RA"

type_synonym 'a printer = "InstructionDefinition \<Rightarrow> 'a InstructionParser \<Rightarrow> string result"

definition do_print_B_bc :: "('w::len word \<Rightarrow> string) \<Rightarrow> 'w word printer" where
  "do_print_B_bc fmt_p d p =
     asserted (ip_opcode p = 16) ''should be''
    (ip_read 5 (\<lambda>BO. ip_read 5 (\<lambda>BI. ip_read_signed 14 (\<lambda>BD. ip_read 1 (\<lambda>AA. ip_read 1 (\<lambda>LK p.
       if BO = 20 then
         if BI = 31 \<and> BD = 1 \<and> AA = 0 \<and> LK = 1 then Inr ''mpclr''
         else Inl ShouldNotReachHere
       else
         bindR (branch_condition BO BI) (\<lambda>cond.
           let cr = c_shr BI 2; tgt = ip_addr p + scast (push_bit 2 BD);
               b = ''b'' @ cond @ (if LK \<noteq> 0 then ''l'' else '''') @ (if AA \<noteq> 0 then ''a'' else '''')
           in Inr (if cr \<noteq> 0 then b @ '' cr'' @ fmt_d cr @ '', '' @ fmt_p tgt
                   else b @ '' '' @ fmt_p tgt))))))) p)"

definition do_print_I_b :: "('w::len word \<Rightarrow> string) \<Rightarrow> 'w word printer" where
  "do_print_I_b fmt_p d p =
     asserted (ip_opcode p = 18) ''should be''
    (ip_read_signed 24 (\<lambda>LI. ip_read 1 (\<lambda>AA. ip_read 1 (\<lambda>LK p.
       let tgt = ip_addr p + scast (push_bit 2 LI)
       in Inr (''b'' @ (if LK \<noteq> 0 then ''l'' else '''') @ (if AA \<noteq> 0 then ''a'' else '''') @ '' '' @ fmt_p tgt)))) p)"

definition do_print_D_reg_reg_simm :: "'a printer" where
  "do_print_D_reg_reg_simm d =
     ip_read_reg (\<lambda>RT. ip_read_reg (\<lambda>RA. ip_read_signed 16 (\<lambda>SI p.
       if RA = 0 \<and> ip_opcode p = 14 then Inr (''li r'' @ fmt_d RT @ '', '' @ fmt_d SI)
       else if RA = 0 \<and> ip_opcode p = 15 then Inr (''lis r'' @ fmt_d RT @ '', '' @ fmt_d SI)
       else
         let sub = (ip_opcode p = 14 \<and> sint SI < 0);
             mnemonic = (if sub then ''subi'' else def_mnemonic d);
             SI = (if sub then - SI else SI)
         in Inr (mnemonic @ '' r'' @ fmt_d RT @ '', '' @ reg_or_zero RA @ '', '' @ fmt_d SI))))"

definition do_print_D_reg_reg_uimm :: "'a printer" where
  "do_print_D_reg_reg_uimm d =
     ip_read_reg (\<lambda>RT. ip_read_reg (\<lambda>RA. ip_read 16 (\<lambda>UI p.
       if ip_opcode p = 24 \<and> RT = 0 \<and> RA = 0 \<and> UI = 0 then Inr ''nop''
       else Inr (def_mnemonic d @ '' r'' @ fmt_d RA @ '', r'' @ fmt_d RT @ '', '' @ fmt_d UI))))"

definition do_print_D_reg_addr :: "'a printer" where
  "do_print_D_reg_addr d =
     ip_read_reg (\<lambda>RT. ip_read_reg (\<lambda>RA. ip_read_signed 16 (\<lambda>D p.
       Inr (def_mnemonic d @ '' r'' @ fmt_d RT @ '', '' @ fmt_d D @ ''('' @ reg_or_zero RA @ '')''))))"

definition do_print_D_freg_addr :: "'a printer" where
  "do_print_D_freg_addr d =
     ip_read_reg (\<lambda>FRT. ip_read_reg (\<lambda>RA. ip_read_signed 16 (\<lambda>D p.
       Inr (def_mnemonic d @ '' f'' @ fmt_d FRT @ '', '' @ fmt_d D @ ''('' @ reg_or_zero RA @ '')''))))"

definition do_print_DS_reg_addr :: "'a printer" where
  "do_print_DS_reg_addr d =
     ip_read_reg (\<lambda>RT. ip_read_reg (\<lambda>RA. ip_read_signed 14 (\<lambda>DS p.
       Inr (def_mnemonic d @ '' r'' @ fmt_d RT @ '', '' @ fmt_d (push_bit 2 DS) @ ''('' @ reg_or_zero RA @ '')''))))"

definition do_print_X_bcspr :: "'a printer" where
  "do_print_X_bcspr d p =
     asserted (ip_opcode p = 19) ''should be''
    (ip_read 5 (\<lambda>BO. ip_read 5 (\<lambda>BI. ip_read 5 (\<lambda>x1. ip_read_xo (\<lambda>xo. ip_read 1 (\<lambda>LK p.
       asserted (x1 = 0) ''should do''
      (bindR (branch_condition BO BI) (\<lambda>cond.
         bindR (if xo = 16 then Inr ''lr'' else if xo = 528 then Inr ''ctr'' else Inl ShouldNotReachHere) (\<lambda>spr.
           Inr (''b'' @ cond @ spr @ (if LK \<noteq> 0 then ''l'' else ''''))))))))) ) p)"

definition do_print_M :: "'a printer" where
  "do_print_M d p =
     asserted (ip_opcode p = 21) ''should be''
    (ip_read_reg (\<lambda>RS. ip_read_reg (\<lambda>RA. ip_read 5 (\<lambda>SH. ip_read 5 (\<lambda>MB. ip_read 5 (\<lambda>ME. ip_read 1 (\<lambda>Rc p.
       if MB = 0 \<and> 31 - SH = ME
       then Inr (''slwi'' @ dot Rc @ '' r'' @ fmt_d RA @ '', r'' @ fmt_d RS @ '', '' @ fmt_d SH)
       else if ME = 31 \<and> 32 - MB = SH
       then Inr (''srwi'' @ dot Rc @ '' r'' @ fmt_d RA @ '', r'' @ fmt_d RS @ '', '' @ fmt_d MB)
       else Inl ShouldNotReachHere)))))) p)"

text \<open>
  The condition of \<^verbatim>\<open>if (SH = 64 - ME)\<close> is the value assigned, tested against zero; \<open>SH\<close> is
  not read again on that path.
\<close>

definition do_print_MD :: "'a printer" where
  "do_print_MD d p =
     asserted (ip_opcode p = 30) ''should be''
    (ip_read_reg (\<lambda>RS. ip_read_reg (\<lambda>RA. ip_read 5 (\<lambda>shl. ip_read 5 (\<lambda>mel. ip_read 1 (\<lambda>meh.
     ip_read 3 (\<lambda>xo. ip_read 1 (\<lambda>shh. ip_read 1 (\<lambda>Rc p.
       let SH = push_bit 5 shh OR shl; ME = push_bit 5 meh OR mel
       in if xo = 0 then
            let SH = 64 - ME
            in if SH \<noteq> 0
               then Inr (''srdi'' @ dot Rc @ '' r'' @ fmt_d RA @ '', r'' @ fmt_d RS @ '', '' @ fmt_d ME)
               else Inl ShouldNotReachHere
          else if xo = 1 then
            if ME = 63 - SH
            then Inr (''sldi'' @ dot Rc @ '' r'' @ fmt_d RA @ '', r'' @ fmt_d RS @ '', '' @ fmt_d SH)
            else Inl ShouldNotReachHere
          else Inl ShouldNotReachHere)))))))) p)"

definition do_print_X_reg_reg_reg :: "'a printer" where
  "do_print_X_reg_reg_reg d =
     ip_read_reg (\<lambda>RT. ip_read_reg (\<lambda>RA. ip_read_reg (\<lambda>RB. ip_read_xo (\<lambda>xo. ip_read 1 (\<lambda>Rc p.
       let mnemonic = (if xo = 40 then ''sub'' else def_mnemonic d);
           (RA, RB) = (if xo = 40 then (RB, RA) else (RA, RB))
       in Inr (mnemonic @ dot Rc @ '' r'' @ fmt_d RT @ '', r'' @ fmt_d RA @ '', r'' @ fmt_d RB))))))"

definition do_print_X_reg_regorzero_reg :: "'a printer" where
  "do_print_X_reg_regorzero_reg d =
     ip_read_reg (\<lambda>RT. ip_read_reg (\<lambda>RA. ip_read_reg (\<lambda>RB. ip_read_xo (\<lambda>xo. ip_read 1 (\<lambda>Rc p.
       let mnemonic = (if xo = 40 then ''sub'' else def_mnemonic d);
           (RA, RB) = (if xo = 40 then (RB, RA) else (RA, RB))
       in Inr (mnemonic @ dot Rc @ '' r'' @ fmt_d RT @ '', '' @ reg_or_zero RA @ '', r'' @ fmt_d RB))))))"

definition do_print_X_res_regorzero_reg :: "'a printer" where
  "do_print_X_res_regorzero_reg d =
     ip_read_reg (\<lambda>x1. ip_read_reg (\<lambda>RA. ip_read_reg (\<lambda>RB. ip_read_xo (\<lambda>xo. ip_read 1 (\<lambda>Rc p.
       asserted (x1 = 0) ''should do''
         (Inr (def_mnemonic d @ dot Rc @ '' '' @ reg_or_zero RA @ '', r'' @ fmt_d RB)))))))"

definition do_print_X_reg_reg_res :: "'a printer" where
  "do_print_X_reg_reg_res d =
     ip_read_reg (\<lambda>RT. ip_read_reg (\<lambda>RA. ip_read_reg (\<lambda>x1. ip_read_xo (\<lambda>xo. ip_read 1 (\<lambda>Rc p.
       asserted (x1 = 0) ''should do''
         (Inr (def_mnemonic d @ dot Rc @ '' r'' @ fmt_d RT @ '', r'' @ fmt_d RA)))))))"

definition do_print_X_reg_res_res :: "'a printer" where
  "do_print_X_reg_res_res d =
     ip_read_reg (\<lambda>RT. ip_read_reg (\<lambda>x1. ip_read_reg (\<lambda>x2. ip_read_xo (\<lambda>xo. ip_read 1 (\<lambda>Rc p.
       asserted (x1 = 0 \<and> x2 = 0) ''should do''
         (Inr (def_mnemonic d @ dot Rc @ '' r'' @ fmt_d RT)))))))"

definition do_print_X_switched_regreg_reg :: "'a printer" where
  "do_print_X_switched_regreg_reg d =
     ip_read_reg (\<lambda>RS. ip_read_reg (\<lambda>RA. ip_read_reg (\<lambda>RB. ip_read_xo (\<lambda>xo. ip_read 1 (\<lambda>Rc p.
       if xo = 444 \<and> RS = RB \<and> Rc = 0 then Inr (''mr r'' @ fmt_d RA @ '', r'' @ fmt_d RB)
       else Inr (def_mnemonic d @ dot Rc @ '' r'' @ fmt_d RA @ '', r'' @ fmt_d RS @ '', r'' @ fmt_d RB))))))"

definition do_print_X_switched_regreg :: "'a printer" where
  "do_print_X_switched_regreg d =
     ip_read_reg (\<lambda>RS. ip_read_reg (\<lambda>RA. ip_read 5 (\<lambda>x1. ip_read_xo (\<lambda>xo. ip_read 1 (\<lambda>Rc p.
       asserted (x1 = 0) ''should do''
         (Inr (def_mnemonic d @ dot Rc @ '' r'' @ fmt_d RA @ '', r'' @ fmt_d RS)))))))"

definition do_print_X_reserved :: "'a printer" where
  "do_print_X_reserved d =
     ip_read 5 (\<lambda>x1. ip_read 5 (\<lambda>x2. ip_read 5 (\<lambda>x3. ip_read_xo (\<lambda>xo. ip_read 1 (\<lambda>Rc p.
       asserted (x1 = 0 \<and> x2 = 0 \<and> x3 = 0 \<and> Rc = 0) ''should do'' (Inr (def_mnemonic d)))))))"

definition do_print_X_cmp :: "'a printer" where
  "do_print_X_cmp d =
     ip_read 3 (\<lambda>BF. ip_read 1 (\<lambda>x1. ip_read 1 (\<lambda>L. ip_read_reg (\<lambda>RA. ip_read_reg (\<lambda>RB.
     ip_read_xo (\<lambda>xo. ip_read 1 (\<lambda>x2 p.
       asserted (ip_opcode p = 31 \<and> xo = 0) ''should be''
      (asserted (x1 = 0 \<and> x2 = 0) ''should be''
      (let mnemonic = (if L \<noteq> 0 then ''cmpd'' else ''cmpw'')
       in Inr (if BF \<noteq> 0 then mnemonic @ '' cr'' @ fmt_d BF @ '', r'' @ fmt_d RA @ '', r'' @ fmt_d RB
               else mnemonic @ '' r'' @ fmt_d RA @ '', r'' @ fmt_d RB))))))))))"

definition do_print_D_cmpi :: "'a printer" where
  "do_print_D_cmpi d =
     ip_read 3 (\<lambda>BF. ip_read 1 (\<lambda>x1. ip_read 1 (\<lambda>L. ip_read_reg (\<lambda>RA. ip_read_signed 16 (\<lambda>SI p.
       asserted (ip_opcode p = 11 \<and> x1 = 0) ''should be''
      (let mnemonic = (if L \<noteq> 0 then ''cmpdi'' else ''cmpwi'')
       in Inr (if BF \<noteq> 0 then mnemonic @ '' cr'' @ fmt_d BF @ '', r'' @ fmt_d RA @ '', '' @ fmt_d SI
               else mnemonic @ '' r'' @ fmt_d RA @ '', '' @ fmt_d SI)))))))"

definition do_print_X_mspr :: "'a printer" where
  "do_print_X_mspr d =
     ip_read_reg (\<lambda>RT. ip_read 5 (\<lambda>sb. ip_read 5 (\<lambda>sa. ip_read_xo (\<lambda>xo. ip_read 1 (\<lambda>x1 p.
       asserted (x1 = 0) ''should be''
      (let n = push_bit 5 sa OR sb
       in bindR (if n = 8 then Inr ''lr'' else if n = 9 then Inr ''ctr'' else Inl ShouldNotReachHere) (\<lambda>spr.
            Inr (''m'' @ [def_mnemonic d ! 1] @ spr @ '' r'' @ fmt_d RT))))))))"

definition do_print_X_mtcrf :: "'a printer" where
  "do_print_X_mtcrf d =
     ip_read_reg (\<lambda>RS. ip_read 1 (\<lambda>x1. ip_read 8 (\<lambda>FXM. ip_read 1 (\<lambda>x2. ip_read_xo (\<lambda>xo. ip_read 1 (\<lambda>x3 p.
       asserted (x1 = 0 \<and> x2 = 0 \<and> x3 = 0) ''should be''
         (Inr (if FXM = 255 then ''mtcr r'' @ fmt_d RS
               else def_mnemonic d @ '' '' @ fmt_d FXM @ '', r'' @ fmt_d RS))))))))"

definition do_print_X_freg_res_freg :: "'a printer" where
  "do_print_X_freg_res_freg d =
     ip_read_reg (\<lambda>FRT. ip_read_reg (\<lambda>x1. ip_read_reg (\<lambda>FRB. ip_read_xo (\<lambda>xo. ip_read 1 (\<lambda>Rc p.
       asserted (x1 = 0) ''should do''
         (Inr (def_mnemonic d @ dot Rc @ '' f'' @ fmt_d FRT @ '', f'' @ fmt_d FRB)))))))"

text \<open>The call through the function pointer of a definition.\<close>

definition call_printer :: "('w::len word \<Rightarrow> string) \<Rightarrow> 'w word printer" where
  "call_printer fmt_p d p =
     (case def_printer d of
        print_B_bc \<Rightarrow> do_print_B_bc fmt_p d p
      | print_I_b \<Rightarrow> do_print_I_b fmt_p d p
      | print_D_reg_reg_simm \<Rightarrow> do_print_D_reg_reg_simm d p
      | print_D_reg_reg_uimm \<Rightarrow> do_print_D_reg_reg_uimm d p
      | print_D_reg_addr \<Rightarrow> do_print_D_reg_addr d p
      | print_D_freg_addr \<Rightarrow> do_print_D_freg_addr d p
      | print_DS_reg_addr \<Rightarrow> do_print_DS_reg_addr d p
      | print_X_bcspr \<Rightarrow> do_print_X_bcspr d p
      | print_M \<Rightarrow> do_print_M d p
      | print_MD \<Rightarrow> do_print_MD d p
      | print_X_reg_reg_reg \<Rightarrow> do_print_X_reg_reg_reg d p
      | print_X_reg_regorzero_reg \<Rightarrow> do_print_X_reg_regorzero_reg d p
      | print_X_res_regorzero_reg \<Rightarrow> do_print_X_res_regorzero_reg d p
      | print_X_reg_reg_res \<Rightarrow> do_print_X_reg_reg_res d p
      | print_X_reg_res_res \<Rightarrow> do_print_X_reg_res_res d p
      | print_X_switched_regreg_reg \<Rightarrow> do_print_X_switched_regreg_reg d p
      | print_X_switched_regreg \<Rightarrow> do_print_X_switched_regreg d p
      | print_X_reserved \<Rightarrow> do_print_X_reserved d p
      | print_X_cmp \<Rightarrow> do_print_X_cmp d p
      | print_D_cmpi \<Rightarrow> do_print_D_cmpi d p
      | print_X_mspr \<Rightarrow> do_print_X_mspr d p
      | print_X_mtcrf \<Rightarrow> do_print_X_mtcrf d p
      | print_X_freg_res_freg \<Rightarrow> do_print_X_freg_res_freg d p)"

section \<open>The table\<close>

definition definitions :: "InstructionDefinition list" where
  "definitions = [
     def_plain 8 ''subfic'' print_D_reg_reg_simm,
     def_plain 11 ''cmpi'' print_D_cmpi,
     def_plain 14 ''addi'' print_D_reg_reg_simm,
     def_plain 15 ''addis'' print_D_reg_reg_simm,
     def_plain 16 ''bc'' print_B_bc,
     def_plain 18 ''b'' print_I_b,
     def_xo 19 16 ''bclr'' print_X_bcspr,
     def_xo 19 150 ''isync'' print_X_reserved,
     def_xo 19 528 ''bcctr'' print_X_bcspr,
     def_plain 21 ''rlwinm'' print_M,
     def_plain 24 ''ori'' print_D_reg_reg_uimm,
     def_plain 25 ''oris'' print_D_reg_reg_uimm,
     def_plain 28 ''andi.'' print_D_reg_reg_uimm,
     def_xo 30 0 ''rldicl'' print_MD,
     def_xo 30 1 ''rldicr'' print_MD,
     def_xo 31 0 ''cmp'' print_X_cmp,
     def_xo 31 19 ''mfcr'' print_X_reg_res_res,
     def_xo 31 20 ''lwarx'' print_X_reg_regorzero_reg,
     def_xo 31 21 ''ldx'' print_X_reg_regorzero_reg,
     def_xo 31 23 ''lwzx'' print_X_reg_regorzero_reg,
     def_xo 31 40 ''subf'' print_X_reg_reg_reg,
     def_xo 31 84 ''ldarx'' print_X_reg_regorzero_reg,
     def_xo 31 86 ''dcbf'' print_X_res_regorzero_reg,
     def_xo 31 87 ''lbzx'' print_X_reg_regorzero_reg,
     def_xo 31 104 ''neg'' print_X_reg_reg_res,
     def_xo 31 144 ''mtcrf'' print_X_mtcrf,
     def_xo 31 150 ''stwcx'' print_X_reg_regorzero_reg,
     def_xo 31 151 ''stwx'' print_X_reg_regorzero_reg,
     def_xo 31 181 ''stdux'' print_X_reg_regorzero_reg,
     def_xo 31 183 ''stwux'' print_X_reg_regorzero_reg,
     def_xo 31 214 ''stdcx'' print_X_reg_regorzero_reg,
     def_xo 31 266 ''add'' print_X_reg_reg_reg,
     def_xo 31 279 ''lhzx'' print_X_reg_regorzero_reg,
     def_xo 31 339 ''mfspr'' print_X_mspr,
     def_xo 31 444 ''or'' print_X_switched_regreg_reg,
     def_xo 31 467 ''mtspr'' print_X_mspr,
     def_xo 31 598 ''sync'' print_X_reserved,
     def_xo 31 922 ''extsh'' print_X_switched_regreg,
     def_xo 31 954 ''extsb'' print_X_switched_regreg,
     def_xo 31 982 ''icbi'' print_X_res_regorzero_reg,
     def_xo 31 986 ''extsw'' print_X_switched_regreg,
     def_plain 32 ''lwz'' print_D_reg_addr,
     def_plain 36 ''stw'' print_D_reg_addr,
     def_plain 37 ''stwu'' print_D_reg_addr,
     def_plain 40 ''lhz'' print_D_reg_addr,
     def_plain 48 ''lfs'' print_D_freg_addr,
     def_plain 50 ''lfd'' print_D_freg_addr,
     def_plain 52 ''stfs'' print_D_freg_addr,
     def_plain 54 ''stfd'' print_D_freg_addr,
     def_xo 58 0 ''ld'' print_DS_reg_addr,
     def_xo 62 0 ''std'' print_DS_reg_addr,
     def_xo 62 1 ''stdu'' print_DS_reg_addr,
     def_xo 63 72 ''fmr'' print_X_freg_res_freg]"

definition definitions_count :: nat where
  "definitions_count = length definitions"

text \<open>The loop returns from the first definition that matches.\<close>

fun print_instruction_loop ::
  "('w::len word \<Rightarrow> string) \<Rightarrow> InstructionDefinition list \<Rightarrow> 'w word InstructionParser \<Rightarrow> string result" where
  "print_instruction_loop fmt_p [] p = Inr (''.long 0x'' @ fmt_hex 8 (unat (ip_instruction p)))"
| "print_instruction_loop fmt_p (d # ds) p =
     (if ip_opcode p = def_opcode d \<and> ip_extended_opcode p = def_extended_opcode d
      then call_printer fmt_p d p
      else print_instruction_loop fmt_p ds p)"

definition print_instruction_at :: "('w::len word \<Rightarrow> string) \<Rightarrow> 'w word \<Rightarrow> c_int \<Rightarrow> string result" where
  "print_instruction_at fmt_p addr word =
     print_instruction_loop fmt_p definitions (mk_InstructionParser addr word)"

text \<open>
  \<^verbatim>\<open>Disassembler::decode(begin, end, st)\<close>, over the words from \<open>addr\<close> on. What
  \<^verbatim>\<open>print_block_comment\<close> of the code blob writes for an address is the argument \<open>comment\<close>
  (the empty string when there is no blob). The bytes of a word are in memory order, the most
  significant first.
\<close>

definition fmt_address :: "arch \<Rightarrow> 'w::len word \<Rightarrow> string" where
  "fmt_address arch a = (case arch of PPC32 \<Rightarrow> fmt_hex 8 (unat a) | PPC64 \<Rightarrow> fmt_lx (unat a))"

definition fmt_bytes :: "c_int \<Rightarrow> string" where
  "fmt_bytes w = concat (map (\<lambda>i. fmt_hex 2 (unat (fld (24 - 8 * i) 8 w)) @ '' '') [0..<4])"

fun decode_range ::
  "arch \<Rightarrow> ('w::len word \<Rightarrow> string) \<Rightarrow> ('w word \<Rightarrow> string) \<Rightarrow> 'w word \<Rightarrow> c_int list \<Rightarrow> string result" where
  "decode_range arch fmt_p comment addr [] = Inr ''''"
| "decode_range arch fmt_p comment addr (w # ws) =
     bindR (print_instruction_at fmt_p addr w) (\<lambda>text.
     bindR (decode_range arch fmt_p comment (addr + 4) ws) (\<lambda>rest.
       Inr (comment addr @ fmt_address arch addr @ '':   '' @ fmt_bytes w @ ''   '' @ text @ [CHR 0x0A] @ rest)))"

end
