(* ===== verification/LoadConst.thy ===== *)
theory LoadConst
  imports Macros
begin

text \<open>
  What \<^verbatim>\<open>MacroAssembler::load(Register, long)\<close> loads. The emitted words are related to the five
  instructions of the Power architecture it uses; what those do to the general registers is a
  parameter \<open>exec\<close>, with the documented behaviour as the hypotheses \<open>isa_immediates\<close> and
  \<open>isa_sldi\<close>. \<open>isa_exec\<close>, a decoder for the five instructions, satisfies both.
\<close>

section \<open>The instructions as the architecture documents them\<close>

definition isa_D_word :: "nat \<Rightarrow> nat \<Rightarrow> nat \<Rightarrow> nat \<Rightarrow> c_int" where
  "isa_D_word opcode rt ra d = word_of_nat (opcode * 2 ^ 26 + rt * 2 ^ 21 + ra * 2 ^ 16 + d)"

definition isa_sldi_word :: "nat \<Rightarrow> nat \<Rightarrow> nat \<Rightarrow> c_int" where
  "isa_sldi_word rs ra sh = word_of_nat (30 * 2 ^ 26 + rs * 2 ^ 21 + ra * 2 ^ 16 +
     (sh mod 32) * 2 ^ 11 + ((63 - sh) mod 32) * 2 ^ 6 + ((63 - sh) div 32) * 2 ^ 5 +
     1 * 2 ^ 2 + (sh div 32) * 2)"

definition sext16 :: "nat \<Rightarrow> 'w::len word" where
  "sext16 d = signed_take_bit 15 (word_of_nat d)"

definition isa_immediates :: "(c_int \<Rightarrow> (nat \<Rightarrow> 'w::len word) \<Rightarrow> nat \<Rightarrow> 'w word) \<Rightarrow> bool" where
  "isa_immediates exec \<longleftrightarrow> (\<forall>rt ra d r. rt < 32 \<longrightarrow> ra < 32 \<longrightarrow> d < 2 ^ 16 \<longrightarrow>
     exec (isa_D_word 14 rt ra d) r = r(rt := (if ra = 0 then 0 else r ra) + sext16 d) \<and>
     exec (isa_D_word 15 rt ra d) r = r(rt := (if ra = 0 then 0 else r ra) + push_bit 16 (sext16 d)) \<and>
     exec (isa_D_word 24 rt ra d) r = r(ra := r rt OR word_of_nat d) \<and>
     exec (isa_D_word 25 rt ra d) r = r(ra := r rt OR push_bit 16 (word_of_nat d)))"

definition isa_sldi :: "(c_int \<Rightarrow> (nat \<Rightarrow> 'w::len word) \<Rightarrow> nat \<Rightarrow> 'w word) \<Rightarrow> bool" where
  "isa_sldi exec \<longleftrightarrow> (\<forall>rs ra sh r. rs < 32 \<longrightarrow> ra < 32 \<longrightarrow> 0 < sh \<longrightarrow> sh < 64 \<longrightarrow>
     exec (isa_sldi_word rs ra sh) r = r(ra := push_bit sh (r rs)))"

section \<open>What the emitters emit is what is documented\<close>

lemma or_add_disjoint: "x AND y = 0 \<Longrightarrow> x OR y = x + (y :: 'w::len word)"
  by (rule disjunctive_add_eq_or [symmetric])

lemma and_push_bit_fits: "fits k y \<Longrightarrow> k \<le> n \<Longrightarrow> push_bit n x AND y = (0 :: 'w::len word)"
  by (rule bit_word_eqI) (auto simp: fits_iff_bit bit_simps)

lemma fits_or: "fits n x \<Longrightarrow> fits n y \<Longrightarrow> fits n (x OR y)"
  by (auto simp: fits_iff_bit bit_simps)

lemma fits_push_bit: "fits k x \<Longrightarrow> k + n \<le> m \<Longrightarrow> fits m (push_bit n x)"
  by (auto simp: fits_iff_bit bit_simps)

lemma D_form_word:
  assumes "fits 5 a" "fits 5 b" "fits 16 c"
  shows "D_form opc a b c = isa_D_word (unat opc) (unat a) (unat b) (unat c)"
proof -
  have 1: "push_bit 16 b OR c = push_bit 16 b + c"
    using assms by (intro or_add_disjoint and_push_bit_fits [where k = 16]) auto
  have f1: "fits 21 (push_bit 16 b OR c)"
    using assms by (intro fits_or fits_push_bit [where k = 5] fits_mono [of 16 c 21]) auto
  have 2: "push_bit 21 a OR (push_bit 16 b OR c) = push_bit 21 a + (push_bit 16 b OR c)"
    using f1 by (intro or_add_disjoint and_push_bit_fits [where k = 21]) auto
  have f2: "fits 26 (push_bit 21 a OR (push_bit 16 b OR c))"
    using assms by (intro fits_or fits_push_bit [where k = 5] fits_mono [OF f1]) auto
  have 3: "push_bit 26 opc OR (push_bit 21 a OR (push_bit 16 b OR c)) =
      push_bit 26 opc + (push_bit 21 a OR (push_bit 16 b OR c))"
    using f2 by (intro or_add_disjoint and_push_bit_fits [where k = 26]) auto
  show ?thesis
    unfolding D_form_def or.assoc isa_D_word_def
    by (subst 3, subst 2, subst 1) (simp add: push_bit_eq_mult)
qed

definition simm_ok :: "c_int \<Rightarrow> bool" where
  "simm_ok c \<longleftrightarrow> (if sint c < 0 then c AND NOT 0xffff = NOT 0xffff else c AND NOT 0xffff = 0)"

lemma emit_D_emits:
  "fits 6 opc \<Longrightarrow> fits 5 a \<Longrightarrow> fits 5 b \<Longrightarrow> simm_ok c \<Longrightarrow>
    emits (emit_D opc a b c) [D_form opc a b (take_bit 16 c)]"
  by (auto simp: emits_def emit_D_def fits_masks fits_masks_neg emit_long_def simm_ok_def and_masks fits_def)

lemma simm_ok_fits: "fits 16 c \<Longrightarrow> simm_ok c"
  using sint_small [of c] by (simp add: simm_ok_def fits_masks fits_masks_neg fits_unat)

lemma fits6_consts: "fits 6 (8 :: c_int)" "fits 6 (14 :: c_int)" "fits 6 (15 :: c_int)" "fits 6 (24 :: c_int)" "fits 6 (25 :: c_int)"
  "fits 6 (28 :: c_int)" "fits 6 (31 :: c_int)" "fits 6 (32 :: c_int)" "fits 6 (36 :: c_int)" "fits 6 (37 :: c_int)"
  by (simp_all add: fits_unat)

lemma emits_D_RRi:
  assumes "unat a < 32" "unat b < 32" "fits 6 opc" "simm_ok c"
  shows "emits (emit_D_RRi opc (as_Register a) (as_Register b) c) [isa_D_word (unat opc) (unat a) (unat b) (unat (take_bit 16 c))]"
proof -
  have "emits (emit_D opc a b c) [D_form opc a b (take_bit 16 c)]"
    using assms by (intro emit_D_emits) (simp_all add: fits5_small)
  then show ?thesis using assms
    by (simp add: emits_def emit_D_RRi_def D_form_word fits5_small)
qed

lemma emits_sldi:
  assumes "unat a < 32" "unat b < 32"
  shows "emits (asm_sldi (as_Register a) (as_Register b) 32) [isa_sldi_word (unat b) (unat a) 32]"
proof -
  have "M_form 30 b a 0 31 3 False = isa_sldi_word (unat b) (unat a) 32"
  proof -
    have 1: "push_bit 16 a OR 1990 = push_bit 16 a + (1990 :: c_int)"
      by (intro or_add_disjoint and_push_bit_fits [where k = 16]) (auto simp: fits_unat)
    have f1: "fits 21 (push_bit 16 a OR (1990 :: c_int))"
      using assms by (intro fits_or fits_push_bit [where k = 5]) (auto simp: fits_unat)
    have 2: "push_bit 21 b OR (push_bit 16 a OR 1990) = push_bit 21 b + (push_bit 16 a OR (1990 :: c_int))"
      using f1 by (intro or_add_disjoint and_push_bit_fits [where k = 21]) auto
    have f2: "fits 26 (push_bit 21 b OR (push_bit 16 a OR (1990 :: c_int)))"
      using assms by (intro fits_or [OF fits_push_bit [where k = 5] fits_mono [OF f1]]) (auto simp: fits_unat)
    have 3: "push_bit 26 30 OR (push_bit 21 b OR (push_bit 16 a OR (1990 :: c_int))) =
        push_bit 26 30 + (push_bit 21 b OR (push_bit 16 a OR 1990))"
      using f2 by (intro or_add_disjoint and_push_bit_fits [where k = 26]) auto
    have "M_form 30 b a 0 31 3 False = push_bit 26 30 OR (push_bit 21 b OR (push_bit 16 a OR (1990 :: c_int)))"
      by (simp add: M_form_def or.assoc)
    also have "\<dots> = isa_sldi_word (unat b) (unat a) 32"
      unfolding isa_sldi_word_def by (subst 3, subst 2, subst 1) (simp add: push_bit_eq_mult)
    finally show ?thesis .
  qed
  moreover have "c_shr 32 5 = 1" "c_shr 0 1 = 0" by (simp_all add: c_shr_def)
  ultimately show ?thesis using assms
    by (simp add: emits_def asm_sldi_def asm_rldicr_def emit_M_RR_def emit_M_def fits_masks fits_masks_neg
        fits5_small fits_unat emit_long_def)
qed


section \<open>Loading a constant\<close>

lemma exec_D:
  assumes "isa_immediates exec" "rt < 32" "ra < 32" "fits 16 x"
  shows "exec (isa_D_word 14 rt ra (unat x)) r = r(rt := (if ra = 0 then 0 else r ra) + sext16 (unat x))"
    "exec (isa_D_word 15 rt ra (unat x)) r = r(rt := (if ra = 0 then 0 else r ra) + push_bit 16 (sext16 (unat x)))"
    "exec (isa_D_word 24 rt ra (unat x)) r = r(ra := r rt OR word_of_nat (unat x))"
    "exec (isa_D_word 25 rt ra (unat x)) r = r(ra := r rt OR push_bit 16 (word_of_nat (unat x)))"
  using assms by (auto simp: isa_immediates_def fits_unat)

lemma word_of_nat_unat_ucast: "word_of_nat (unat (x :: 'a::len word)) = (ucast x :: 'b::len word)"
  by (simp add: unsigned_of_nat)

lemma sext16_unat: "sext16 (unat x) = signed_take_bit 15 (ucast (x :: 'a::len word))"
  by (simp add: sext16_def word_of_nat_unat_ucast)

lemma emits_imm:
  assumes "unat a < 32"
  shows "simm_ok c \<Longrightarrow> emits (asm_li (as_Register a) c) [isa_D_word 14 (unat a) 0 (unat (take_bit 16 c))]"
    "simm_ok c \<Longrightarrow> emits (asm_lis (as_Register a) c) [isa_D_word 15 (unat a) 0 (unat (take_bit 16 c))]"
    "simm_ok c \<Longrightarrow> emits (asm_ori (as_Register a) (as_Register a) c) [isa_D_word 24 (unat a) (unat a) (unat (take_bit 16 c))]"
    "simm_ok c \<Longrightarrow> emits (asm_oris (as_Register a) (as_Register a) c) [isa_D_word 25 (unat a) (unat a) (unat (take_bit 16 c))]"
  using emits_D_RRi [of a 0 14 c] emits_D_RRi [of a 0 15 c] emits_D_RRi [of a a 24 c]
    emits_D_RRi [of a a 25 c] assms
  by (simp_all add: fits6_consts asm_li_def asm_addi_def asm_lis_def asm_addis_def asm_ori_def asm_oris_def r0_def)

definition constant_loaded_32 :: "32 word \<Rightarrow> 32 word" where
  "constant_loaded_32 v = (if unat v < 2 ^ 16 then signed_take_bit 15 v else v)"


lemma simm_ok_bits: "(\<And>i. 16 \<le> i \<Longrightarrow> i < 32 \<Longrightarrow> bit c i = bit c 31) \<Longrightarrow> simm_ok c"
proof -
  assume h: "\<And>i. 16 \<le> i \<Longrightarrow> i < 32 \<Longrightarrow> bit c i = bit c 31"
  have m: "bit (0xffff :: c_int) i \<longleftrightarrow> i < 16" for i
  proof -
    have e: "(0xffff :: c_int) = mask 16" by (simp add: mask_eq_exp_minus_1)
    show ?thesis unfolding e bit_mask_iff by auto
  qed
  have n: "bit (NOT 0xffff :: c_int) i \<longleftrightarrow> i < 32 \<and> 16 \<le> i" for i
    unfolding bit_not_iff m by auto
  have "sint c < 0 \<longleftrightarrow> bit c 31" using bit_last_iff [of c] by simp
  moreover have "c AND NOT 0xffff = NOT 0xffff" if t: "bit c 31"
  proof (rule bit_word_eqI)
    fix i show "bit (c AND NOT 0xffff) i = bit (NOT 0xffff :: c_int) i"
      unfolding bit_and_iff n using h [of i] t by blast
  qed
  moreover have "c AND NOT 0xffff = 0" if t: "\<not> bit c 31"
  proof (rule bit_word_eqI)
    fix i have "\<not> bit (c AND NOT 0xffff) i" unfolding bit_and_iff n using h [of i] t by blast
    then show "bit (c AND NOT 0xffff) i = bit (0 :: c_int) i" by simp
  qed
  ultimately show ?thesis by (simp add: simm_ok_def)
qed

lemma simm_ok_pieces:
  "simm_ok (signed_drop_bit 16 (v :: c_int))"
  "simm_ok (ucast (signed_drop_bit 48 (w :: 64 word)))"
  by (rule simm_ok_bits; auto simp: bit_simps)+

lemma simm_ok_take16: "simm_ok (take_bit 16 v)"
  by (rule simm_ok_fits) simp

lemma sext_pieces_32:
  "push_bit 16 (sext16 (unat (take_bit 16 (signed_drop_bit 16 v)))) OR ucast (take_bit 16 v) = (v :: 32 word)" (is "?l = v")
proof (rule bit_word_eqI)
  fix n
  assume "n < LENGTH(32)"
  then consider "n < 16" | "16 \<le> n" "n - 16 < 15" "n < 31" | "n = 31" by fastforce
  then show "bit ?l n = bit v n"
    by cases (auto simp: sext16_unat bit_simps)
qed

lemma piece_zero_32: "signed_drop_bit 16 (v :: 32 word) = 0 \<longleftrightarrow> unat v < 2 ^ 16"
  unfolding fits_unat [symmetric] fits_iff_bit
proof
  assume a: "signed_drop_bit 16 v = 0"
  have "bit (signed_drop_bit 16 v) (i - 16) = bit v i" if "16 \<le> i" "i < 32" for i
    using that by (auto simp: bit_simps)
  then have "\<not> bit v i" if "16 \<le> i" "i < 32" for i using a that by simp
  moreover have "bit v i \<Longrightarrow> i < 32" for i using bit_imp_le_length [of v i] by simp
  ultimately show "\<forall>i. bit v i \<longrightarrow> i < 16" by (meson linorder_not_less)
next
  assume "\<forall>i. bit v i \<longrightarrow> i < 16"
  then show "signed_drop_bit 16 v = 0" by (intro bit_word_eqI) (auto simp: bit_simps)
qed


lemma c_int_and: "v AND 0xffff = (take_bit 16 v :: 'w::len word)"
  by (rule and_masks)

lemma sext_take_bit: "m < n \<Longrightarrow> signed_take_bit m (take_bit n x) = signed_take_bit m (x :: 'w::len word)"
  by (rule bit_word_eqI) (auto simp: bit_simps min_def)

definition constant_loaded_64 :: "64 word \<Rightarrow> 64 word" where
  "constant_loaded_64 v =
     (if unat v < 2 ^ 16 then signed_take_bit 15 v
      else if unat v < 2 ^ 32 then signed_take_bit 31 v
      else if unat v < 2 ^ 48 then signed_take_bit 47 v
      else v)"

text \<open>What one block of the sequence does to the value of the register.\<close>

definition does :: "(c_int \<Rightarrow> (nat \<Rightarrow> 'w::len word) \<Rightarrow> nat \<Rightarrow> 'w word) \<Rightarrow> nat \<Rightarrow> 'a emitter \<Rightarrow> ('w word \<Rightarrow> 'w word) \<Rightarrow> bool" where
  "does exec d e f \<longleftrightarrow> (\<exists>ws. emits e ws \<and> (\<forall>r. fold exec ws r = r(d := f (r d))))"

lemma does_seq: "does exec d e f \<Longrightarrow> does exec d (seqR es) g \<Longrightarrow> does exec d (seqR (e # es)) (g \<circ> f)"
proof -
  assume "does exec d e f" "does exec d (seqR es) g"
  then obtain ws vs where "emits e ws" "\<forall>r. fold exec ws r = r(d := f (r d))"
    "emits (seqR es) vs" "\<forall>r. fold exec vs r = r(d := g (r d))" by (auto simp: does_def)
  then show ?thesis unfolding does_def
    by (intro exI [of _ "ws @ vs"]) (auto intro: emits_seq_Cons)
qed

lemma does_Nil: "does exec d (seqR []) id"
  by (auto simp: does_def intro!: exI [of _ "[]"])

lemma does_when: "does exec d (seqR es) f \<Longrightarrow> does exec d (whenR p es) (if p then f else id)"
  using does_Nil by (cases p) (auto simp: whenR_def seqR.simps(1) [abs_def] does_def emits_def)

lemma does_one: "emits e [w] \<Longrightarrow> (\<And>r. exec w r = r(d := f (r d))) \<Longrightarrow> does exec d e f"
  by (auto simp: does_def)

lemma does_imm:
  assumes x: "isa_immediates exec" and d: "unat d < 32" and c: "simm_ok c"
  shows "does exec (unat d) (asm_li (as_Register d) c) (\<lambda>_. sext16 (unat (take_bit 16 c)))"
    "does exec (unat d) (asm_lis (as_Register d) c) (\<lambda>_. push_bit 16 (sext16 (unat (take_bit 16 c))))"
    "does exec (unat d) (asm_ori (as_Register d) (as_Register d) c) (\<lambda>y. y OR ucast (take_bit 16 c))"
    "does exec (unat d) (asm_oris (as_Register d) (as_Register d) c) (\<lambda>y. y OR push_bit 16 (ucast (take_bit 16 c)))"
  by (rule does_one [OF emits_imm(1) [OF d c]] does_one [OF emits_imm(2) [OF d c]]
      does_one [OF emits_imm(3) [OF d c]] does_one [OF emits_imm(4) [OF d c]];
      use x d in \<open>simp add: exec_D word_of_nat_unat_ucast fun_eq_iff\<close>)+

lemma does_sldi:
  assumes "isa_sldi exec" "unat d < 32"
  shows "does exec (unat d) (asm_sldi (as_Register d) (as_Register d) 32) (push_bit 32)"
  by (rule does_one [OF emits_sldi]) (use assms in \<open>auto simp: isa_sldi_def\<close>)


lemma does_cong: "does exec d e f \<Longrightarrow> (\<And>y. f y = g y) \<Longrightarrow> does exec d e g"
  by (simp add: does_def)

lemma does_if: "(p \<Longrightarrow> does exec d e f) \<Longrightarrow> (\<not> p \<Longrightarrow> does exec d e' f') \<Longrightarrow>
  does exec d (if p then e else e') (if p then f else f')"
  by simp

lemma load_32:
  fixes v :: "32 word"
  assumes x: "isa_immediates exec" and d: "unat d < 32"
  shows "does exec (unat d) (masm_load_32 (as_Register d) v) (\<lambda>_. constant_loaded_32 v)"
proof (cases "signed_drop_bit 16 v = 0")
  case True
  then have "constant_loaded_32 v = sext16 (unat (take_bit 16 v))"
    unfolding piece_zero_32 constant_loaded_32_def sext16_unat by (simp add: sext_take_bit)
  with True does_imm(1) [OF x d simm_ok_take16, of v] show ?thesis
    by (simp add: masm_load_32_def c_int_and)
next
  case False
  then have c: "constant_loaded_32 v = v"
    unfolding piece_zero_32 constant_loaded_32_def by simp
  have "does exec (unat d) (seqR [asm_lis (as_Register d) (signed_drop_bit 16 v),
      whenR (take_bit 16 v \<noteq> 0) [asm_ori (as_Register d) (as_Register d) (take_bit 16 v)]])
    (\<lambda>_. v)"
    using sext_pieces_32 [of v]
    by (intro does_cong [OF does_seq [OF does_imm(2) [OF x d simm_ok_pieces(1)]
        does_seq [OF does_when [OF does_seq [OF does_imm(3) [OF x d simm_ok_take16] does_Nil]] does_Nil]]])
       auto
  then show ?thesis using False by (simp add: masm_load_32_def c_int_and c Let_def)
qed


text \<open>The four pieces of a 64-bit constant.\<close>

definition piece :: "nat \<Rightarrow> 64 word \<Rightarrow> c_int" where
  "piece k v = take_bit 16 (ucast (signed_drop_bit k v))"

lemma bit_piece: "k + 16 \<le> 64 \<Longrightarrow> bit (piece k v) i \<longleftrightarrow> i < 16 \<and> bit v (k + i)"
  by (auto simp: piece_def bit_simps)

lemma piece_zero:
  assumes "k + 16 \<le> 64"
  shows "piece k v = 0 \<longleftrightarrow> (\<forall>i. k \<le> i \<and> i < k + 16 \<longrightarrow> \<not> bit v i)"
proof
  assume "piece k v = 0"
  then have "\<not> bit (piece k v) i" for i by simp
  then show "\<forall>i. k \<le> i \<and> i < k + 16 \<longrightarrow> \<not> bit v i"
    unfolding bit_piece [OF assms] by (metis add_less_cancel_left le_add_diff_inverse)
next
  assume "\<forall>i. k \<le> i \<and> i < k + 16 \<longrightarrow> \<not> bit v i"
  then show "piece k v = 0" using assms by (intro bit_word_eqI) (auto simp: bit_piece)
qed

lemma top_zero: "ucast (signed_drop_bit 48 v) = (0 :: c_int) \<longleftrightarrow> piece 48 (v :: 64 word) = 0"
proof
  assume z: "piece 48 v = 0"
  have "\<not> bit v i" if "48 \<le> i" "i < 64" for i
    using z that by (simp add: piece_zero)
  then show "ucast (signed_drop_bit 48 v) = (0 :: c_int)"
    by (intro bit_word_eqI) (auto simp: bit_simps)
qed (simp add: piece_def)

lemma top_zero_unat: "piece 48 v = 0 \<longleftrightarrow> unat v < 2 ^ 48"
  unfolding fits_unat [symmetric] fits_iff_bit using bit_imp_le_length [of v]
  by (simp add: piece_zero) (meson not_less)

lemma top2_zero_unat: "piece 48 v = 0 \<and> piece 32 v = 0 \<longleftrightarrow> unat v < 2 ^ 32"
proof -
  have "(i < 32) \<longleftrightarrow> \<not> (32 \<le> i \<and> i < 48 \<or> 48 \<le> i \<and> i < 64)" if "bit v i" for i
    using bit_imp_le_length [OF that] by auto
  then show ?thesis unfolding fits_unat [symmetric] fits_iff_bit by (simp add: piece_zero) blast
qed

lemma top3_zero_unat: "piece 48 v = 0 \<and> piece 32 v = 0 \<and> piece 16 v = 0 \<longleftrightarrow> unat v < 2 ^ 16"
proof -
  have "(i < 16) \<longleftrightarrow> \<not> (16 \<le> i \<and> i < 32 \<or> 32 \<le> i \<and> i < 48 \<or> 48 \<le> i \<and> i < 64)" if "bit v i" for i
    using bit_imp_le_length [OF that] by auto
  then show ?thesis unfolding fits_unat [symmetric] fits_iff_bit by (simp add: piece_zero) blast
qed

lemma bit_sext_piece:
  "k + 16 \<le> 64 \<Longrightarrow> bit (sext16 (unat (piece k v)) :: 64 word) i \<longleftrightarrow> i < 64 \<and> bit v (k + min i 15)"
  by (auto simp: sext16_unat bit_signed_take_bit_iff bit_word_ucast_iff bit_piece min_def)

lemma bit_ucast_piece:
  "k + 16 \<le> 64 \<Longrightarrow> bit (ucast (piece k v) :: 64 word) i \<longleftrightarrow> i < 16 \<and> bit v (k + i)"
  by (auto simp: bit_word_ucast_iff bit_piece)

lemma join_64_0: "sext16 (unat (piece 0 v)) = signed_take_bit 15 v"
  by (rule bit_word_eqI) (simp add: bit_sext_piece bit_signed_take_bit_iff min.commute)

lemma join_64_1:
  "push_bit 16 (sext16 (unat (piece 16 v))) OR ucast (piece 0 v) = signed_take_bit 31 v" (is "?l = ?r")
proof (rule bit_word_eqI)
  fix n
  assume "n < LENGTH(64)"
  then consider "n < 16" | "16 \<le> n" "n \<le> 31" | "31 < n" "n < 64" by fastforce
  then show "bit ?l n = bit ?r n"
    by cases (auto simp: bit_or_iff bit_push_bit_iff bit_sext_piece bit_ucast_piece bit_signed_take_bit_iff min_def)
qed

lemma join_64_2:
  "push_bit 32 (sext16 (unat (piece 32 v))) OR push_bit 16 (ucast (piece 16 v)) OR ucast (piece 0 v) = signed_take_bit 47 v"
  (is "?l = ?r")
proof (rule bit_word_eqI)
  fix n
  assume "n < LENGTH(64)"
  then consider "n < 16" | "16 \<le> n" "n < 32" | "32 \<le> n" "n \<le> 47" | "47 < n" "n < 64" by fastforce
  then show "bit ?l n = bit ?r n"
    by cases (auto simp: bit_or_iff bit_push_bit_iff bit_sext_piece bit_ucast_piece bit_signed_take_bit_iff min_def)
qed

lemma join_64_3:
  "push_bit 32 (push_bit 16 (sext16 (unat (piece 48 v))) OR ucast (piece 32 v)) OR
     push_bit 16 (ucast (piece 16 v)) OR ucast (piece 0 v) = v"
  (is "?l = ?r")
proof (rule bit_word_eqI)
  fix n
  assume "n < LENGTH(64)"
  then consider "n < 16" | "16 \<le> n" "n < 32" | "32 \<le> n" "n < 48" | "48 \<le> n" "n < 64" by fastforce
  then show "bit ?l n = bit ?r n"
    by cases (auto simp: bit_or_iff bit_push_bit_iff bit_sext_piece bit_ucast_piece min_def)
qed


lemma piece_take: "take_bit 16 (piece k v) = piece k v"
  by (simp add: piece_def)

lemma simm_ok_piece: "simm_ok (piece k v)"
  unfolding piece_def by (rule simm_ok_take16)

lemma load_64_pieces:
  "masm_load_64 dst v =
     seqR [
       if piece 48 v \<noteq> 0
       then seqR [asm_lis dst (ucast (signed_drop_bit 48 v)),
                  whenR (piece 32 v \<noteq> 0) [asm_ori dst dst (piece 32 v)]]
       else whenR (piece 32 v \<noteq> 0) [asm_li dst (piece 32 v)],
       whenR (2 ^ 32 \<le> unat v) [asm_sldi dst dst 32],
       if piece 16 v \<noteq> 0
       then seqR [if 2 ^ 32 \<le> unat v then asm_oris dst dst (piece 16 v) else asm_lis dst (piece 16 v),
                  whenR (piece 0 v \<noteq> 0) [asm_ori dst dst (piece 0 v)]]
       else whenR (piece 0 v \<noteq> 0 \<or> unat v < 2 ^ 32)
              [if 2 ^ 32 \<le> unat v then asm_ori dst dst (piece 0 v) else asm_li dst (piece 0 v)]]"
proof -
  have p: "ucast (signed_drop_bit k v) AND 0xffff = piece k v" for k
    by (simp add: piece_def c_int_and)
  from p [of 0] have p0: "ucast v AND 0xffff = piece 0 v" by simp
  have ab: "piece 48 v \<noteq> 0 \<or> piece 32 v \<noteq> 0 \<longleftrightarrow> 2 ^ 32 \<le> unat v"
    using top2_zero_unat [of v] by auto
  then have nab: "\<not> (piece 48 v \<noteq> 0 \<or> piece 32 v \<noteq> 0) \<longleftrightarrow> unat v < 2 ^ 32" by auto
  show ?thesis
    unfolding masm_load_64_def Let_def p p0 top_zero ab nab not_le ..
qed

lemma load_64:
  assumes x: "isa_immediates exec" and y: "isa_sldi exec" and d: "unat d < 32"
  shows "does exec (unat d) (masm_load_64 (as_Register d) v) (\<lambda>_. constant_loaded_64 v)"
proof -
  note li = does_imm(1) [OF x d] and lis = does_imm(2) [OF x d]
    and ori = does_imm(3) [OF x d] and oris = does_imm(4) [OF x d]
  note sq = does_seq and nl = does_Nil
  let ?p = "\<lambda>k. piece k v"
  have "does exec (unat d) (masm_load_64 (as_Register d) v)
    ((id \<circ> (if ?p 16 \<noteq> 0
       then (id \<circ> (if ?p 0 \<noteq> 0 then id \<circ> (\<lambda>y. y OR ucast (take_bit 16 (?p 0))) else id)) \<circ>
         (if 2 ^ 32 \<le> unat v then \<lambda>y. y OR push_bit 16 (ucast (take_bit 16 (?p 16)))
          else (\<lambda>_. push_bit 16 (sext16 (unat (take_bit 16 (?p 16))))))
       else (if ?p 0 \<noteq> 0 \<or> unat v < 2 ^ 32
             then id \<circ> (if 2 ^ 32 \<le> unat v then \<lambda>y. y OR ucast (take_bit 16 (?p 0))
                    else (\<lambda>_. sext16 (unat (take_bit 16 (?p 0)))))
             else id))) \<circ>
      (if 2 ^ 32 \<le> unat v then id \<circ> push_bit 32 else id) \<circ>
      (if ?p 48 \<noteq> 0
       then (id \<circ> (if ?p 32 \<noteq> 0 then id \<circ> (\<lambda>y. y OR ucast (take_bit 16 (?p 32))) else id)) \<circ>
         (\<lambda>_. push_bit 16 (sext16 (unat (take_bit 16 (ucast (signed_drop_bit 48 v) :: c_int)))))
       else (if ?p 32 \<noteq> 0 then id \<circ> (\<lambda>_. sext16 (unat (take_bit 16 (?p 32)))) else id)))"
    (is "does _ _ _ ?f")
    unfolding load_64_pieces
    by (intro does_seq does_if does_when does_Nil li lis ori oris simm_ok_piece simm_ok_pieces
        does_sldi [OF y d])
  then show ?thesis
  proof (rule does_cong)
    fix y
    have top: "take_bit 16 (ucast (signed_drop_bit 48 v) :: c_int) = ?p 48" by (simp add: piece_def)
    note zero = top_zero_unat [of v] top2_zero_unat [of v] top3_zero_unat [of v]
    note join = join_64_0 [of v] join_64_1 [of v] join_64_2 [of v] join_64_3 [of v]
    consider (s) "unat v < 2 ^ 16" | (m) "2 ^ 16 \<le> unat v" "unat v < 2 ^ 32"
      | (l) "2 ^ 32 \<le> unat v" "unat v < 2 ^ 48" | (x) "2 ^ 48 \<le> unat v" by linarith
    then show "?f y = constant_loaded_64 v"
    proof cases
      case s
      then have "?p 48 = 0" "?p 32 = 0" "?p 16 = 0" using zero by auto
      with s join show ?thesis by (simp add: constant_loaded_64_def piece_take)
    next
      case m
      then have "?p 48 = 0" "?p 32 = 0" "?p 16 \<noteq> 0" using zero by auto
      with m join show ?thesis by (auto simp: constant_loaded_64_def piece_take)
    next
      case l
      then have "?p 48 = 0" "?p 32 \<noteq> 0" using zero by auto
      with l join(3) show ?thesis by (auto simp: constant_loaded_64_def piece_take or.assoc)
    next
      case x
      then have "?p 48 \<noteq> 0" using zero by auto
      with x join(4) show ?thesis by (auto simp: constant_loaded_64_def piece_take top or.assoc push_bit_or)
    qed
  qed
qed


text \<open>An instance of the documented behaviour: a decoder for the five instructions.\<close>

definition isa_exec :: "c_int \<Rightarrow> (nat \<Rightarrow> 'w::len word) \<Rightarrow> nat \<Rightarrow> 'w word" where
  "isa_exec w r =
     (let n = unat w; opcode = n div 2 ^ 26; t = n div 2 ^ 21 mod 32; a = n div 2 ^ 16 mod 32;
          d = n mod 2 ^ 16;
          sh = n div 2 ^ 11 mod 32 + 32 * (n div 2 mod 2);
          base = (if a = 0 then 0 else r a)
      in if opcode = 14 then r(t := base + sext16 d)
         else if opcode = 15 then r(t := base + push_bit 16 (sext16 d))
         else if opcode = 24 then r(a := r t OR word_of_nat d)
         else if opcode = 25 then r(a := r t OR push_bit 16 (word_of_nat d))
         else if opcode = 30 then r(a := push_bit sh (r t))
         else r)"

lemma D_word_decode:
  assumes "opc < 64" "rt < 32" "ra < 32" "d < 2 ^ 16"
  shows "unat (isa_D_word opc rt ra d) div 2 ^ 26 = opc"
    "unat (isa_D_word opc rt ra d) div 2 ^ 21 mod 32 = rt"
    "unat (isa_D_word opc rt ra d) div 2 ^ 16 mod 32 = ra"
    "unat (isa_D_word opc rt ra d) mod 2 ^ 16 = d"
proof -
  let ?n = "opc * 2 ^ 26 + rt * 2 ^ 21 + ra * 2 ^ 16 + d"
  have "?n < 2 ^ 32" using assms by simp
  then have u: "unat (isa_D_word opc rt ra d) = ?n"
    unfolding isa_D_word_def unat_of_nat by (intro mod_less) simp
  have 1: "?n div 2 ^ 26 = opc" using assms by (intro div_nat_eqI) simp_all
  have 2: "?n div 2 ^ 21 = opc * 32 + rt" using assms by (intro div_nat_eqI) simp_all
  have 3: "?n div 2 ^ 16 = (opc * 32 + rt) * 32 + ra" using assms by (intro div_nat_eqI) simp_all
  have 4: "?n = ((opc * 32 + rt) * 32 + ra) * 2 ^ 16 + d" by simp
  show "unat (isa_D_word opc rt ra d) div 2 ^ 26 = opc" unfolding u by (rule 1)
  show "unat (isa_D_word opc rt ra d) div 2 ^ 21 mod 32 = rt" unfolding u 2 using assms by (simp only: mod_mult_self3 mod_less)
  show "unat (isa_D_word opc rt ra d) div 2 ^ 16 mod 32 = ra" unfolding u 3 using assms by (simp only: mod_mult_self3 mod_less)
  show "unat (isa_D_word opc rt ra d) mod 2 ^ 16 = d" unfolding u 4 using assms by (simp only: mod_mult_self3 mod_less)
qed


definition sldi_tail :: "nat \<Rightarrow> nat" where
  "sldi_tail sh = (sh mod 32) * 2 ^ 11 + ((63 - sh) mod 32) * 2 ^ 6 + ((63 - sh) div 32) * 2 ^ 5 +
     1 * 2 ^ 2 + (sh div 32) * 2"

lemma sldi_as_D: "isa_sldi_word rs ra sh = isa_D_word 30 rs ra (sldi_tail sh)"
  by (simp add: isa_sldi_word_def isa_D_word_def sldi_tail_def add.assoc)

lemma sldi_tail_all:
  "list_all (\<lambda>sh. sldi_tail sh < 2 ^ 16 \<and> sldi_tail sh div 2 ^ 11 mod 32 + 32 * (sldi_tail sh div 2 mod 2) = sh) [0..<64]"
  by (simp add: upt_rec sldi_tail_def)

lemma low_fields:
  "(n :: nat) div 2 ^ 11 mod 32 = n mod 2 ^ 16 div 2 ^ 11 mod 32"
  "n div 2 mod 2 = n mod 2 ^ 16 div 2 mod 2"
proof -
  define a t where "a = n div 2 ^ 16" and "t = n mod 2 ^ 16"
  then have n: "n = a * 2 ^ 16 + t" by simp
  have 1: "(a * 2 ^ 16 + t) div 2 ^ 11 = a * 32 + t div 2 ^ 11"
    using div_mult_self3 [of "2 ^ 11" "a * 32" t] by simp
  have 2: "(a * 2 ^ 16 + t) div 2 = a * 2 ^ 14 * 2 + t div 2"
    using div_mult_self3 [of 2 "a * 2 ^ 15" t] by simp
  show "n div 2 ^ 11 mod 32 = n mod 2 ^ 16 div 2 ^ 11 mod 32"
    unfolding t_def [symmetric] by (subst n, subst 1) (rule mod_mult_self3)
  show "n div 2 mod 2 = n mod 2 ^ 16 div 2 mod 2"
    unfolding t_def [symmetric] by (subst n, subst 2) (rule mod_mult_self3)
qed

lemma sldi_decode:
  assumes "rs < 32" "ra < 32" "sh < 64"
  shows "unat (isa_sldi_word rs ra sh) div 2 ^ 26 = 30"
    "unat (isa_sldi_word rs ra sh) div 2 ^ 21 mod 32 = rs"
    "unat (isa_sldi_word rs ra sh) div 2 ^ 16 mod 32 = ra"
    "unat (isa_sldi_word rs ra sh) div 2 ^ 11 mod 32 + 32 * (unat (isa_sldi_word rs ra sh) div 2 mod 2) = sh"
proof -
  have t: "sldi_tail sh < 2 ^ 16" "sldi_tail sh div 2 ^ 11 mod 32 + 32 * (sldi_tail sh div 2 mod 2) = sh"
    using sldi_tail_all assms(3) by (auto simp: list_all_iff)
  note D = D_word_decode [of 30 rs ra "sldi_tail sh"]
  show "unat (isa_sldi_word rs ra sh) div 2 ^ 26 = 30"
    "unat (isa_sldi_word rs ra sh) div 2 ^ 21 mod 32 = rs"
    "unat (isa_sldi_word rs ra sh) div 2 ^ 16 mod 32 = ra"
    unfolding sldi_as_D using D assms t by simp_all
  have m: "unat (isa_sldi_word rs ra sh) mod 2 ^ 16 = sldi_tail sh"
    unfolding sldi_as_D using D assms t by simp
  with t m show "unat (isa_sldi_word rs ra sh) div 2 ^ 11 mod 32 + 32 * (unat (isa_sldi_word rs ra sh) div 2 mod 2) = sh"
    using low_fields by metis
qed

lemma isa_exec_immediates: "isa_immediates isa_exec"
proof -
  note D = D_word_decode [of 14] D_word_decode [of 15] D_word_decode [of 24] D_word_decode [of 25]
  show ?thesis
    unfolding isa_immediates_def by (simp add: isa_exec_def D [simplified] Let_def)
qed

lemma isa_exec_sldi: "isa_sldi isa_exec"
  unfolding isa_sldi_def by (auto simp: isa_exec_def sldi_decode [simplified] Let_def)


section \<open>Properties\<close>

lemma sext_fixed: "fits n v \<Longrightarrow> signed_take_bit n v = (v :: 'w::len word)"
  by (rule bit_word_eqI) (auto simp: fits_iff_bit bit_signed_take_bit_iff min_def)

lemma sext_moved:
  "n + 1 < LENGTH('w) \<Longrightarrow> \<not> fits n v \<Longrightarrow> fits (n + 1) v \<Longrightarrow> signed_take_bit n v \<noteq> (v :: 'w::len word)"
proof
  assume n: "n + 1 < LENGTH('w)" and v: "\<not> fits n v" "fits (n + 1) v" and e: "signed_take_bit n v = v"
  from v have "bit v n" by (auto simp: fits_iff_bit) (metis less_antisym)
  with n have "bit (signed_take_bit n v) (n + 1)" by (simp add: bit_signed_take_bit_iff min_def)
  with e v show False by (auto simp: fits_iff_bit)
qed

lemma sext_eq_iff:
  "n + 1 < LENGTH('w) \<Longrightarrow> fits (n + 1) v \<Longrightarrow> signed_take_bit n v = v \<longleftrightarrow> fits n (v :: 'w::len word)"
  using sext_fixed sext_moved by blast

lemma constant_loaded_32_exact:
  "constant_loaded_32 v = v \<longleftrightarrow> \<not> (2 ^ 15 \<le> unat v \<and> unat v < 2 ^ 16)"
  using sext_eq_iff [of 15 v] by (auto simp: constant_loaded_32_def fits_unat not_le)

lemma constant_loaded_64_exact:
  "constant_loaded_64 v = v \<longleftrightarrow>
     \<not> (2 ^ 15 \<le> unat v \<and> unat v < 2 ^ 16 \<or> 2 ^ 31 \<le> unat v \<and> unat v < 2 ^ 32 \<or>
        2 ^ 47 \<le> unat v \<and> unat v < 2 ^ 48)"
proof -
  have "unat v < 2 ^ 16 \<Longrightarrow> signed_take_bit 15 v = v \<longleftrightarrow> unat v < 2 ^ 15"
    "unat v < 2 ^ 32 \<Longrightarrow> signed_take_bit 31 v = v \<longleftrightarrow> unat v < 2 ^ 31"
    "unat v < 2 ^ 48 \<Longrightarrow> signed_take_bit 47 v = v \<longleftrightarrow> unat v < 2 ^ 47"
    using sext_eq_iff [of 15 v] sext_eq_iff [of 31 v] sext_eq_iff [of 47 v] by (simp_all add: fits_unat)
  then show ?thesis by (simp add: constant_loaded_64_def) linarith
qed

lemma masm_load_emits_32:
  assumes "isa_immediates exec" "unat d < 32"
  obtains ws where "emits (masm_load PPC32 (as_Register d) value :: 'a emitter) ws"
    "\<And>r. fold exec ws r = r(unat d := constant_loaded_32 (word_of_int value))"
  using load_32 [OF assms, where v = "word_of_int value"] by (auto simp: does_def masm_load_def)

lemma masm_load_emits_64:
  assumes "isa_immediates exec" "isa_sldi exec" "unat d < 32"
  obtains ws where "emits (masm_load PPC64 (as_Register d) value :: 'a emitter) ws"
    "\<And>r. fold exec ws r = r(unat d := constant_loaded_64 (word_of_int value))"
  using load_64 [OF assms, where v = "word_of_int value"] by (auto simp: does_def masm_load_def)

text \<open>C21. On the 32-bit flavour \<^verbatim>\<open>MacroAssembler::load\<close> emits, for every register and every
  constant, a sequence without branches that changes no other register and leaves in the
  register exactly the constant, except for the constants from 2^15 to 2^16 - 1: those are
  loaded with \<^verbatim>\<open>li\<close>, which sign-extends them.\<close>

theorem load_constant_32:
  fixes exec :: "c_int \<Rightarrow> (nat \<Rightarrow> 32 word) \<Rightarrow> nat \<Rightarrow> 32 word"
  assumes "isa_immediates exec" "unat d < 32"
  shows "\<exists>ws. emits (masm_load PPC32 (as_Register d) value :: 'a emitter) ws \<and>
    (\<forall>r. (\<forall>i. i \<noteq> unat d \<longrightarrow> fold exec ws r i = r i) \<and>
      (fold exec ws r (unat d) = word_of_int value \<longleftrightarrow>
        \<not> (2 ^ 15 \<le> unat (word_of_int value :: 32 word) \<and> unat (word_of_int value :: 32 word) < 2 ^ 16)))"
proof -
  obtain ws where "emits (masm_load PPC32 (as_Register d) value :: 'a emitter) ws"
    "\<And>r. fold exec ws r = r(unat d := constant_loaded_32 (word_of_int value))"
    using masm_load_emits_32 [OF assms] by blast
  then show ?thesis
    by (intro exI [of _ ws]) (simp add: constant_loaded_32_exact [simplified])
qed

theorem load_constant_32_witness:
  "\<exists>ws. emits (masm_load PPC32 (as_Register 3) 0x12345678 :: 'a emitter) ws \<and>
    (\<forall>r. (\<forall>i. i \<noteq> 3 \<longrightarrow> fold isa_exec ws r i = r i) \<and> fold isa_exec ws r 3 = (0x12345678 :: 32 word))"
  using load_constant_32 [OF isa_exec_immediates, of 3 "0x12345678"] by simp

text \<open>C15. On the 64-bit flavour the same holds, and the constants that are loaded wrongly are
  exactly those whose highest non-zero 16-bit piece has its top bit set, the topmost piece
  apart: 2^15 to 2^16 - 1, 2^31 to 2^32 - 1 and 2^47 to 2^48 - 1.\<close>

theorem load_constant_64:
  fixes exec :: "c_int \<Rightarrow> (nat \<Rightarrow> 64 word) \<Rightarrow> nat \<Rightarrow> 64 word"
  assumes "isa_immediates exec" "isa_sldi exec" "unat d < 32" "unat v = u"
  shows "\<exists>ws. emits (masm_load PPC64 (as_Register d) (sint v) :: 'a emitter) ws \<and>
    (\<forall>r. (\<forall>i. i \<noteq> unat d \<longrightarrow> fold exec ws r i = r i) \<and>
      (fold exec ws r (unat d) = v \<longleftrightarrow>
        \<not> (2 ^ 15 \<le> u \<and> u < 2 ^ 16 \<or> 2 ^ 31 \<le> u \<and> u < 2 ^ 32 \<or> 2 ^ 47 \<le> u \<and> u < 2 ^ 48)))"
proof -
  obtain ws where "emits (masm_load PPC64 (as_Register d) (sint v) :: 'a emitter) ws"
    "\<And>r. fold exec ws r = r(unat d := constant_loaded_64 v)"
    using masm_load_emits_64 [OF assms(1-3), of "sint v"] by auto
  then show ?thesis
    by (intro exI [of _ ws]) (simp add: constant_loaded_64_exact [simplified] assms(4))
qed

theorem load_constant_64_witness:
  "\<exists>ws. emits (masm_load PPC64 (as_Register 3) 0x7fffffff :: 'a emitter) ws \<and>
    (\<forall>r. (\<forall>i. i \<noteq> 3 \<longrightarrow> fold isa_exec ws r i = r i) \<and> fold isa_exec ws r 3 = (0x7fffffff :: 64 word))"
  using load_constant_64 [OF isa_exec_immediates isa_exec_sldi, where d = 3 and v = "0x7fffffff" and u = "0x7fffffff" and 'a = 'a] by simp

end
