(* ===== verification/Disassembly.thy ===== *)
theory Disassembly
  imports Disassembler LoadConst
begin

text \<open>
  Round trips from the assembler to the disassembler: what an instruction emitted by
  \<^verbatim>\<open>Assembler\<close> is printed as.
\<close>

section \<open>Reading fields\<close>

lemma push_mask: "push_bit n 1 - 1 = (mask n :: c_int)"
  by (simp add: push_bit_eq_mult mask_eq_exp_minus_1)

lemma c_shr_mask:
  assumes "b + n \<le> 32"
  shows "c_shr w b AND mask n = fld b n w"
proof (rule bit_word_eqI)
  fix i
  have "min (i + b) 31 = i + b" if "i < n" using assms that by simp
  then show "bit (c_shr w b AND mask n) i = bit (fld b n w) i"
    using assms by (auto simp: c_shr_def fld_def bit_simps add.commute)
qed

lemma ip_read_eq:
  "n \<le> b \<Longrightarrow> b \<le> 32 \<Longrightarrow>
    ip_read n k \<lparr>ip_addr = a, ip_instruction = w, ip_bits = int b\<rparr> =
    k (fld (b - n) n w) \<lparr>ip_addr = a, ip_instruction = w, ip_bits = int (b - n)\<rparr>"
  using c_shr_mask [of "b - n" n w]
  unfolding ip_read_def push_mask by (simp add: of_nat_diff nat_diff_distrib' asserted_def Let_def)

definition sx :: "nat \<Rightarrow> c_int \<Rightarrow> c_int" where
  "sx n v = (if v AND push_bit (n - 1) 1 \<noteq> 0 then v OR NOT (push_bit n 1 - 1) else v)"

lemma ip_read_at:
  assumes "int n \<le> b" "b \<le> 32"
  shows "ip_read n k \<lparr>ip_addr = a, ip_instruction = w, ip_bits = b\<rparr> =
    k (fld (nat (b - int n)) n w) \<lparr>ip_addr = a, ip_instruction = w, ip_bits = b - int n\<rparr>"
  using ip_read_eq [of n "nat b" k a w] assms by (simp add: nat_diff_distrib)

lemma ip_read_signed_eq: "ip_read_signed n k = ip_read n (\<lambda>v. k (sx n v))"
  by (simp add: ip_read_signed_def sx_def)

lemma sx_take_bit:
  assumes "0 < n" "n \<le> 32"
  shows "sx n (take_bit n x) = signed_take_bit (n - 1) x"
proof (rule bit_word_eqI)
  fix i
  assume i: "i < LENGTH(32)"
  have s: "take_bit n x AND push_bit (n - 1) 1 \<noteq> 0 \<longleftrightarrow> bit x (n - 1)"
    using assms by (auto simp: and_exp_eq_0_iff_not_bit bit_simps push_bit_of_1)
  have m: "bit (x OR y) j \<longleftrightarrow> bit x j \<or> bit y j" for x y :: c_int and j by (rule bit_or_iff)
  consider "i < n - 1" | "i = n - 1" | "n \<le> i" using assms(1) by linarith
  then show "bit (sx n (take_bit n x)) i = bit (signed_take_bit (n - 1) x) i"
    using assms i unfolding sx_def push_mask s
    by cases (auto simp: bit_take_bit_iff bit_signed_take_bit_iff m bit_not_iff bit_mask_iff)
qed

lemma ip_opcode_eq: "ip_opcode \<lparr>ip_addr = a, ip_instruction = w, ip_bits = b\<rparr> = fld 26 6 w"
  using c_shr_mask [of 26 6 w] by (simp add: ip_opcode_def mask_eq_exp_minus_1)

lemma ip_extended_opcode_eq:
  "ip_extended_opcode \<lparr>ip_addr = a, ip_instruction = w, ip_bits = b\<rparr> =
    (let opc = fld 26 6 w
     in if opc = 19 \<or> opc = 31 \<or> opc = 63 then fld 1 10 w
        else if opc = 30 then fld 2 3 w
        else if opc = 58 \<or> opc = 62 then fld 0 2 w else - 1)"
  using c_shr_mask [of 1 10 w] c_shr_mask [of 2 3 w] c_shr_mask [of 0 2 w]
  by (simp add: ip_extended_opcode_def ip_opcode_eq mask_eq_exp_minus_1 c_shr_def)

section \<open>Looking definitions up\<close>

definition lookup :: "c_int \<Rightarrow> c_int \<Rightarrow> InstructionDefinition option" where
  "lookup opc xo = find (\<lambda>d. opc = def_opcode d \<and> xo = def_extended_opcode d) definitions"

lemma print_instruction_at_eq:
  "print_instruction_at fmt_p addr w =
    (case lookup (ip_opcode (mk_InstructionParser addr w)) (ip_extended_opcode (mk_InstructionParser addr w)) of
       Some d \<Rightarrow> call_printer fmt_p d (mk_InstructionParser addr w)
     | None \<Rightarrow> Inr (''.long 0x'' @ fmt_hex 8 (unat w)))"
proof -
  have "print_instruction_loop fmt_p ds q =
    (case find (\<lambda>d. ip_opcode q = def_opcode d \<and> ip_extended_opcode q = def_extended_opcode d) ds of
       Some d \<Rightarrow> call_printer fmt_p d q
     | None \<Rightarrow> Inr (''.long 0x'' @ fmt_hex 8 (unat (ip_instruction q))))" for ds q
    by (induction ds) auto
  moreover have "ip_instruction (mk_InstructionParser addr w) = w" by (simp add: mk_InstructionParser_def)
  ultimately show ?thesis
    by (simp only: print_instruction_at_def lookup_def)
qed


lemmas parse_simps = ip_read_at ip_read_signed_eq ip_read_reg_def ip_read_xo_def ip_opcode_eq
  ip_extended_opcode_eq mk_InstructionParser_def

lemmas printer_defs = do_print_B_bc_def do_print_I_b_def do_print_D_reg_reg_simm_def
  do_print_D_reg_reg_uimm_def do_print_D_reg_addr_def do_print_D_freg_addr_def
  do_print_DS_reg_addr_def do_print_X_bcspr_def do_print_M_def do_print_MD_def
  do_print_X_reg_reg_reg_def do_print_X_reg_regorzero_reg_def do_print_X_res_regorzero_reg_def
  do_print_X_reg_reg_res_def do_print_X_reg_res_res_def do_print_X_switched_regreg_reg_def
  do_print_X_switched_regreg_def do_print_X_reserved_def do_print_X_cmp_def do_print_D_cmpi_def
  do_print_X_mspr_def do_print_X_mtcrf_def do_print_X_freg_res_freg_def

lemmas lookup_simps = lookup_def definitions_def def_plain_def def_xo_def

definition disassembles :: "'w::len word emitter \<Rightarrow> string \<Rightarrow> bool" where
  "disassembles e text \<longleftrightarrow> (\<exists>w. emits e [w] \<and>
     (\<forall>fmt_p (addr :: 'w word). print_instruction_at fmt_p addr w = Inr text))"

lemma print_X:
  assumes "fits 6 opc" "fits 5 a" "fits 5 b" "fits 5 c" "fits 10 xo" "opc = 19 \<or> opc = 31 \<or> opc = 63"
    "lookup opc xo = Some d"
  shows "print_instruction_at fmt_p addr (X_form opc a b c xo rc) =
    call_printer fmt_p d \<lparr>ip_addr = addr, ip_instruction = X_form opc a b c xo rc, ip_bits = 26\<rparr>"
  using X_form_fields [OF assms(1-5), of rc] assms(6,7)
  by (auto simp: print_instruction_at_eq parse_simps Let_def)

lemma fits_X: "fits 6 (31 :: c_int)" "fits 6 (19 :: c_int)" "fits 6 (63 :: c_int)"
  by (simp_all add: fits_unat)

text \<open>The operands of an X-form instruction that the emitters accept.\<close>

definition X_ok :: "c_int \<Rightarrow> c_int \<Rightarrow> c_int \<Rightarrow> c_int \<Rightarrow> c_int \<Rightarrow> bool" where
  "X_ok opc a b c xo \<longleftrightarrow> unat a < 32 \<and> unat b < 32 \<and> unat c < 32 \<and> unat xo < 1024 \<and>
     (opc = 19 \<or> opc = 31 \<or> opc = 63)"

lemma X_okD:
  assumes "X_ok opc a b c xo"
  shows "fits 6 opc" "fits 5 a" "fits 5 b" "fits 5 c" "fits 10 xo" "opc = 19 \<or> opc = 31 \<or> opc = 63"
  using assms fits_X by (auto simp: X_ok_def fits_unat)

definition X_parser :: "'w::len word \<Rightarrow> c_int \<Rightarrow> c_int \<Rightarrow> c_int \<Rightarrow> c_int \<Rightarrow> c_int \<Rightarrow> bool \<Rightarrow> 'w word InstructionParser" where
  "X_parser addr opc a b c xo rc = \<lparr>ip_addr = addr, ip_instruction = X_form opc a b c xo rc, ip_bits = 26\<rparr>"

lemma disassembles_X:
  fixes e :: "'w::len word emitter"
  assumes "X_ok opc a b c xo" "\<And>s. e s = emit_X opc a b c xo rc s" "lookup opc xo = Some d"
    "\<And>fmt_p (addr :: 'w word). call_printer fmt_p d (X_parser addr opc a b c xo rc) = Inr text"
  shows "disassembles e text"
proof -
  note f = X_okD [OF assms(1)]
  have "emits e [X_form opc a b c xo rc]"
    using emit_X_emits [OF f(1-5), of rc] assms(2) by (simp add: emits_def)
  moreover have "print_instruction_at fmt_p addr (X_form opc a b c xo rc) = Inr text" for fmt_p and addr :: "'w word"
    using print_X [OF f assms(3), of fmt_p addr rc] assms(4) [unfolded X_parser_def] by simp
  ultimately show ?thesis
    unfolding disassembles_def X_parser_def by (intro exI [of _ "X_form opc a b c xo rc"]) simp
qed

text \<open>What each printer of X-form instructions writes.\<close>

definition rc_dot :: "bool \<Rightarrow> string" where
  "rc_dot rc = (if rc then ''.'' else [])"

lemma rc_dot_simps [simp]: "rc_dot True = ''.''" "rc_dot False = []"
  by (simp_all add: rc_dot_def)

lemma print_X_forms:
  fixes addr :: "'w::len word" and rc :: bool
  assumes ok: "X_ok opc a b c xo"
  defines "p \<equiv> X_parser addr opc a b c xo rc"
  shows "call_printer fmt_p (def_xo opc xo mn print_X_reg_reg_reg) p =
      Inr ((if xo = 40 then ''sub'' else mn) @ rc_dot rc @ '' r'' @ fmt_d a @ '', r'' @
        fmt_d (if xo = 40 then c else b) @ '', r'' @ fmt_d (if xo = 40 then b else c))"
    "xo \<noteq> 40 \<Longrightarrow> call_printer fmt_p (def_xo opc xo mn print_X_reg_regorzero_reg) p =
      Inr (mn @ rc_dot rc @ '' r'' @ fmt_d a @ '', '' @ reg_or_zero b @ '', r'' @ fmt_d c)"
    "a = 0 \<Longrightarrow> call_printer fmt_p (def_xo opc xo mn print_X_res_regorzero_reg) p =
      Inr (mn @ rc_dot rc @ '' '' @ reg_or_zero b @ '', r'' @ fmt_d c)"
    "c = 0 \<Longrightarrow> call_printer fmt_p (def_xo opc xo mn print_X_reg_reg_res) p =
      Inr (mn @ rc_dot rc @ '' r'' @ fmt_d a @ '', r'' @ fmt_d b)"
    "b = 0 \<Longrightarrow> c = 0 \<Longrightarrow> call_printer fmt_p (def_xo opc xo mn print_X_reg_res_res) p =
      Inr (mn @ rc_dot rc @ '' r'' @ fmt_d a)"
    "call_printer fmt_p (def_xo opc xo mn print_X_switched_regreg_reg) p =
      Inr (if xo = 444 \<and> a = c \<and> \<not> rc then ''mr r'' @ fmt_d b @ '', r'' @ fmt_d c
           else mn @ rc_dot rc @ '' r'' @ fmt_d b @ '', r'' @ fmt_d a @ '', r'' @ fmt_d c)"
    "c = 0 \<Longrightarrow> call_printer fmt_p (def_xo opc xo mn print_X_switched_regreg) p =
      Inr (mn @ rc_dot rc @ '' r'' @ fmt_d b @ '', r'' @ fmt_d a)"
    "a = 0 \<Longrightarrow> b = 0 \<Longrightarrow> c = 0 \<Longrightarrow> \<not> rc \<Longrightarrow> call_printer fmt_p (def_xo opc xo mn print_X_reserved) p = Inr mn"
    "b = 0 \<Longrightarrow> call_printer fmt_p (def_xo opc xo mn print_X_freg_res_freg) p =
      Inr (mn @ rc_dot rc @ '' f'' @ fmt_d a @ '', f'' @ fmt_d c)"
  using X_form_fields [OF X_okD(1-5) [OF ok], of rc] X_okD(6) [OF ok]
  by (auto simp: p_def X_parser_def call_printer_def def_xo_def printer_defs parse_simps Let_def dot_def rc_dot_def)


lemma X_ok_31: "X_ok 31 a b c xo \<longleftrightarrow> unat a < 32 \<and> unat b < 32 \<and> unat c < 32 \<and> unat xo < 1024"
  by (simp add: X_ok_def)

text \<open>Operand lists.\<close>

definition text_r :: "string \<Rightarrow> c_int \<Rightarrow> string" where
  "text_r mn a = mn @ '' r'' @ fmt_d a"

definition text_rr :: "string \<Rightarrow> c_int \<Rightarrow> c_int \<Rightarrow> string" where
  "text_rr mn a b = mn @ '' r'' @ fmt_d a @ '', r'' @ fmt_d b"

definition text_rrr :: "string \<Rightarrow> c_int \<Rightarrow> c_int \<Rightarrow> c_int \<Rightarrow> string" where
  "text_rrr mn a b c = mn @ '' r'' @ fmt_d a @ '', r'' @ fmt_d b @ '', r'' @ fmt_d c"

definition text_rzr :: "string \<Rightarrow> c_int \<Rightarrow> c_int \<Rightarrow> c_int \<Rightarrow> string" where
  "text_rzr mn a b c = mn @ '' r'' @ fmt_d a @ '', '' @ reg_or_zero b @ '', r'' @ fmt_d c"

lemmas text_simps = text_r_def text_rr_def text_rrr_def text_rzr_def

lemma X_reg_reg_reg:
  fixes e :: "'w::len word emitter"
  assumes "unat a < 32" "unat b < 32" "unat c < 32" "unat xo < 1024"
    "\<And>s. e s = emit_X 31 a b c xo rc s"
  shows "lookup 31 xo = Some (def_xo 31 xo mn print_X_reg_reg_reg) \<Longrightarrow> xo \<noteq> 40 \<Longrightarrow>
      disassembles e (text_rrr (mn @ rc_dot rc) a b c)"
    "lookup 31 xo = Some (def_xo 31 xo mn print_X_reg_reg_reg) \<Longrightarrow> xo = 40 \<Longrightarrow>
      disassembles e (text_rrr (''sub'' @ rc_dot rc) a c b)"
    "lookup 31 xo = Some (def_xo 31 xo mn print_X_reg_regorzero_reg) \<Longrightarrow> xo \<noteq> 40 \<Longrightarrow>
      disassembles e (text_rzr (mn @ rc_dot rc) a b c)"
    "lookup 31 xo = Some (def_xo 31 xo mn print_X_switched_regreg_reg) \<Longrightarrow>
      disassembles e (if xo = 444 \<and> a = c \<and> \<not> rc then text_rr ''mr'' b c else text_rrr (mn @ rc_dot rc) b a c)"
    "lookup 31 xo = Some (def_xo 31 xo mn print_X_switched_regreg) \<Longrightarrow> c = 0 \<Longrightarrow>
      disassembles e (text_rr (mn @ rc_dot rc) b a)"
    "lookup 31 xo = Some (def_xo 31 xo mn print_X_reg_reg_res) \<Longrightarrow> c = 0 \<Longrightarrow>
      disassembles e (text_rr (mn @ rc_dot rc) a b)"
    "lookup 31 xo = Some (def_xo 31 xo mn print_X_reg_res_res) \<Longrightarrow> b = 0 \<Longrightarrow> c = 0 \<Longrightarrow>
      disassembles e (text_r (mn @ rc_dot rc) a)"
proof -
  have ok: "X_ok 31 a b c xo" using assms by (simp add: X_ok_31)
  note F = print_X_forms [OF ok] and D = disassembles_X [OF ok assms(5)]
  show "lookup 31 xo = Some (def_xo 31 xo mn print_X_reg_reg_reg) \<Longrightarrow> xo \<noteq> 40 \<Longrightarrow>
      disassembles e (text_rrr (mn @ rc_dot rc) a b c)"
    by (rule D, assumption, subst F) (simp_all add: text_simps)
  show "lookup 31 xo = Some (def_xo 31 xo mn print_X_reg_reg_reg) \<Longrightarrow> xo = 40 \<Longrightarrow>
      disassembles e (text_rrr (''sub'' @ rc_dot rc) a c b)"
    by (rule D, assumption, subst F) (simp_all add: text_simps)
  show "lookup 31 xo = Some (def_xo 31 xo mn print_X_reg_regorzero_reg) \<Longrightarrow> xo \<noteq> 40 \<Longrightarrow>
      disassembles e (text_rzr (mn @ rc_dot rc) a b c)"
    by (rule D, assumption, subst F) (simp_all add: text_simps)
  show "lookup 31 xo = Some (def_xo 31 xo mn print_X_switched_regreg_reg) \<Longrightarrow>
      disassembles e (if xo = 444 \<and> a = c \<and> \<not> rc then text_rr ''mr'' b c else text_rrr (mn @ rc_dot rc) b a c)"
    by (rule D, assumption, subst F) (simp_all add: text_simps)
  show "lookup 31 xo = Some (def_xo 31 xo mn print_X_switched_regreg) \<Longrightarrow> c = 0 \<Longrightarrow>
      disassembles e (text_rr (mn @ rc_dot rc) b a)"
    by (rule D, assumption, subst F) (simp_all add: text_simps)
  show "lookup 31 xo = Some (def_xo 31 xo mn print_X_reg_reg_res) \<Longrightarrow> c = 0 \<Longrightarrow>
      disassembles e (text_rr (mn @ rc_dot rc) a b)"
    by (rule D, assumption, subst F) (simp_all add: text_simps)
  show "lookup 31 xo = Some (def_xo 31 xo mn print_X_reg_res_res) \<Longrightarrow> b = 0 \<Longrightarrow> c = 0 \<Longrightarrow>
      disassembles e (text_r (mn @ rc_dot rc) a)"
    by (rule D, assumption, subst F) (simp_all add: text_simps)
qed

lemma emit_X_RRR_valid:
  "unat a < 32 \<Longrightarrow> unat b < 32 \<Longrightarrow> unat c < 32 \<Longrightarrow>
    emit_X_RRR opc (as_Register a) (as_Register b) (as_Register c) xo rc s = emit_X opc a b c xo rc s"
  by (simp add: emit_X_RRR_def)

lemma enc_valid: "Register_encoding (as_Register 0) = Inr 0"
  by simp

lemma X31_lookups:
  "lookup 31 266 = Some (def_xo 31 266 ''add'' print_X_reg_reg_reg)"
  "lookup 31 40 = Some (def_xo 31 40 ''subf'' print_X_reg_reg_reg)"
  "lookup 31 444 = Some (def_xo 31 444 ''or'' print_X_switched_regreg_reg)"
  "lookup 31 104 = Some (def_xo 31 104 ''neg'' print_X_reg_reg_res)"
  "lookup 31 922 = Some (def_xo 31 922 ''extsh'' print_X_switched_regreg)"
  "lookup 31 954 = Some (def_xo 31 954 ''extsb'' print_X_switched_regreg)"
  "lookup 31 986 = Some (def_xo 31 986 ''extsw'' print_X_switched_regreg)"
  "lookup 31 19 = Some (def_xo 31 19 ''mfcr'' print_X_reg_res_res)"
  "lookup 31 20 = Some (def_xo 31 20 ''lwarx'' print_X_reg_regorzero_reg)"
  "lookup 31 21 = Some (def_xo 31 21 ''ldx'' print_X_reg_regorzero_reg)"
  "lookup 31 23 = Some (def_xo 31 23 ''lwzx'' print_X_reg_regorzero_reg)"
  "lookup 31 84 = Some (def_xo 31 84 ''ldarx'' print_X_reg_regorzero_reg)"
  "lookup 31 87 = Some (def_xo 31 87 ''lbzx'' print_X_reg_regorzero_reg)"
  "lookup 31 150 = Some (def_xo 31 150 ''stwcx'' print_X_reg_regorzero_reg)"
  "lookup 31 151 = Some (def_xo 31 151 ''stwx'' print_X_reg_regorzero_reg)"
  "lookup 31 181 = Some (def_xo 31 181 ''stdux'' print_X_reg_regorzero_reg)"
  "lookup 31 183 = Some (def_xo 31 183 ''stwux'' print_X_reg_regorzero_reg)"
  "lookup 31 214 = Some (def_xo 31 214 ''stdcx'' print_X_reg_regorzero_reg)"
  "lookup 31 279 = Some (def_xo 31 279 ''lhzx'' print_X_reg_regorzero_reg)"
  by (simp_all add: lookup_simps)



section \<open>Memory operands and immediates\<close>

lemma lookup_plain:
  "lookup 8 (- 1) = Some (def_plain 8 ''subfic'' print_D_reg_reg_simm)"
  "lookup 11 (- 1) = Some (def_plain 11 ''cmpi'' print_D_cmpi)"
  "lookup 14 (- 1) = Some (def_plain 14 ''addi'' print_D_reg_reg_simm)"
  "lookup 15 (- 1) = Some (def_plain 15 ''addis'' print_D_reg_reg_simm)"
  "lookup 16 (- 1) = Some (def_plain 16 ''bc'' print_B_bc)"
  "lookup 18 (- 1) = Some (def_plain 18 ''b'' print_I_b)"
  "lookup 21 (- 1) = Some (def_plain 21 ''rlwinm'' print_M)"
  "lookup 24 (- 1) = Some (def_plain 24 ''ori'' print_D_reg_reg_uimm)"
  "lookup 25 (- 1) = Some (def_plain 25 ''oris'' print_D_reg_reg_uimm)"
  "lookup 28 (- 1) = Some (def_plain 28 ''andi.'' print_D_reg_reg_uimm)"
  "lookup 32 (- 1) = Some (def_plain 32 ''lwz'' print_D_reg_addr)"
  "lookup 36 (- 1) = Some (def_plain 36 ''stw'' print_D_reg_addr)"
  "lookup 37 (- 1) = Some (def_plain 37 ''stwu'' print_D_reg_addr)"
  "lookup 40 (- 1) = Some (def_plain 40 ''lhz'' print_D_reg_addr)"
  "lookup 48 (- 1) = Some (def_plain 48 ''lfs'' print_D_freg_addr)"
  "lookup 50 (- 1) = Some (def_plain 50 ''lfd'' print_D_freg_addr)"
  "lookup 52 (- 1) = Some (def_plain 52 ''stfs'' print_D_freg_addr)"
  "lookup 54 (- 1) = Some (def_plain 54 ''stfd'' print_D_freg_addr)"
  "lookup 58 0 = Some (def_xo 58 0 ''ld'' print_DS_reg_addr)"
  "lookup 62 0 = Some (def_xo 62 0 ''std'' print_DS_reg_addr)"
  "lookup 62 1 = Some (def_xo 62 1 ''stdu'' print_DS_reg_addr)"
  by (simp_all add: lookup_simps)

lemma fits6: "unat (opc :: c_int) < 64 \<Longrightarrow> fits 6 opc"
  by (simp add: fits_unat)

definition D_parser :: "'w::len word \<Rightarrow> c_int \<Rightarrow> c_int \<Rightarrow> c_int \<Rightarrow> c_int \<Rightarrow> 'w word InstructionParser" where
  "D_parser addr opc a b c = \<lparr>ip_addr = addr, ip_instruction = D_form opc a b c, ip_bits = 26\<rparr>"

definition D_ok :: "c_int \<Rightarrow> c_int \<Rightarrow> c_int \<Rightarrow> c_int \<Rightarrow> bool" where
  "D_ok opc a b c \<longleftrightarrow> unat opc < 64 \<and> unat a < 32 \<and> unat b < 32 \<and> fits 16 c \<and>
     opc \<notin> {19, 30, 31, 58, 62, 63}"

lemma D_okD: "D_ok opc a b c \<Longrightarrow> fits 6 opc" "D_ok opc a b c \<Longrightarrow> fits 5 a"
  "D_ok opc a b c \<Longrightarrow> fits 5 b" "D_ok opc a b c \<Longrightarrow> fits 16 c" "D_ok opc a b c \<Longrightarrow> opc \<notin> {19, 30, 31, 58, 62, 63}"
  by (auto simp: D_ok_def fits_unat)

lemma disassembles_D:
  fixes e :: "'w::len word emitter"
  assumes "D_ok opc a b c" "emits e [D_form opc a b c]" "lookup opc (- 1) = Some d"
    "\<And>fmt_p (addr :: 'w word). call_printer fmt_p d (D_parser addr opc a b c) = Inr text"
  shows "disassembles e text"
proof -
  note f = D_okD [OF assms(1)]
  have "print_instruction_at fmt_p addr (D_form opc a b c) = Inr text" for fmt_p and addr :: "'w word"
    using D_form_fields [OF f(1-4)] f(5) assms(3) assms(4) [of fmt_p addr, unfolded D_parser_def]
    by (simp add: print_instruction_at_eq parse_simps Let_def)
  with assms(2) show ?thesis
    unfolding disassembles_def by (intro exI [of _ "D_form opc a b c"]) simp
qed

lemma print_D_forms:
  fixes addr :: "'w::len word"
  assumes ok: "D_ok opc a b c"
  shows "call_printer fmt_p (def_plain opc mn print_D_reg_addr) (D_parser addr opc a b c) =
      Inr (mn @ '' r'' @ fmt_d a @ '', '' @ fmt_d (signed_take_bit 15 c) @ ''('' @ reg_or_zero b @ '')'')"
    "call_printer fmt_p (def_plain opc mn print_D_freg_addr) (D_parser addr opc a b c) =
      Inr (mn @ '' f'' @ fmt_d a @ '', '' @ fmt_d (signed_take_bit 15 c) @ ''('' @ reg_or_zero b @ '')'')"
    "call_printer fmt_p (def_plain opc mn print_D_reg_reg_uimm) (D_parser addr opc a b c) =
      Inr (if opc = 24 \<and> a = 0 \<and> b = 0 \<and> c = 0 then ''nop''
           else mn @ '' r'' @ fmt_d b @ '', r'' @ fmt_d a @ '', '' @ fmt_d c)"
    "b = 0 \<Longrightarrow> opc = 14 \<Longrightarrow> call_printer fmt_p (def_plain opc mn print_D_reg_reg_simm) (D_parser addr opc a b c) =
      Inr (''li r'' @ fmt_d a @ '', '' @ fmt_d (signed_take_bit 15 c))"
    "b = 0 \<Longrightarrow> opc = 15 \<Longrightarrow> call_printer fmt_p (def_plain opc mn print_D_reg_reg_simm) (D_parser addr opc a b c) =
      Inr (''lis r'' @ fmt_d a @ '', '' @ fmt_d (signed_take_bit 15 c))"
    "b \<noteq> 0 \<Longrightarrow> call_printer fmt_p (def_plain opc mn print_D_reg_reg_simm) (D_parser addr opc a b c) =
      Inr (if opc = 14 \<and> sint (signed_take_bit 15 c) < 0
           then ''subi r'' @ fmt_d a @ '', r'' @ fmt_d b @ '', '' @ fmt_d (- signed_take_bit 15 c)
           else mn @ '' r'' @ fmt_d a @ '', r'' @ fmt_d b @ '', '' @ fmt_d (signed_take_bit 15 c))"
proof -
  have s: "sx 16 c = signed_take_bit 15 c"
    using sx_take_bit [of 16 c] D_okD(4) [OF ok] by (simp add: fits_def)
  define w where "w = D_form opc a b c"
  note F = D_form_fields [OF D_okD(1-4) [OF ok], folded w_def] and X = D_okD(5) [OF ok]
  have P: "D_parser addr opc a b c = \<lparr>ip_addr = addr, ip_instruction = w, ip_bits = 26\<rparr>"
    by (simp add: D_parser_def w_def)
  note S = P call_printer_def def_plain_def printer_defs parse_simps Let_def s F reg_or_zero_def
  show "call_printer fmt_p (def_plain opc mn print_D_reg_addr) (D_parser addr opc a b c) =
      Inr (mn @ '' r'' @ fmt_d a @ '', '' @ fmt_d (signed_take_bit 15 c) @ ''('' @ reg_or_zero b @ '')'')"
    "call_printer fmt_p (def_plain opc mn print_D_freg_addr) (D_parser addr opc a b c) =
      Inr (mn @ '' f'' @ fmt_d a @ '', '' @ fmt_d (signed_take_bit 15 c) @ ''('' @ reg_or_zero b @ '')'')"
    "call_printer fmt_p (def_plain opc mn print_D_reg_reg_uimm) (D_parser addr opc a b c) =
      Inr (if opc = 24 \<and> a = 0 \<and> b = 0 \<and> c = 0 then ''nop''
           else mn @ '' r'' @ fmt_d b @ '', r'' @ fmt_d a @ '', '' @ fmt_d c)"
    by (simp_all add: S)
  have G: "call_printer fmt_p (def_plain opc mn print_D_reg_reg_simm) (D_parser addr opc a b c) =
      Inr (if b = 0 \<and> opc = 14 then ''li r'' @ fmt_d a @ '', '' @ fmt_d (signed_take_bit 15 c)
           else if b = 0 \<and> opc = 15 then ''lis r'' @ fmt_d a @ '', '' @ fmt_d (signed_take_bit 15 c)
           else if opc = 14 \<and> sint (signed_take_bit 15 c) < 0
           then ''subi r'' @ fmt_d a @ '', '' @ reg_or_zero b @ '', '' @ fmt_d (- signed_take_bit 15 c)
           else mn @ '' r'' @ fmt_d a @ '', '' @ reg_or_zero b @ '', '' @ fmt_d (signed_take_bit 15 c))"
    by (simp add: S)
  show "b = 0 \<Longrightarrow> opc = 14 \<Longrightarrow> call_printer fmt_p (def_plain opc mn print_D_reg_reg_simm) (D_parser addr opc a b c) =
      Inr (''li r'' @ fmt_d a @ '', '' @ fmt_d (signed_take_bit 15 c))"
    "b = 0 \<Longrightarrow> opc = 15 \<Longrightarrow> call_printer fmt_p (def_plain opc mn print_D_reg_reg_simm) (D_parser addr opc a b c) =
      Inr (''lis r'' @ fmt_d a @ '', '' @ fmt_d (signed_take_bit 15 c))"
    "b \<noteq> 0 \<Longrightarrow> call_printer fmt_p (def_plain opc mn print_D_reg_reg_simm) (D_parser addr opc a b c) =
      Inr (if opc = 14 \<and> sint (signed_take_bit 15 c) < 0
           then ''subi r'' @ fmt_d a @ '', r'' @ fmt_d b @ '', '' @ fmt_d (- signed_take_bit 15 c)
           else mn @ '' r'' @ fmt_d a @ '', r'' @ fmt_d b @ '', '' @ fmt_d (signed_take_bit 15 c))"
    using G by (simp_all add: reg_or_zero_def)
qed

lemma mk_Address_valid:
  "unat b \<noteq> 0 \<Longrightarrow> mk_Address (as_Register b) d = Inr \<lparr>Address_base = as_Register b, Address_disp = word_of_int d\<rparr>"
  by (auto simp: mk_Address_def r0_def unat_eq_0)

definition disp_field :: "int \<Rightarrow> c_int" where
  "disp_field d = take_bit 16 (word_of_int d)"

lemma Address_displacement_field:
  "Address_displacement \<lparr>Address_base = b, Address_disp = word_of_int d\<rparr> = disp_field d"
proof -
  have "take_bit 16 (scast (word_of_int d :: 16 word) :: c_int) = take_bit 16 (word_of_int d)"
    by (rule bit_word_eqI) (auto simp: bit_simps)
  then show ?thesis by (simp add: Address_displacement_def disp_field_def and_masks)
qed

lemma disp_field_fits: "fits 16 (disp_field d)"
  by (simp add: disp_field_def)

lemma signed_disp_field:
  assumes "- 32768 \<le> d" "d < 32768"
  shows "signed_take_bit 15 (disp_field d) = word_of_int d"
proof -
  have e: "signed_take_bit 15 d = d" using assms by (simp add: signed_take_bit_int_eq_self)
  have h: "bit d i = bit d 15" if "15 \<le> i" for i
  proof -
    have "bit (signed_take_bit 15 d) i = bit d 15"
      using that by (simp add: bit_signed_take_bit_iff min_absorb1)
    then show ?thesis by (simp only: e)
  qed
  show ?thesis
  proof (rule bit_word_eqI)
    fix i
    show "bit (signed_take_bit 15 (disp_field d)) i = bit (word_of_int d :: c_int) i" if "i < LENGTH(32)"
      using that h [of i] by (cases "i < 15") (simp_all add: disp_field_def bit_simps min_def)
  qed
qed

lemma emits_D_mem:
  assumes "unat r < 32" "unat b < 32" "unat b \<noteq> 0" "fits 6 opc"
  shows "emits (emit_D_RA opc (as_Register r) (mk_Address (as_Register b) d)) [D_form opc r b (disp_field d)]"
    "emits (emit_D_FA opc (as_FloatRegister r) (mk_Address (as_Register b) d)) [D_form opc r b (disp_field d)]"
  using emit_D_emits_pos [of opc r b, OF assms(4) fits5_small fits5_small disp_field_fits] assms
  by (simp_all add: emits_def emit_D_RA_def emit_D_FA_def emit_D_RRi_def emit_D_FRi_def mk_Address_valid
      Address_displacement_field)

definition text_mem :: "string \<Rightarrow> string \<Rightarrow> c_int \<Rightarrow> int \<Rightarrow> c_int \<Rightarrow> string" where
  "text_mem mn k r d b = mn @ '' '' @ k @ fmt_d r @ '', '' @ fmt_d (word_of_int d) @ ''(r'' @ fmt_d b @ '')''"

lemma disassembles_mem:
  assumes "unat r < 32" "unat b < 32" "unat b \<noteq> 0" "- 32768 \<le> d" "d < 32768" "D_ok opc r b (disp_field d)"
  shows "lookup opc (- 1) = Some (def_plain opc mn print_D_reg_addr) \<Longrightarrow>
      disassembles (emit_D_RA opc (as_Register r) (mk_Address (as_Register b) d) :: 'w::len word emitter) (text_mem mn ''r'' r d b)"
    "lookup opc (- 1) = Some (def_plain opc mn print_D_freg_addr) \<Longrightarrow>
      disassembles (emit_D_FA opc (as_FloatRegister r) (mk_Address (as_Register b) d) :: 'w word emitter) (text_mem mn ''f'' r d b)"
proof -
  have z: "b \<noteq> 0" using assms(3) by auto
  note S = signed_disp_field [OF assms(4,5)] and E = emits_D_mem [OF assms(1-3) D_okD(1) [OF assms(6)]]
  note P = print_D_forms [OF assms(6)] and D = disassembles_D [OF assms(6)]
  show "lookup opc (- 1) = Some (def_plain opc mn print_D_reg_addr) \<Longrightarrow>
      disassembles (emit_D_RA opc (as_Register r) (mk_Address (as_Register b) d) :: 'w::len word emitter) (text_mem mn ''r'' r d b)"
    by (rule D [OF E(1)], assumption, subst P(1)) (simp add: text_mem_def reg_or_zero_def z S)
  show "lookup opc (- 1) = Some (def_plain opc mn print_D_freg_addr) \<Longrightarrow>
      disassembles (emit_D_FA opc (as_FloatRegister r) (mk_Address (as_Register b) d) :: 'w word emitter) (text_mem mn ''f'' r d b)"
    by (rule D [OF E(2)], assumption, subst P(2)) (simp add: text_mem_def reg_or_zero_def z S)
qed



lemma simm_ok_int:
  assumes "- 32768 \<le> i" "i < 65536"
  shows "simm_ok (word_of_int i)"
proof (cases "0 \<le> i")
  case True
  then have "unat (word_of_int i :: c_int) < 2 ^ 16"
    using assms by (simp add: unsigned_of_int take_bit_int_eq_self nat_less_iff)
  then show ?thesis by (intro simm_ok_fits) (simp add: fits_unat)
next
  case False
  have e: "signed_take_bit 15 i = i" using assms False by (simp add: signed_take_bit_int_eq_self)
  have "signed_take_bit 15 i < 0" unfolding e using False by simp
  then have b: "bit i 15" by (simp only: signed_take_bit_negative_iff)
  have h: "bit i j" if "15 \<le> j" for j
  proof -
    have "bit (signed_take_bit 15 i) j"
      using that b by (simp add: bit_signed_take_bit_iff min_absorb1)
    then show ?thesis by (simp only: e)
  qed
  show ?thesis by (rule simm_ok_bits) (use h in \<open>simp add: bit_simps\<close>)
qed

lemma emits_D_imm:
  assumes "unat a < 32" "unat b < 32" "fits 6 opc" "- 32768 \<le> i" "i < 65536"
  shows "emits (emit_D_RRi opc (as_Register a) (as_Register b) (word_of_int i)) [D_form opc a b (disp_field i)]"
  using emit_D_emits [OF assms(3) fits5_small fits5_small simm_ok_int [OF assms(4,5)], of a b] assms(1,2)
  by (simp add: emits_def emit_D_RRi_def disp_field_def)

definition text_ri :: "string \<Rightarrow> c_int \<Rightarrow> int \<Rightarrow> string" where
  "text_ri mn a i = mn @ '' r'' @ fmt_d a @ '', '' @ fmt_d (word_of_int i)"

definition text_rri :: "string \<Rightarrow> c_int \<Rightarrow> c_int \<Rightarrow> int \<Rightarrow> string" where
  "text_rri mn a b i = mn @ '' r'' @ fmt_d a @ '', r'' @ fmt_d b @ '', '' @ fmt_d (word_of_int i)"

lemma sint_word_of_int: "- (2 ^ 31) \<le> i \<Longrightarrow> i < 2 ^ 31 \<Longrightarrow> sint (word_of_int i :: c_int) = i"
  by (simp add: signed_of_int signed_take_bit_int_eq_self)

text \<open>Immediate arithmetic is printed back with a signed immediate: \<open>li\<close> and \<open>lis\<close> for a
  source of \<open>r0\<close>, \<open>subi\<close> with the immediate's negation for an \<open>addi\<close> of a negative one; the
  logical instructions with an unsigned immediate, and \<open>nop\<close>.\<close>

theorem disassemble_immediate:
  assumes r: "unat d < 32" "unat a < 32" "a \<noteq> 0" and i: "- 32768 \<le> i" "i < 32768" and u: "0 \<le> u" "u < 65536"
  shows "disassembles (asm_li (as_Register d) (word_of_int i) :: 'w::len word emitter) (text_ri ''li'' d i) \<and>
    disassembles (asm_lis (as_Register d) (word_of_int i) :: 'w word emitter) (text_ri ''lis'' d i) \<and>
    disassembles (asm_addi (as_Register d) (as_Register a) (word_of_int i) :: 'w word emitter)
      (if i < 0 then text_rri ''subi'' d a (- i) else text_rri ''addi'' d a i) \<and>
    disassembles (asm_subfic (as_Register d) (as_Register a) (word_of_int i) :: 'w word emitter) (text_rri ''subfic'' d a i) \<and>
    disassembles (asm_ori (as_Register d) (as_Register a) (word_of_int u) :: 'w word emitter) (text_rri ''ori'' d a u) \<and>
    disassembles (asm_oris (as_Register d) (as_Register a) (word_of_int u) :: 'w word emitter) (text_rri ''oris'' d a u) \<and>
    disassembles (asm_andi_rc (as_Register d) (as_Register a) (word_of_int u) :: 'w word emitter) (text_rri ''andi.'' d a u) \<and>
    disassembles (asm_nop :: 'w word emitter) ''nop''"
proof -
  have ok: "D_ok opc x y (disp_field j)" if "unat opc < 64" "opc \<notin> {19, 30, 31, 58, 62, 63}" "unat x < 32" "unat y < 32"
    for opc x y j using that by (simp add: D_ok_def disp_field_fits)
  have z: "unat (0 :: c_int) < 32" by simp
  have i': "i < 65536" and u': "- 32768 \<le> u" using i u by auto
  note S = signed_disp_field [OF i]
  have U: "disp_field u = word_of_int u"
    using u by (simp add: disp_field_def unsigned_of_int take_bit_int_eq_self flip: of_int_take_bit)
  have n: "sint (word_of_int i :: c_int) < 0 \<longleftrightarrow> i < 0" using i by (subst sint_word_of_int) auto
  have p: "disassembles (emit_D_RRi opc (as_Register x) (as_Register y) (word_of_int j) :: 'w word emitter) t"
    if "unat x < 32" "unat y < 32" "- 32768 \<le> j" "j < 65536" "unat opc < 64" "opc \<notin> {19, 30, 31, 58, 62, 63}"
      "lookup opc (- 1) = Some q"
      "\<And>fmt_p (addr :: 'w word). call_printer fmt_p q (D_parser addr opc x y (disp_field j)) = Inr t"
    for opc x y j q t
    using disassembles_D [OF ok emits_D_imm] that fits6 by blast
  have "disassembles (asm_li (as_Register d) (word_of_int i) :: 'w word emitter) (text_ri ''li'' d i)"
    unfolding asm_li_def asm_addi_def
    by (rule p [OF r(1) z i(1) i' _ _ lookup_plain(3)])
       (use r in \<open>simp_all add: print_D_forms(4) ok text_ri_def S\<close>)
  moreover have "disassembles (asm_lis (as_Register d) (word_of_int i) :: 'w word emitter) (text_ri ''lis'' d i)"
    unfolding asm_lis_def asm_addis_def
    by (rule p [OF r(1) z i(1) i' _ _ lookup_plain(4)])
       (use r in \<open>simp_all add: print_D_forms(5) ok text_ri_def S\<close>)
  moreover have "disassembles (asm_addi (as_Register d) (as_Register a) (word_of_int i) :: 'w word emitter)
      (if i < 0 then text_rri ''subi'' d a (- i) else text_rri ''addi'' d a i)"
    unfolding asm_addi_def
    by (rule p [OF r(1,2) i(1) i' _ _ lookup_plain(3)])
       (use r in \<open>simp_all add: print_D_forms(6) ok text_rri_def S n\<close>)
  moreover have "disassembles (asm_subfic (as_Register d) (as_Register a) (word_of_int i) :: 'w word emitter) (text_rri ''subfic'' d a i)"
    unfolding asm_subfic_def
    by (rule p [OF r(1,2) i(1) i' _ _ lookup_plain(1)])
       (use r in \<open>simp_all add: print_D_forms(6) ok text_rri_def S\<close>)
  moreover have "disassembles (asm_ori (as_Register d) (as_Register a) (word_of_int u) :: 'w word emitter) (text_rri ''ori'' d a u)"
    "disassembles (asm_oris (as_Register d) (as_Register a) (word_of_int u) :: 'w word emitter) (text_rri ''oris'' d a u)"
    "disassembles (asm_andi_rc (as_Register d) (as_Register a) (word_of_int u) :: 'w word emitter) (text_rri ''andi.'' d a u)"
    unfolding asm_ori_def asm_oris_def asm_andi_rc_def
    by (rule p [OF r(2,1) u' u(2) _ _ lookup_plain(8)] p [OF r(2,1) u' u(2) _ _ lookup_plain(9)]
          p [OF r(2,1) u' u(2) _ _ lookup_plain(10)];
        use r in \<open>simp add: print_D_forms(3) ok text_rri_def U [symmetric]\<close>)+
  moreover have okz: "D_ok 24 0 0 0" by (simp add: D_ok_def)
  have "disassembles (asm_nop :: 'w word emitter) ''nop''"
    using p [OF z z _ _ _ _ lookup_plain(8), of 0 "''nop''"]
    by (simp add: asm_nop_def asm_ori_def r0_def print_D_forms(3) [OF okz] disp_field_def)
  ultimately show ?thesis by blast
qed


theorem disassemble_immediate_witness:
  "disassembles (asm_addi r1 r1 (- 16) :: 64 word emitter) ''subi r1, r1, 16'' \<and>
   disassembles (asm_ori r5 r1 100 :: 64 word emitter) ''ori r5, r1, 100''"
proof -
  have 1: "text_rri ''subi'' 1 1 16 = ''subi r1, r1, 16''" "text_rri ''ori'' 5 1 100 = ''ori r5, r1, 100''"
    by code_simp+
  have "disassembles (asm_addi (as_Register 1) (as_Register 1) (- 16) :: 64 word emitter) (text_rri ''subi'' 1 1 16)"
    using disassemble_immediate [of 1 1 "- 16" 0, where 'w = 64] by simp
  moreover have "disassembles (asm_ori (as_Register 5) (as_Register 1) 100 :: 64 word emitter) (text_rri ''ori'' 5 1 100)"
    using disassemble_immediate [of 5 1 "- 16" 100, where 'w = 64] by simp
  ultimately show ?thesis by (simp add: 1 r1_def r5_def)
qed

section \<open>Branches\<close>

lemma scast_displacement:
  fixes d :: "'w::len word"
  assumes "32 \<le> LENGTH('w)" "fits n d" "0 < n" "n \<le> 28"
  shows "scast (push_bit 2 (sx n (ucast d))) = push_bit 2 (signed_take_bit (n - 1) d)"
proof -
  have "take_bit n (ucast d :: c_int) = ucast d"
    using assms(2) by (intro bit_word_eqI) (auto simp: fits_iff_bit bit_simps)
  then have s: "sx n (ucast d) = signed_take_bit (n - 1) (ucast d)"
    using sx_take_bit [of n "ucast d"] assms by simp
  show ?thesis unfolding s
  proof (rule bit_word_eqI)
    fix i
    assume i: "i < LENGTH('w)"
    then consider "i < 2" | "2 \<le> i" "i < 32" | "32 \<le> i" by linarith
    then show "bit (scast (push_bit 2 (signed_take_bit (n - 1) (ucast d :: c_int))) :: 'w word) i =
        bit (push_bit 2 (signed_take_bit (n - 1) d)) i"
      using assms i by cases (auto simp: bit_simps min_def)
  qed
qed

text \<open>Unconditional branches are printed with the address they were asked to branch to:
  whatever displacement the assembler computed, the disassembler computes the target back from
  it, for every target in range of every address.\<close>

theorem disassemble_branch:
  fixes t :: "'w::len word"
  assumes "32 \<le> LENGTH('w)" "asm_b t s = Inr s1" "asm_bl t s = Inr s2"
  shows "\<exists>w v. s1 = s\<lparr>asm_code := asm_code s @ [w]\<rparr> \<and> s2 = s\<lparr>asm_code := asm_code s @ [v]\<rparr> \<and>
    print_instruction_at fmt_p (pc s) w = Inr (''b '' @ fmt_p t) \<and>
    print_instruction_at fmt_p (pc s) v = Inr (''bl '' @ fmt_p t)"
proof -
  obtain d where d: "branch_target (pc s) t 24 = Inr d"
    using assms(2) by (auto simp: asm_b_def bindR_eq_Inr)
  have f: "fits 24 d" using branch_target_fits [OF d] by simp
  have fu: "fits 24 (ucast d :: c_int)"
    using f by (auto simp: fits_iff_bit bit_simps)
  have o: "fits 6 (18 :: c_int)" by (simp add: fits_unat)
  have t: "pc s + push_bit 2 (signed_take_bit 23 d) = t"
    using branch_target_roundtrip_aux [OF _ _ d] assms(1) by simp
  have e: "s1 = s\<lparr>asm_code := asm_code s @ [I_form 18 (ucast d) False False]\<rparr>"
    "s2 = s\<lparr>asm_code := asm_code s @ [I_form 18 (ucast d) False True]\<rparr>"
    using assms(2,3) by (simp_all add: asm_b_def asm_bl_def d emitsD [OF emit_I_emits [OF o fu]])
  have p: "print_instruction_at fmt_p (pc s) (I_form 18 (ucast d) False lk) =
      Inr (''b'' @ (if lk then ''l'' else []) @ '' '' @ fmt_p t)" for lk
    using scast_displacement [OF assms(1) f] t I_form_fields [OF o fu, of False lk]
    by (simp add: print_instruction_at_eq parse_simps Let_def lookup_plain call_printer_def def_plain_def printer_defs)
  show ?thesis using e p [of False] p [of True]
    by (intro exI [of _ "I_form 18 (ucast d) False False"] exI [of _ "I_form 18 (ucast d) False True"]) simp
qed

theorem disassemble_branch_witness:
  "\<exists>w. asm_bl 0x1000 (start_at (0x2000 :: 32 word)) = Inr ((start_at 0x2000)\<lparr>asm_code := [w]\<rparr>) \<and>
     print_instruction_at (fmt_hex 8 \<circ> unat) (0x2000 :: 32 word) w = Inr ''bl 00001000''"
proof -
  have h: "fmt_hex 8 (unat (0x1000 :: 32 word)) = ''00001000''" by code_simp
  have b: "asm_b 0x1000 (start_at (0x2000 :: 32 word)) = Inr ((start_at 0x2000)\<lparr>asm_code := [0x4bfff000]\<rparr>)"
    "asm_bl 0x1000 (start_at (0x2000 :: 32 word)) = Inr ((start_at 0x2000)\<lparr>asm_code := [0x4bfff001]\<rparr>)"
    by code_simp+
  have p: "pc (start_at (0x2000 :: 32 word)) = 0x2000" "asm_code (start_at (0x2000 :: 32 word)) = []"
    by (simp_all add: pc_def start_at_def offset_def)
  from disassemble_branch [OF _ b, of "fmt_hex 8 \<circ> unat"] obtain v where
    "(start_at 0x2000)\<lparr>asm_code := [0x4bfff001]\<rparr> = (start_at (0x2000 :: 32 word))\<lparr>asm_code := [v]\<rparr>"
    "print_instruction_at (fmt_hex 8 \<circ> unat) (0x2000 :: 32 word) v = Inr ''bl 00001000''"
    using h by (auto simp: p)
  with b(2) show ?thesis by (intro exI [of _ v]) simp
qed

lemma B_word_prints:
  fixes t :: "'w::len word"
  assumes w: "32 \<le> LENGTH('w)" and b: "unat bo < 32" "unat bi < 32" "bo \<noteq> 20"
    and c: "branch_condition bo bi = Inr cond" and s: "asm_bc bo bi t s = Inr s1"
  shows "\<exists>w. s1 = s\<lparr>asm_code := asm_code s @ [w]\<rparr> \<and>
    print_instruction_at fmt_p (pc s) w =
      Inr (''b'' @ cond @ (if c_shr bi 2 \<noteq> 0 then '' cr'' @ fmt_d (c_shr bi 2) @ '','' else []) @ '' '' @ fmt_p t)"
proof -
  obtain d where d: "branch_target (pc s) t 14 = Inr d"
    using s by (auto simp: asm_bc_def bindR_eq_Inr)
  have f: "fits 14 d" using branch_target_fits [OF d] by simp
  have fu: "fits 14 (ucast d :: c_int)"
    using f by (auto simp: fits_iff_bit bit_simps)
  have o: "fits 6 (16 :: c_int)" by (simp add: fits_unat)
  note fb = b(1,2) [THEN fits5_small]
  have t: "pc s + push_bit 2 (signed_take_bit 13 d) = t"
    using branch_target_roundtrip_aux [OF _ _ d] w by simp
  have e: "s1 = s\<lparr>asm_code := asm_code s @ [B_form 16 bo bi (ucast d) False False]\<rparr>"
    using s by (simp add: asm_bc_def d emitsD [OF emit_B_emits [OF o fb fu]])
  have "print_instruction_at fmt_p (pc s) (B_form 16 bo bi (ucast d) False False) =
      Inr (''b'' @ cond @ (if c_shr bi 2 \<noteq> 0 then '' cr'' @ fmt_d (c_shr bi 2) @ '','' else []) @ '' '' @ fmt_p t)"
    using scast_displacement [OF w f] t B_form_fields [OF o fb fu, of False False] b(3) c
    by (simp add: print_instruction_at_eq parse_simps Let_def lookup_plain call_printer_def def_plain_def printer_defs)
  with e show ?thesis by blast
qed

definition branch_mnemonics :: "(c_int \<times> c_int \<times> string) list" where
  "branch_mnemonics = [(12, 0, ''blt''), (4, 1, ''ble''), (12, 2, ''beq''), (4, 0, ''bge''),
     (12, 1, ''bgt''), (4, 2, ''bne''), (16, 0, ''bdnz'')]"

lemma branch_mnemonics_ok:
  "list_all (\<lambda>(bo, bi, mn). unat bo < 32 \<and> unat bi < 32 \<and> bo \<noteq> 20 \<and> c_shr bi 2 = 0 \<and>
     branch_condition bo bi = Inr (tl mn) \<and> mn = ''b'' @ tl mn) branch_mnemonics"
  by code_simp

lemma conditional_branch_prints:
  fixes t :: "'w::len word"
  assumes w: "32 \<le> LENGTH('w)" and c: "unat bo < 32 \<and> unat bi < 32 \<and> bo \<noteq> 20 \<and> c_shr bi 2 = 0 \<and>
     branch_condition bo bi = Inr cond"
    and s: "asm_bc bo bi t s = Inr s1"
  shows "\<exists>w. s1 = s\<lparr>asm_code := asm_code s @ [w]\<rparr> \<and>
    print_instruction_at fmt_p (pc s) w = Inr ((''b'' @ cond) @ '' '' @ fmt_p t)"
proof -
  have z: "unat bo < 32" "unat bi < 32" "bo \<noteq> 20" "c_shr bi 2 = 0" "branch_condition bo bi = Inr cond"
    using c by simp_all
  show ?thesis using B_word_prints [OF w z(1-3,5) s, of fmt_p] unfolding z(4) by simp
qed

text \<open>C26. Conditional branches on the first condition register field are printed with the
  mnemonic that emits them and their target.\<close>

theorem disassemble_conditional_branch:
  fixes t :: "'w::len word"
  assumes "32 \<le> LENGTH('w)"
    "(bo, bi, mn) \<in> set branch_mnemonics"
    "asm_bc bo bi t s = Inr s1"
  shows "\<exists>w. s1 = s\<lparr>asm_code := asm_code s @ [w]\<rparr> \<and>
    print_instruction_at fmt_p (pc s) w = Inr (mn @ '' '' @ fmt_p t)"
proof -
  have c: "unat bo < 32 \<and> unat bi < 32 \<and> bo \<noteq> 20 \<and> c_shr bi 2 = 0 \<and>
     branch_condition bo bi = Inr (tl mn) \<and> mn = ''b'' @ tl mn"
    using bspec [OF branch_mnemonics_ok [unfolded list_all_iff] assms(2)]
    unfolding prod.case .
  have m: "mn = ''b'' @ tl mn" using c by (elim conjE)
  have c': "unat bo < 32 \<and> unat bi < 32 \<and> bo \<noteq> 20 \<and> c_shr bi 2 = 0 \<and> branch_condition bo bi = Inr (tl mn)"
    using c by (elim conjE) (intro conjI)
  show ?thesis by (subst m) (rule conditional_branch_prints [OF assms(1) c' assms(3)])
qed

theorem disassemble_conditional_branch_witness:
  "\<exists>w. asm_bc 12 2 0x30 (start_at (0x40 :: 32 word)) = Inr ((start_at 0x40)\<lparr>asm_code := [w]\<rparr>) \<and>
     print_instruction_at (fmt_hex 8 \<circ> unat) (0x40 :: 32 word) w = Inr ''beq 00000030''"
proof -
  have h: "fmt_hex 8 48 = ''00000030''" by code_simp
  have b: "asm_bc 12 2 0x30 (start_at (0x40 :: 32 word)) = Inr ((start_at 0x40)\<lparr>asm_code := [0x4182fff0]\<rparr>)"
    by code_simp
  have p: "pc (start_at (0x40 :: 32 word)) = 0x40" "asm_code (start_at (0x40 :: 32 word)) = []"
    by (simp_all add: pc_def start_at_def offset_def)
  have k: "(12, 2, ''beq'') \<in> set branch_mnemonics" by (simp add: branch_mnemonics_def)
  have l: "32 \<le> LENGTH(32)" by simp
  from disassemble_conditional_branch [OF l k b, of "fmt_hex 8 \<circ> unat"] show ?thesis
    by (simp add: p h b)
qed

end
