(* ===== verification/DisassemblyShifts.thy ===== *)
theory DisassemblyShifts
  imports Disassembly
begin

text \<open>Shifts and compares are printed back the way they were assembled, except the doubleword
  rotations the printer takes for other ones.\<close>

section \<open>Shifts\<close>

definition text_rrc :: "string \<Rightarrow> c_int \<Rightarrow> c_int \<Rightarrow> c_int \<Rightarrow> string" where
  "text_rrc mn a b n = mn @ '' r'' @ fmt_d a @ '', r'' @ fmt_d b @ '', '' @ fmt_d n"

lemma fld_fld: "m + n \<le> l \<Longrightarrow> fld m n (fld k l w) = fld (k + m) n w"
  by (rule bit_word_eqI) (auto simp: fld_def bit_simps ac_simps)

lemma lookup_M: "lookup 21 (- 1) = Some (def_plain 21 ''rlwinm'' print_M)"
  "lookup 30 0 = Some (def_xo 30 0 ''rldicl'' print_MD)" "lookup 30 1 = Some (def_xo 30 1 ''rldicr'' print_MD)"
  by (simp_all add: lookup_simps)

lemma emit_M21_emits:
  assumes "unat a < 32" "unat b < 32" "unat c < 32" "unat d < 32" "unat e < 32"
  shows "emits (emit_M_RR 21 (as_Register a) (as_Register b) c d e rc) [M_form 21 a b c d e rc]"
  using assms by (simp add: emits_def emit_M_RR_def emit_M_def fits_masks fits_masks_neg fits5_small emit_long_def)

lemma print_M21:
  assumes f: "unat a < 32" "unat b < 32" "unat c < 32" "unat d < 32" "unat e < 32"
  shows "print_instruction_at fmt_p addr (M_form 21 a b c d e rc) =
     (if d = 0 \<and> 31 - c = e then Inr (text_rrc (''slwi'' @ rc_dot rc) b a c)
      else if e = 31 \<and> 32 - d = c then Inr (text_rrc (''srwi'' @ rc_dot rc) b a d)
      else Inl ShouldNotReachHere)"
proof -
  have o: "fits 6 (21 :: c_int)" by (simp add: fits_unat)
  define w where "w = M_form 21 a b c d e rc"
  note F = M_form_fields [OF o f [THEN fits5_small], of rc, folded w_def]
  show ?thesis unfolding w_def [symmetric]
    using F by (simp add: print_instruction_at_eq parse_simps Let_def lookup_M call_printer_def def_plain_def printer_defs
        text_rrc_def dot_def rc_dot_def)
qed

text \<open>The fields of an MD-form instruction, whose two operands are split.\<close>

lemma bit_0x20: "bit (0x20 :: c_int) i \<longleftrightarrow> i = 5"
proof -
  have e: "(0x20 :: c_int) = push_bit 5 1" by simp
  show ?thesis unfolding e bit_push_bit_iff by (auto simp: bit_1_iff)
qed

definition MD_low :: "c_int \<Rightarrow> c_int \<Rightarrow> c_int \<Rightarrow> c_int" where
  "MD_low c d e = c_shr (d AND 0x20) 1 OR push_bit 1 e OR c_shr (c AND 0x20) 5"

lemma bit_MD_low:
  assumes "fits 3 e"
  shows "bit (MD_low c d e) i \<longleftrightarrow> i = 4 \<and> bit d 5 \<or> 1 \<le> i \<and> i \<le> 3 \<and> bit e (i - 1) \<or> i = 0 \<and> bit c 5"
proof -
  have e: "bit e j \<Longrightarrow> j < 3" for j using assms by (simp add: fits_iff_bit)
  show ?thesis
    unfolding MD_low_def c_shr_def bit_or_iff bit_signed_drop_bit_iff bit_and_iff bit_0x20 bit_push_bit_iff
    using e [of "i - 1"] by (auto split: if_splits)
qed

lemma MD_low_fields:
  assumes "fits 3 e"
  shows "fits 5 (MD_low c d e)" "fld 4 1 (MD_low c d e) = fld 5 1 d" "fld 1 3 (MD_low c d e) = e"
    "fld 0 1 (MD_low c d e) = fld 5 1 c"
proof -
  have e: "bit e j \<Longrightarrow> j < 3" for j using assms by (simp add: fits_iff_bit)
  show "fits 5 (MD_low c d e)" by (auto simp: fits_iff_bit bit_MD_low [OF assms])
  show "fld 4 1 (MD_low c d e) = fld 5 1 d" "fld 0 1 (MD_low c d e) = fld 5 1 c"
    by (rule bit_word_eqI; auto simp: bit_fld_iff bit_MD_low [OF assms])+
  show "fld 1 3 (MD_low c d e) = e"
    by (rule bit_word_eqI) (auto simp: bit_fld_iff bit_MD_low [OF assms] dest: e)
qed

lemma MD_join: "fits 6 c \<Longrightarrow> push_bit 5 (fld 5 1 c) OR take_bit 5 c = (c :: c_int)"
proof (rule bit_word_eqI)
  fix i
  assume f: "fits 6 c" and i: "i < LENGTH(32)"
  from f have n: "\<not> bit c i" if "5 < i" using that by (auto simp: fits_iff_bit)
  consider "i < 5" | "i = 5" | "5 < i" by linarith
  then show "bit (push_bit 5 (fld 5 1 c) OR take_bit 5 c) i = bit c i"
    by cases (use i n in \<open>simp_all add: bit_or_iff bit_push_bit_iff bit_take_bit_iff bit_fld_iff\<close>)
qed

lemma fits6_small: "unat (n :: c_int) < 64 \<Longrightarrow> fits 6 n"
  by (simp add: fits_unat)

lemma emit_M30_emits:
  assumes "unat a < 32" "unat b < 32" "unat c < 64" "unat d < 64" "fits 3 e"
  shows "emits (emit_M_RR 30 (as_Register a) (as_Register b) c d e rc)
    [M_form 30 a b (take_bit 5 c) (take_bit 5 d) (MD_low c d e) rc]"
  using assms by (simp add: emits_def emit_M_RR_def emit_M_def fits_masks fits_masks_neg fits5_small fits6_small
      and_masks emit_long_def MD_low_def Let_def)

lemma print_M30:
  assumes f: "unat a < 32" "unat b < 32" "unat c < 64" "unat d < 64" and e: "e = 0 \<or> e = 1"
  shows "print_instruction_at fmt_p addr (M_form 30 a b (take_bit 5 c) (take_bit 5 d) (MD_low c d e) rc) =
     (if e = 0 then if 64 - d \<noteq> 0 then Inr (text_rrc (''srdi'' @ rc_dot rc) b a d) else Inl ShouldNotReachHere
      else if d = 63 - c then Inr (text_rrc (''sldi'' @ rc_dot rc) b a c)
      else Inl ShouldNotReachHere)"
proof -
  have o: "fits 6 (30 :: c_int)" by (simp add: fits_unat)
  have e3: "fits 3 e" using e by (auto simp: fits_unat)
  define w where "w = M_form 30 a b (take_bit 5 c) (take_bit 5 d) (MD_low c d e) rc"
  note F = M_form_fields [OF o f(1,2) [THEN fits5_small] fits_take_bit fits_take_bit MD_low_fields(1) [OF e3],
      of c d c d rc, folded w_def]
  have G: "fld 5 1 w = fld 5 1 d" "fld 2 3 w = e" "fld (Suc 0) 1 w = fld 5 1 c"
    using fld_fld [of 4 1 5 1 w] fld_fld [of 1 3 5 1 w] fld_fld [of 0 1 5 1 w] F(6) MD_low_fields(2-4) [OF e3, of c d]
    by (simp_all add: numeral_2_eq_2)
  have J: "push_bit 5 (fld 5 1 c) OR take_bit 5 c = c" "push_bit 5 (fld 5 1 d) OR take_bit 5 d = d"
    by (rule MD_join, rule fits6_small, rule f)+
  show ?thesis unfolding w_def [symmetric]
    using F G J e by (auto simp: print_instruction_at_eq parse_simps Let_def lookup_M call_printer_def def_xo_def printer_defs
        text_rrc_def dot_def rc_dot_def)
qed

lemma disassemblesI:
  "emits e [w] \<Longrightarrow> (\<And>fmt_p (addr :: 'w word). print_instruction_at fmt_p addr w = Inr text) \<Longrightarrow>
    disassembles (e :: 'w::len word emitter) text"
  by (auto simp: disassembles_def)

lemma word_shifts_print:
  assumes "unat d < 32" "unat a < 32" "n < 32"
  shows "disassembles (asm_slwi (as_Register d) (as_Register a) (of_nat n) :: 'w::len word emitter)
      (text_rrc ''slwi'' d a (of_nat n))"
    "0 < n \<Longrightarrow> disassembles (asm_srwi (as_Register d) (as_Register a) (of_nat n) :: 'w::len word emitter)
      (text_rrc ''srwi'' d a (of_nat n))"
proof -
  have l: "unat (of_nat n :: c_int) < 32" "unat (31 - of_nat n :: c_int) < 32"
    using assms(3) by (simp_all add: unat_sub_if' unat_of_nat)
  show "disassembles (asm_slwi (as_Register d) (as_Register a) (of_nat n) :: 'w::len word emitter)
      (text_rrc ''slwi'' d a (of_nat n))"
    unfolding asm_slwi_def asm_rlwinm_def
    by (rule disassemblesI [OF emit_M21_emits]) (use assms l in \<open>simp_all add: rc_dot_def print_M21\<close>)
  assume p: "0 < n"
  have k: "unat (32 - of_nat n :: c_int) < 32"
    using assms(3) p by (simp add: unat_sub_if' unat_of_nat)
  have nz: "(of_nat n :: c_int) \<noteq> 0" using assms(3) p by (simp add: unat_of_nat word_unat_eq_iff)
  show "disassembles (asm_srwi (as_Register d) (as_Register a) (of_nat n) :: 'w::len word emitter)
      (text_rrc ''srwi'' d a (of_nat n))"
    unfolding asm_srwi_def asm_rlwinm_def
    by (rule disassemblesI [OF emit_M21_emits]) (use assms l k nz in \<open>simp_all add: rc_dot_def print_M21\<close>)
qed

lemma doubleword_rotates_print:
  assumes "unat d < 32" "unat a < 32" "unat sh < 64" "unat mb < 64"
  shows "disassembles (asm_rldicl (as_Register d) (as_Register a) sh mb :: 'w::len word emitter)
      (text_rrc ''srdi'' d a mb)"
    "mb = 63 - sh \<Longrightarrow> disassembles (asm_rldicr (as_Register d) (as_Register a) sh mb :: 'w::len word emitter)
      (text_rrc ''sldi'' d a sh)"
proof -
  have n: "64 - mb \<noteq> 0"
  proof
    assume "64 - mb = 0"
    then have "mb = 64" by simp
    with assms(4) show False by simp
  qed
  show "disassembles (asm_rldicl (as_Register d) (as_Register a) sh mb :: 'w::len word emitter)
      (text_rrc ''srdi'' d a mb)"
    unfolding asm_rldicl_def
    by (rule disassemblesI [OF emit_M30_emits]) (use assms n in \<open>simp_all add: rc_dot_def print_M30 fits_unat\<close>)
  assume "mb = 63 - sh"
  then show "disassembles (asm_rldicr (as_Register d) (as_Register a) sh mb :: 'w::len word emitter)
      (text_rrc ''sldi'' d a sh)"
    unfolding asm_rldicr_def
    by (intro disassemblesI [OF emit_M30_emits]) (use assms in \<open>simp_all add: rc_dot_def print_M30 fits_unat\<close>)
qed

text \<open>C27. The shifts by a constant are printed back as written: \<^verbatim>\<open>slwi\<close> and \<^verbatim>\<open>sldi\<close> for every
  count below the width, \<^verbatim>\<open>srwi\<close> and \<^verbatim>\<open>srdi\<close> for the counts they can be emitted with (from 1).\<close>

theorem disassemble_shift:
  assumes "unat d < 32" "unat a < 32"
  shows "(n < 32 \<longrightarrow> disassembles (asm_slwi (as_Register d) (as_Register a) (of_nat n) :: 'w::len word emitter)
      (text_rrc ''slwi'' d a (of_nat n))) \<and>
    (0 < n \<and> n < 32 \<longrightarrow> disassembles (asm_srwi (as_Register d) (as_Register a) (of_nat n) :: 'w word emitter)
      (text_rrc ''srwi'' d a (of_nat n))) \<and>
    (n < 64 \<longrightarrow> disassembles (asm_sldi (as_Register d) (as_Register a) (of_nat n) :: 'w word emitter)
      (text_rrc ''sldi'' d a (of_nat n))) \<and>
    (0 < n \<and> n < 64 \<longrightarrow> disassembles (asm_srdi (as_Register d) (as_Register a) (of_nat n) :: 'w word emitter)
      (text_rrc ''srdi'' d a (of_nat n)))"
  unfolding asm_sldi_def asm_srdi_def
  using assms by (intro conjI impI word_shifts_print doubleword_rotates_print)
    (simp_all add: unat_sub_if' unat_of_nat)

theorem disassemble_shift_witness:
  "disassembles (asm_slwi (as_Register 3) (as_Register 4) (of_nat 2) :: 64 word emitter) ''slwi r3, r4, 2''
   \<and> disassembles (asm_srdi (as_Register 3) (as_Register 4) (of_nat 2) :: 64 word emitter) ''srdi r3, r4, 2''"
proof -
  have t: "text_rrc ''slwi'' 3 4 2 = ''slwi r3, r4, 2''" "text_rrc ''srdi'' 3 4 2 = ''srdi r3, r4, 2''"
    by code_simp+
  show ?thesis using disassemble_shift [of 3 4 2, where 'w = 64] t by simp
qed

text \<open>C29. \<^verbatim>\<open>print_MD\<close> assigns where it means to compare: every \<^verbatim>\<open>rldicl\<close> is printed as the right
  shift \<^verbatim>\<open>srdi\<close> by its mask begin, whatever its rotation, so that different instructions
  get the same text.\<close>

theorem rotate_printed_as_shift:
  assumes "unat d < 32" "unat a < 32" "unat sh < 64" "unat mb < 64"
  shows "disassembles (asm_rldicl (as_Register d) (as_Register a) sh mb :: 'w::len word emitter)
      (text_rrc ''srdi'' d a mb)"
  using assms by (rule doubleword_rotates_print)

theorem rotate_printed_as_shift_witness:
  "disassembles (asm_rldicl (as_Register 3) (as_Register 4) 0 32 :: 64 word emitter) ''srdi r3, r4, 32''"
proof -
  have t: "text_rrc ''srdi'' 3 4 32 = ''srdi r3, r4, 32''" by code_simp
  show ?thesis using rotate_printed_as_shift [of 3 4 0 32, where 'w = 64] t by simp
qed

end
