(* ===== verification/StackFrames.thy ===== *)
theory StackFrames
  imports Macros
begin

text \<open>
  The class \<^verbatim>\<open>StackFrame\<close> (\<^verbatim>\<open>assembler_CPU.hpp\<close>, \<^verbatim>\<open>assembler_CPU.cpp\<close>): the layout of the
  frame a generated routine runs in, allocated piece by piece before \<^verbatim>\<open>generate_prolog\<close> fixes
  its size, and the prolog and epilog that build and remove it. A frame is a record, an
  operation on it takes the record and returns it updated. Its counters are \<^verbatim>\<open>int\<close>s that
  only grow by one at a time and are read as integers.
\<close>

section \<open>The layout of a frame\<close>

datatype frame_state = done_nothing | done_prolog | done_epilog

record StackFrame =
  params :: int
  locals :: int
  crfs :: int
  gprs :: int
  fprs :: int
  state :: frame_state
  frame_size :: int
  save_volatiles :: bool

text \<open>The enumeration \<^verbatim>\<open>LinkArea\<close>: the words at the bottom of every frame.\<close>

definition back_chain_offset :: int where
  "back_chain_offset = 0"

definition cr_save_offset :: "arch \<Rightarrow> int option" where
  "cr_save_offset arch = (case arch of PPC32 \<Rightarrow> None | PPC64 \<Rightarrow> Some 1)"

definition lr_save_offset :: "arch \<Rightarrow> int" where
  "lr_save_offset arch = (case arch of PPC32 \<Rightarrow> 1 | PPC64 \<Rightarrow> 2)"

definition saved_toc_offset :: "arch \<Rightarrow> int option" where
  "saved_toc_offset arch = (case arch of PPC32 \<Rightarrow> None | PPC64 \<Rightarrow> Some 5)"

definition link_area_words :: "arch \<Rightarrow> int" where
  "link_area_words arch = (case arch of PPC32 \<Rightarrow> 2 | PPC64 \<Rightarrow> 6)"

text \<open>The enumeration \<^verbatim>\<open>Constants\<close>.\<close>

definition min_params :: "arch \<Rightarrow> int" where
  "min_params arch = (case arch of PPC32 \<Rightarrow> 0 | PPC64 \<Rightarrow> 8)"

definition max_gprs :: int where "max_gprs = 18"

definition max_fprs :: int where "max_fprs = 18"

definition max_crfs :: int where "max_crfs = 3"

definition num_vgprs :: int where "num_vgprs = 11"

definition num_vsprs :: int where "num_vsprs = 1"

definition num_vfprs :: int where "num_vfprs = 14"

definition words_per_fpr :: "arch \<Rightarrow> int" where
  "words_per_fpr arch = 8 div wordSize arch"

definition StackAlignmentInBytes :: int where "StackAlignmentInBytes = 16"

lemmas frame_constants = back_chain_offset_def lr_save_offset_def link_area_words_def
  min_params_def max_gprs_def max_fprs_def max_crfs_def num_vgprs_def num_vsprs_def
  num_vfprs_def words_per_fpr_def StackAlignmentInBytes_def

text \<open>The constructor leaves \<^verbatim>\<open>_frame_size\<close> as it finds it.\<close>

definition new_StackFrame :: "int \<Rightarrow> StackFrame" where
  "new_StackFrame garbage =
     \<lparr>params = 0, locals = 0, crfs = 0, gprs = 0, fprs = 0, state = done_nothing,
      frame_size = garbage, save_volatiles = False\<rparr>"

definition delete_StackFrame :: "StackFrame \<Rightarrow> unit result" where
  "delete_StackFrame f = asserted (state f \<noteq> done_prolog) ''stack not restored'' (Inr ())"

section \<open>Allocating\<close>

definition get_parameter :: "arch \<Rightarrow> StackFrame \<Rightarrow> (Address \<times> StackFrame) result" where
  "get_parameter arch f =
     asserted (state f = done_nothing) ''can't change layout after prolog written''
    (asserted (locals f = 0) ''get all parameters before allocating locals''
    (bindR (mk_Address r1 ((link_area_words arch + params f) * wordSize arch)) (\<lambda>a.
       Inr (a, f\<lparr>params := params f + 1\<rparr>))))"

definition get_local_variable :: "arch \<Rightarrow> StackFrame \<Rightarrow> (Address \<times> StackFrame) result" where
  "get_local_variable arch f =
     asserted (state f = done_nothing) ''can't change layout after prolog written''
    (let f = (if params f < min_params arch then f\<lparr>params := min_params arch\<rparr> else f)
     in bindR (mk_Address r1 ((link_area_words arch + params f + locals f) * wordSize arch)) (\<lambda>a.
       Inr (a, f\<lparr>locals := locals f + 1\<rparr>)))"

definition get_cr_field :: "StackFrame \<Rightarrow> (ConditionRegister \<times> StackFrame) result" where
  "get_cr_field f =
     asserted (state f = done_nothing) ''can't change layout after prolog written''
    (asserted (crfs f < max_crfs) ''no more fields!''
    (Inr (as_ConditionRegister (word_of_int (4 - crfs f)), f\<lparr>crfs := crfs f + 1\<rparr>)))"

definition get_register :: "StackFrame \<Rightarrow> (Register \<times> StackFrame) result" where
  "get_register f =
     asserted (state f = done_nothing) ''can't change layout after prolog written''
    (asserted (gprs f < max_gprs) ''no more registers!''
    (Inr (as_Register (word_of_int (31 - gprs f)), f\<lparr>gprs := gprs f + 1\<rparr>)))"

definition get_float_register :: "StackFrame \<Rightarrow> (FloatRegister \<times> StackFrame) result" where
  "get_float_register f =
     asserted (state f = done_nothing) ''can't change layout after prolog written''
    (asserted (fprs f < max_fprs) ''no more registers!''
    (Inr (as_FloatRegister (word_of_int (31 - fprs f)), f\<lparr>fprs := fprs f + 1\<rparr>)))"

definition set_save_volatiles :: "bool \<Rightarrow> StackFrame \<Rightarrow> StackFrame result" where
  "set_save_volatiles b f =
     asserted (state f = done_nothing) ''can't change layout after prolog written''
       (Inr (f\<lparr>save_volatiles := b\<rparr>))"

definition unaligned_size :: "arch \<Rightarrow> StackFrame \<Rightarrow> int" where
  "unaligned_size arch f =
     (let crfs' = (case arch of PPC32 \<Rightarrow> if crfs f \<noteq> 0 then 1 else 0 | PPC64 \<Rightarrow> 0);
          params' = (if params f < min_params arch then min_params arch else params f);
          vgprs = (if save_volatiles f then num_vgprs else 0);
          vsprs = (if save_volatiles f then num_vsprs else 0);
          vfprs = (if save_volatiles f then num_vfprs * words_per_fpr arch else 0)
      in (link_area_words arch + params' + locals f + vgprs + vsprs + vfprs + crfs' + gprs f +
          fprs f * words_per_fpr arch) * wordSize arch)"

definition start_of_locals :: "arch \<Rightarrow> StackFrame \<Rightarrow> int" where
  "start_of_locals arch f =
     (let params' = (if params f < min_params arch then min_params arch else params f)
      in (link_area_words arch + params') * wordSize arch)"

section \<open>The prolog and the epilog\<close>

text \<open>The loop that pads the locals until the frame is aligned.\<close>

lemma unaligned_size_Suc:
  "unaligned_size arch (f\<lparr>frame_size := n, locals := l\<rparr>) =
     unaligned_size arch f + (l - locals f) * wordSize arch"
  by (simp add: unaligned_size_def Let_def algebra_simps)

lemma unaligned_size_dvd: "wordSize arch dvd unaligned_size arch f"
  by (simp add: unaligned_size_def Let_def)

lemma padding_decreases:
  assumes "(k * wordSize arch) mod 16 \<noteq> 0"
  shows "(- (k * wordSize arch + wordSize arch)) mod 16 < (- (k * wordSize arch)) mod 16"
proof (cases arch)
  case PPC32
  have "(- (k * 4 + 4)) mod 16 = 4 * ((- k - 1) mod 4)" "(- (k * 4)) mod 16 = 4 * ((- k) mod 4)"
  proof -
    have "- (k * 4 + 4) = 4 * (- k - 1)" "- (k * 4) = 4 * (- k)" by simp_all
    then show "(- (k * 4 + 4)) mod 16 = 4 * ((- k - 1) mod 4)" "(- (k * 4)) mod 16 = 4 * ((- k) mod 4)"
      using mult_mod_right [of 4 "- k - 1" 4] mult_mod_right [of 4 "- k" 4]
      by (simp_all add: mult.commute [of k 4])
  qed
  moreover have "k mod 4 \<noteq> 0" using assms PPC32 by auto
  then have "(- k - 1) mod 4 < (- k) mod 4" by presburger
  ultimately show ?thesis using PPC32 by simp
next
  case PPC64
  have "(- (k * 8 + 8)) mod 16 = 8 * ((- k - 1) mod 2)" "(- (k * 8)) mod 16 = 8 * ((- k) mod 2)"
  proof -
    have "- (k * 8 + 8) = 8 * (- k - 1)" "- (k * 8) = 8 * (- k)" by simp_all
    then show "(- (k * 8 + 8)) mod 16 = 8 * ((- k - 1) mod 2)" "(- (k * 8)) mod 16 = 8 * ((- k) mod 2)"
      using mult_mod_right [of 8 "- k - 1" 2] mult_mod_right [of 8 "- k" 2]
      by (simp_all add: mult.commute [of k 8])
  qed
  moreover have "k mod 2 \<noteq> 0" using assms PPC64 by simp presburger
  then have "(- k - 1) mod 2 < (- k) mod 2" by presburger
  ultimately show ?thesis using PPC64 by simp
qed

function frame_align :: "arch \<Rightarrow> StackFrame \<Rightarrow> StackFrame" where
  "frame_align arch f =
     (let f = f\<lparr>frame_size := unaligned_size arch f\<rparr>
      in if frame_size f mod StackAlignmentInBytes = 0 then f
         else frame_align arch (f\<lparr>locals := locals f + 1\<rparr>))"
  by pat_completeness auto
termination
proof (relation "measure (\<lambda>(arch, f). nat ((- unaligned_size arch f) mod 16))")
  fix arch f f'
  assume f': "f' = f\<lparr>frame_size := unaligned_size arch f\<rparr>"
    and "frame_size f' mod StackAlignmentInBytes \<noteq> 0"
  then have n: "unaligned_size arch f mod 16 \<noteq> 0" by (simp add: StackAlignmentInBytes_def)
  have e: "unaligned_size arch (f'\<lparr>locals := locals f' + 1\<rparr>) = unaligned_size arch f + wordSize arch"
    by (simp add: f' unaligned_size_Suc)
  obtain k where k: "unaligned_size arch f = k * wordSize arch"
    by (metis dvdE mult.commute unaligned_size_dvd)
  have "(- (k * wordSize arch + wordSize arch)) mod 16 < (- (k * wordSize arch)) mod 16"
    using n unfolding k by (rule padding_decreases)
  moreover have "0 \<le> (- (k * wordSize arch + wordSize arch)) mod 16" by simp
  ultimately show "((arch, f'\<lparr>locals := locals f' + 1\<rparr>), arch, f)
      \<in> measure (\<lambda>(arch, f). nat ((- unaligned_size arch f) mod 16))"
    unfolding in_measure case_prod_conv e k by linarith
qed simp

declare frame_align.simps [simp del]

text \<open>
  \<^verbatim>\<open>for (int i = lo; i < hi; i++) store(as_Register(i), Address(r1, offset++ * wordSize))\<close>,
  and the same for loads and for floating point registers, which take \<^verbatim>\<open>words_per_fpr\<close> words.
\<close>

definition each_gpr :: "arch \<Rightarrow> (Register \<Rightarrow> Address result \<Rightarrow> 'a emitter) \<Rightarrow> int \<Rightarrow> int \<Rightarrow> int \<Rightarrow> 'a emitter list" where
  "each_gpr arch op lo hi ofs =
     map (\<lambda>i. op (as_Register (word_of_int i)) (mk_Address r1 ((ofs + (i - lo)) * wordSize arch)))
       [lo..hi - 1]"

definition each_fpr :: "arch \<Rightarrow> (FloatRegister \<Rightarrow> Address result \<Rightarrow> 'a emitter) \<Rightarrow> int \<Rightarrow> int \<Rightarrow> int \<Rightarrow> 'a emitter list" where
  "each_fpr arch op lo hi ofs =
     map (\<lambda>i. op (as_FloatRegister (word_of_int i))
       (mk_Address r1 ((ofs + (i - lo) * words_per_fpr arch) * wordSize arch))) [lo..hi - 1]"

text \<open>
  Both routines compute the same offsets, in words from \<open>r1\<close>: of the slot of \<open>r0\<close>, of \<open>r3\<close>
  and the others that are volatile, of \<open>ctr\<close>, of \<open>f0\<close>, and, after those, of the condition
  register, and of the first general and the first floating point register that are not
  volatile.
\<close>

record frame_offsets =
  r0_save :: int
  vgpr_at :: int
  ctr_at :: int
  vfpr_at :: int
  cr_at :: int
  gpr_at :: int
  fpr_at :: int

definition frame_offsets_of :: "arch \<Rightarrow> StackFrame \<Rightarrow> frame_offsets" where
  "frame_offsets_of arch f =
     (let offset0 = start_of_locals arch f div wordSize arch + locals f;
          offset1 = offset0 + 1;
          offset2 = (if save_volatiles f then offset1 + 10 else offset1);
          offset3 = (if save_volatiles f then offset2 + 1 else offset2);
          offset4 = (if save_volatiles f then offset3 + num_vfprs * words_per_fpr arch else offset3);
          offset5 = (if crfs f \<noteq> 0 \<and> arch = PPC32 then offset4 + 1 else offset4);
          offset6 = offset5 + gprs f
      in \<lparr>r0_save = offset0, vgpr_at = offset1, ctr_at = offset2, vfpr_at = offset3,
          cr_at = (case arch of PPC32 \<Rightarrow> offset4 | PPC64 \<Rightarrow> 1), gpr_at = offset5, fpr_at = offset6\<rparr>)"

definition prolog_code :: "arch \<Rightarrow> StackFrame \<Rightarrow> 'a emitter list" where
  "prolog_code arch f =
     (let k = frame_offsets_of arch f; at = (\<lambda>n. mk_Address r1 (n * wordSize arch));
          store = masm_store arch
      in
       (if save_volatiles f
        then [masm_store_update arch r1 (mk_Address r1 (- frame_size f)),
              store r0 (at (r0_save k)),
              asm_mflr r0,
              store r0 (mk_Address r1 (frame_size f + lr_save_offset arch * wordSize arch))]
        else [asm_mflr r0,
              store r0 (at (lr_save_offset arch)),
              masm_store_update arch r1 (mk_Address r1 (- frame_size f))]) @
       (if save_volatiles f
        then each_gpr arch store 3 13 (vgpr_at k) @
             [asm_mfctr r0, store r0 (at (ctr_at k))] @
             each_fpr arch asm_stfd 0 num_vfprs (vfpr_at k)
        else []) @
       (if crfs f \<noteq> 0 then [asm_mfcr r0, store r0 (at (cr_at k))] else []) @
       each_gpr arch store (32 - gprs f) 32 (gpr_at k) @
       each_fpr arch asm_stfd (32 - fprs f) 32 (fpr_at k) @
       (if save_volatiles f then [masm_load_A arch r0 (at (r0_save k))] else []))"

definition generate_prolog :: "arch \<Rightarrow> StackFrame \<Rightarrow> 'a asm \<Rightarrow> (StackFrame \<times> 'a asm) result" where
  "generate_prolog arch f s =
     asserted (state f = done_nothing) ''invalid state''
    (let f = frame_align arch f
     in bindR (seqR (prolog_code arch f) s) (\<lambda>s. Inr (f\<lparr>state := done_prolog\<rparr>, s)))"

definition epilog_code :: "arch \<Rightarrow> StackFrame \<Rightarrow> 'a emitter list" where
  "epilog_code arch f =
     (let k = frame_offsets_of arch f; at = (\<lambda>n. mk_Address r1 (n * wordSize arch));
          load = masm_load_A arch
      in
       (if save_volatiles f
        then each_gpr arch load 3 13 (vgpr_at k) @
             [load r0 (at (ctr_at k)), asm_mtctr r0] @
             each_fpr arch asm_lfd 0 num_vfprs (vfpr_at k)
        else []) @
       (if crfs f \<noteq> 0 then [load r0 (at (cr_at k)), asm_mtcr r0] else []) @
       each_gpr arch load (32 - gprs f) 32 (gpr_at k) @
       each_fpr arch asm_lfd (32 - fprs f) 32 (fpr_at k) @
       (if save_volatiles f
        then [load r0 (mk_Address r1 (frame_size f + lr_save_offset arch * wordSize arch)),
              asm_mtlr r0,
              load r0 (at (r0_save k)),
              asm_addi r1 r1 (word_of_int (frame_size f))]
        else [asm_addi r1 r1 (word_of_int (frame_size f)),
              load r0 (at (lr_save_offset arch)),
              asm_mtlr r0]))"

definition generate_epilog :: "arch \<Rightarrow> StackFrame \<Rightarrow> 'a asm \<Rightarrow> (StackFrame \<times> 'a asm) result" where
  "generate_epilog arch f s =
     asserted (state f \<noteq> done_nothing) ''invalid state''
       (bindR (seqR (epilog_code arch f) s) (\<lambda>s. Inr (f\<lparr>state := done_epilog\<rparr>, s)))"

definition masm_prolog :: "arch \<Rightarrow> StackFrame \<Rightarrow> 'a asm \<Rightarrow> (StackFrame \<times> 'a asm) result" where
  "masm_prolog arch f s = generate_prolog arch f s"

definition masm_epilog :: "arch \<Rightarrow> StackFrame \<Rightarrow> 'a asm \<Rightarrow> (StackFrame \<times> 'a asm) result" where
  "masm_epilog arch f s = generate_epilog arch f s"

end
