(* ===== verification/FrameLayout.thy ===== *)
theory FrameLayout
  imports StackFrames
begin

text \<open>
  The layout of stack frames. The words the prolog and the epilog emit are read back as
  accesses to memory through \<open>r1\<close>; \<open>save_slots\<close> is the abstract save area, which both routines
  are shown to implement, and which is then placed against the bounds of the frame.
\<close>

section \<open>What is stored and loaded where\<close>

text \<open>
  An emitted word read as an access to memory through \<open>r1\<close>: the register and the
  displacement. \<open>StoreU\<close> is a store that also updates \<open>r1\<close>.
\<close>

datatype mem_access = StoreG nat int | StoreF nat int | LoadG nat int | LoadF nat int | StoreU nat int

definition r1_access :: "arch \<Rightarrow> c_int \<Rightarrow> mem_access option" where
  "r1_access arch w =
     (let opcode = unat (fld 26 6 w); reg = unat (fld 21 5 w);
          d = sint (ucast w :: 16 word);
          ds = sint (push_bit 2 (ucast (fld 2 14 w)) :: 16 word); xo = unat (fld 0 2 w)
      in if unat (fld 16 5 w) \<noteq> 1 then None
         else if opcode = 54 then Some (StoreF reg d)
         else if opcode = 50 then Some (LoadF reg d)
         else (case arch of
           PPC32 \<Rightarrow> if opcode = 36 then Some (StoreG reg d)
             else if opcode = 37 then Some (StoreU reg d)
             else if opcode = 32 then Some (LoadG reg d) else None
         | PPC64 \<Rightarrow> if opcode = 62 \<and> xo = 0 then Some (StoreG reg ds)
             else if opcode = 62 \<and> xo = 1 then Some (StoreU reg ds)
             else if opcode = 58 \<and> xo = 0 then Some (LoadG reg ds) else None))"

definition accesses :: "arch \<Rightarrow> c_int list \<Rightarrow> mem_access list" where
  "accesses arch ws = List.map_filter (r1_access arch) ws"

definition traces :: "arch \<Rightarrow> 'a emitter \<Rightarrow> mem_access list \<Rightarrow> bool" where
  "traces arch e as \<longleftrightarrow> (\<exists>ws. emits e ws \<and> accesses arch ws = as)"

lemma traces_one: "emits e [w] \<Longrightarrow> r1_access arch w = Some a \<Longrightarrow> traces arch e [a]"
  by (auto simp: traces_def accesses_def map_filter_simps)

lemma traces_none: "emits e [w] \<Longrightarrow> r1_access arch w = None \<Longrightarrow> traces arch e []"
  by (auto simp: traces_def accesses_def map_filter_simps)

lemma traces_seq_Nil [simp]: "traces arch (seqR []) []"
  by (auto simp: traces_def accesses_def map_filter_simps intro!: exI [of _ "[]"])

lemma accesses_append: "accesses arch (xs @ ys) = accesses arch xs @ accesses arch ys"
  by (simp add: accesses_def map_filter_def)

lemma traces_seq_Cons: "traces arch e as \<Longrightarrow> traces arch (seqR es) bs \<Longrightarrow> traces arch (seqR (e # es)) (as @ bs)"
  unfolding traces_def by (metis emits_seq_Cons accesses_append)

lemma traces_seq_append:
  "traces arch (seqR xs) as \<Longrightarrow> traces arch (seqR ys) bs \<Longrightarrow> traces arch (seqR (xs @ ys)) (as @ bs)"
  unfolding traces_def by (metis emits_seq_append accesses_append)

lemma traces_seq_map:
  "(\<And>x. x \<in> set xs \<Longrightarrow> traces arch (f x) [g x]) \<Longrightarrow> traces arch (seqR (map f xs)) (map g xs)"
proof (induction xs)
  case (Cons x xs)
  from traces_seq_Cons [OF Cons.prems [of x] Cons.IH] Cons.prems show ?case by (simp del: seqR.simps)
qed simp

lemma traces_seq_if:
  "(p \<Longrightarrow> traces arch (seqR xs) as) \<Longrightarrow> (\<not> p \<Longrightarrow> traces arch (seqR ys) bs) \<Longrightarrow>
    traces arch (seqR (if p then xs else ys)) (if p then as else bs)"
  by simp

text \<open>Displacements that a 16-bit field holds and, on PPC64, a DS-form instruction does.\<close>

definition disp_ok :: "arch \<Rightarrow> int \<Rightarrow> bool" where
  "disp_ok arch d \<longleftrightarrow> - 32768 \<le> d \<and> d < 32768 \<and> d mod wordSize arch = 0"

lemma r1_not_r0: "r1 \<noteq> r0"
  by (simp add: reg_defs)

lemma enc_r1: "Register_encoding r1 = Inr 1"
  by (simp add: r1_def)

lemma mk_Address_r1: "mk_Address r1 d = Inr \<lparr>Address_base = r1, Address_disp = word_of_int d\<rparr>"
  by (simp add: mk_Address_def r1_not_r0)

lemma ucast_Address_displacement:
  "ucast (Address_displacement \<lparr>Address_base = b, Address_disp = x\<rparr>) = x"
  by (rule bit_word_eqI) (simp add: Address_displacement_def and_masks bit_simps)

lemma sint_disp: "- 32768 \<le> d \<Longrightarrow> d < 32768 \<Longrightarrow> sint (word_of_int d :: 16 word) = d"
  by (simp add: signed_of_int signed_take_bit_int_eq_self)

lemma ucast_D_form: "(ucast (D_form opc a b c) :: 16 word) = ucast c"
  by (rule bit_word_eqI) (auto simp: D_form_def bit_simps)

lemma fits_small_consts [simp]: "fits 6 (50 :: c_int)" "fits 6 (54 :: c_int)" "fits 6 (36 :: c_int)"
  "fits 6 (32 :: c_int)" "fits 6 (37 :: c_int)" "fits 6 (58 :: c_int)" "fits 6 (62 :: c_int)"
  "fits 6 (31 :: c_int)" "fits 6 (14 :: c_int)" "fits 5 (1 :: c_int)" "fits 2 (1 :: c_int)"
  by (simp_all add: fits_unat)

lemma D_r1_emits:
  assumes "unat r < 32" "fits 6 opc"
  shows "emits (emit_D_RA opc (as_Register r) (mk_Address r1 d))
      [D_form opc r 1 (Address_displacement \<lparr>Address_base = r1, Address_disp = word_of_int d\<rparr>)]"
    "emits (emit_D_FA opc (as_FloatRegister r) (mk_Address r1 d))
      [D_form opc r 1 (Address_displacement \<lparr>Address_base = r1, Address_disp = word_of_int d\<rparr>)]"
  using emit_D_emits_pos [of opc r 1, OF assms(2) fits5_small _ Address_displacement_fits] assms
  by (simp_all add: emits_def emit_D_RA_def emit_D_FA_def emit_D_RRi_def emit_D_FRi_def mk_Address_r1 enc_r1)


lemma D_r1_access:
  assumes "unat r < 32" "- 32768 \<le> d" "d < 32768" "fits 6 opc"
  defines "w \<equiv> D_form opc r 1 (Address_displacement \<lparr>Address_base = r1, Address_disp = word_of_int d\<rparr>)"
  shows "unat (fld 26 6 w) = unat opc" "unat (fld 21 5 w) = unat r" "unat (fld 16 5 w) = 1"
    "sint (ucast w :: 16 word) = d"
  using D_form_fields [of opc r 1, OF assms(4) fits5_small _ Address_displacement_fits] assms(1-3)
  by (simp_all add: w_def ucast_D_form ucast_Address_displacement sint_disp)

definition DS_word :: "c_int \<Rightarrow> c_int \<Rightarrow> int \<Rightarrow> c_int \<Rightarrow> c_int" where
  "DS_word opc r d xo = DS_form opc r 1 (c_shr (Address_displacement \<lparr>Address_base = r1, Address_disp = word_of_int d\<rparr>) 2) xo"

lemma c_shr_disp:
  "c_shr (Address_displacement a) 2 = drop_bit 2 (Address_displacement a)"
  "fits 14 (c_shr (Address_displacement a) 2)"
proof -
  have f: "\<not> bit (Address_displacement a) i" if "16 \<le> i" for i
    using Address_displacement_fits [of a] that by (auto simp: fits_iff_bit)
  show e: "c_shr (Address_displacement a) 2 = drop_bit 2 (Address_displacement a)"
    by (rule bit_word_eqI) (auto simp: c_shr_def bit_simps f)
  show "fits 14 (c_shr (Address_displacement a) 2)"
    unfolding e fits_iff_bit
  proof (intro allI impI)
    fix i
    assume "bit (drop_bit 2 (Address_displacement a)) i"
    then have "bit (Address_displacement a) (2 + i)" by (simp add: bit_drop_bit_eq)
    then show "i < 14" using f [of "2 + i"] by fastforce
  qed
qed

lemma DS_r1_emits:
  assumes "unat r < 32" "fits 6 opc" "fits 2 xo"
  shows "emits (emit_DS_RA opc (as_Register r) (mk_Address r1 d) xo) [DS_word opc r d xo]"
proof -
  let ?c = "c_shr (Address_displacement \<lparr>Address_base = r1, Address_disp = word_of_int d\<rparr>) 2"
  have f: "fits 14 ?c" by (rule c_shr_disp)
  then have "0 \<le> sint ?c" using sint_small [of ?c] by (simp add: fits_unat)
  with f have "emits (emit_DS opc r 1 ?c xo) [DS_word opc r d xo]"
    using assms by (simp add: emits_def emit_DS_def DS_word_def fits_masks fits_masks_neg fits5_small emit_long_def)
  then show ?thesis using assms(1)
    by (simp add: emits_def emit_DS_RA_def emit_DS_RRii_def mk_Address_r1 enc_r1)
qed

lemma drop_push_word: "d mod 4 = 0 \<Longrightarrow> push_bit 2 (drop_bit 2 (word_of_int d :: 16 word)) = word_of_int d"
proof -
  assume "d mod 4 = 0"
  then obtain k where "d = 4 * k" by (metis dvd_eq_mod_eq_0 dvdE)
  then have "word_of_int d = push_bit 2 (word_of_int k :: 16 word)" by (simp add: push_bit_eq_mult)
  then show ?thesis by (simp only:) (rule bit_word_eqI, auto simp: bit_simps)
qed

lemma DS_r1_access:
  assumes "unat r < 32" "- 32768 \<le> d" "d < 32768" "d mod 4 = 0" "fits 6 opc" "fits 2 xo"
  shows "unat (fld 26 6 (DS_word opc r d xo)) = unat opc" "unat (fld 21 5 (DS_word opc r d xo)) = unat r"
    "unat (fld 16 5 (DS_word opc r d xo)) = 1"
    "unat (fld 0 2 (DS_word opc r d xo)) = unat xo"
    "sint (push_bit 2 (ucast (fld 2 14 (DS_word opc r d xo))) :: 16 word) = d"
proof -
  let ?a = "Address_displacement \<lparr>Address_base = r1, Address_disp = word_of_int d\<rparr>"
  note F = DS_form_fields [of opc r 1, OF assms(5) fits5_small [OF assms(1)] _ c_shr_disp(2) assms(6)]
  show "unat (fld 26 6 (DS_word opc r d xo)) = unat opc" "unat (fld 21 5 (DS_word opc r d xo)) = unat r"
    "unat (fld 16 5 (DS_word opc r d xo)) = 1" "unat (fld 0 2 (DS_word opc r d xo)) = unat xo"
    by (simp_all add: DS_word_def F)
  have "ucast (fld 2 14 (DS_word opc r d xo)) = (drop_bit 2 (ucast ?a) :: 16 word)"
    unfolding DS_word_def F(4) [OF fits_small_consts(10)] unfolding c_shr_disp(1)
    by (rule bit_word_eqI) (auto simp: bit_simps dest: Address_displacement_fits [THEN fits_iff_bit [THEN iffD1], rule_format])
  then show "sint (push_bit 2 (ucast (fld 2 14 (DS_word opc r d xo))) :: 16 word) = d"
    using assms by (simp add: ucast_Address_displacement drop_push_word sint_disp)
qed


lemma disp_okD:
  "disp_ok arch d \<Longrightarrow> - 32768 \<le> d" "disp_ok arch d \<Longrightarrow> d < 32768" "disp_ok arch d \<Longrightarrow> d mod 4 = 0"
  by (cases arch; simp add: disp_ok_def; presburger)+

lemma traces_store:
  assumes "unat r < 32" "disp_ok arch d"
  shows "traces arch (masm_store arch (as_Register r) (mk_Address r1 d)) [StoreG (unat r) d]"
    "traces arch (masm_load_A arch (as_Register r) (mk_Address r1 d)) [LoadG (unat r) d]"
    "traces arch (masm_store_update arch (as_Register r) (mk_Address r1 d)) [StoreU (unat r) d]"
    "traces arch (asm_stfd (as_FloatRegister r) (mk_Address r1 d)) [StoreF (unat r) d]"
    "traces arch (asm_lfd (as_FloatRegister r) (mk_Address r1 d)) [LoadF (unat r) d]"
proof -
  note d = disp_okD [OF assms(2)]
  note D = D_r1_access [OF assms(1) d(1,2)] and DS = DS_r1_access [OF assms(1) d]
  note DE = D_r1_emits [OF assms(1)] and DSE = DS_r1_emits [OF assms(1)]
  show "traces arch (masm_store arch (as_Register r) (mk_Address r1 d)) [StoreG (unat r) d]"
    by (cases arch; simp add: masm_store_def asm_stw_def asm_std_def;
        rule traces_one [OF DE(1)] traces_one [OF DSE]; simp add: r1_access_def D DS Let_def)
  show "traces arch (masm_load_A arch (as_Register r) (mk_Address r1 d)) [LoadG (unat r) d]"
    by (cases arch; simp add: masm_load_A_def asm_lwz_def asm_ld_def;
        rule traces_one [OF DE(1)] traces_one [OF DSE]; simp add: r1_access_def D DS Let_def)
  show "traces arch (masm_store_update arch (as_Register r) (mk_Address r1 d)) [StoreU (unat r) d]"
    by (cases arch; simp add: masm_store_update_def asm_stwu_def asm_stdu_def;
        rule traces_one [OF DE(1)] traces_one [OF DSE]; simp add: r1_access_def D DS Let_def)
  show "traces arch (asm_stfd (as_FloatRegister r) (mk_Address r1 d)) [StoreF (unat r) d]"
    unfolding asm_stfd_def by (rule traces_one [OF DE(2)]; simp add: r1_access_def D Let_def)
  show "traces arch (asm_lfd (as_FloatRegister r) (mk_Address r1 d)) [LoadF (unat r) d]"
    unfolding asm_lfd_def by (rule traces_one [OF DE(2)]; simp add: r1_access_def D Let_def)
qed

lemma r1_access_X31:
  assumes "fits 5 a" "fits 5 b" "fits 5 c" "fits 10 xo"
  shows "r1_access arch (X_form 31 a b c xo rc) = None"
  using X_form_fields(1) [of 31 a b c xo rc] assms by (cases arch) (simp_all add: r1_access_def Let_def)

lemma traces_X31:
  assumes "emits e [X_form 31 a b c xo rc]" "fits 5 a" "fits 5 b" "fits 5 c" "fits 10 xo"
  shows "traces arch e []"
  using assms r1_access_X31 by (intro traces_none)

lemma traces_spr:
  "traces arch (asm_mflr r0) []" "traces arch (asm_mtlr r0) []" "traces arch (asm_mfctr r0) []"
  "traces arch (asm_mtctr r0) []" "traces arch (asm_mfcr r0) []" "traces arch (asm_mtcr r0) []"
proof -
  note X = emit_X_emits [of 31 0]
  have "emits (asm_mflr r0) [X_form 31 0 8 0 339 False]" "emits (asm_mtlr r0) [X_form 31 0 8 0 467 False]"
    "emits (asm_mfctr r0) [X_form 31 0 9 0 339 False]" "emits (asm_mtctr r0) [X_form 31 0 9 0 467 False]"
    "emits (asm_mfcr r0) [X_form 31 0 0 0 19 False]" "emits (asm_mtcr r0) [X_form 31 0 0xf 0x1e 144 False]"
    using X [of 8 0 339 False] X [of 8 0 467 False] X [of 9 0 339 False] X [of 9 0 467 False]
      X [of 0 0 19 False] X [of "0xf" "0x1e" 144 False]
    by (simp_all add: emits_def asm_defs emit_X_RS_def emit_X_Rii_def reg_defs fits_unat c_shr_def)
  from this [THEN traces_X31]
  show "traces arch (asm_mflr r0) []" "traces arch (asm_mtlr r0) []" "traces arch (asm_mfctr r0) []"
    "traces arch (asm_mtctr r0) []" "traces arch (asm_mfcr r0) []" "traces arch (asm_mtcr r0) []"
    by (simp_all add: fits_unat)
qed

lemma traces_addi:
  assumes "0 \<le> n" "n < 32768"
  shows "traces arch (asm_addi r1 r1 (word_of_int n)) []"
proof -
  have "unat (word_of_int n :: c_int) < 2 ^ 16"
    using assms by (simp add: unsigned_of_int take_bit_int_eq_self nat_less_iff)
  then have f: "fits 16 (word_of_int n :: c_int)" by (simp add: fits_unat)
  have e: "emits (asm_addi r1 r1 (word_of_int n)) [D_form 14 1 1 (word_of_int n)]"
    using emit_D_emits_pos [OF _ _ _ f, of 14 1 1]
    by (simp add: emits_def asm_addi_def emit_D_RRi_def enc_r1)
  show ?thesis
    by (rule traces_none [OF e]) (cases arch; simp add: r1_access_def D_form_fields f Let_def)
qed


section \<open>The save area\<close>

text \<open>
  The abstract layout: a slot is a kind of register (\<open>True\<close>: floating point), its number and
  the displacement where it is kept; \<open>r0\<close> stands for \<open>ctr\<close> and for the condition register,
  which go through it.
\<close>

definition save_slots :: "arch \<Rightarrow> StackFrame \<Rightarrow> (bool \<times> int \<times> int) list" where
  "save_slots arch f =
     (let k = frame_offsets_of arch f; ws = wordSize arch; wpf = words_per_fpr arch
      in (if save_volatiles f
          then map (\<lambda>i. (False, i, (vgpr_at k + (i - 3)) * ws)) [3..12] @ [(False, 0, ctr_at k * ws)] @
               map (\<lambda>i. (True, i, (vfpr_at k + i * wpf) * ws)) [0..13]
          else []) @
         (if crfs f \<noteq> 0 then [(False, 0, cr_at k * ws)] else []) @
         map (\<lambda>i. (False, i, (gpr_at k + (i - (32 - gprs f))) * ws)) [32 - gprs f..31] @
         map (\<lambda>i. (True, i, (fpr_at k + (i - (32 - fprs f)) * wpf) * ws)) [32 - fprs f..31])"

definition store_of :: "bool \<times> int \<times> int \<Rightarrow> mem_access" where
  "store_of = (\<lambda>(fp, i, d). if fp then StoreF (nat i) d else StoreG (nat i) d)"

definition load_of :: "bool \<times> int \<times> int \<Rightarrow> mem_access" where
  "load_of = (\<lambda>(fp, i, d). if fp then LoadF (nat i) d else LoadG (nat i) d)"

definition frame_ok :: "arch \<Rightarrow> StackFrame \<Rightarrow> bool" where
  "frame_ok arch f \<longleftrightarrow> 0 \<le> params f \<and> 0 \<le> locals f \<and> 0 \<le> gprs f \<and> gprs f \<le> max_gprs \<and>
     0 \<le> fprs f \<and> fprs f \<le> max_fprs \<and> unaligned_size arch f < 32700"

lemma frame_align_shape:
  "\<exists>n. 0 \<le> n \<and> n * wordSize arch < 16 \<and>
     frame_align arch f = f\<lparr>locals := locals f + n, frame_size := unaligned_size arch f + n * wordSize arch\<rparr> \<and>
     (unaligned_size arch f + n * wordSize arch) mod 16 = 0"
proof -
  let ?ws = "wordSize arch"
  have step: "frame_align arch f = f\<lparr>locals := locals f + n, frame_size := unaligned_size arch f + n * ?ws\<rparr>"
    if "(unaligned_size arch f + int m * ?ws) mod 16 = 0" "n = int m"
      "\<forall>j<m. (unaligned_size arch f + int j * ?ws) mod 16 \<noteq> 0" for m n f
    using that
  proof (induction m arbitrary: f n)
    case 0
    then show ?case
      by (subst frame_align.simps) (simp add: StackAlignmentInBytes_def)
  next
    case (Suc m)
    let ?f = "f\<lparr>frame_size := unaligned_size arch f, locals := locals f + 1\<rparr>"
    have u: "unaligned_size arch ?f = unaligned_size arch f + ?ws"
      by (simp add: unaligned_size_Suc)
    have "frame_align arch f = frame_align arch ?f"
      using Suc.prems(3) [rule_format, of 0] by (subst frame_align.simps) (simp add: StackAlignmentInBytes_def)
    also have "\<dots> = ?f\<lparr>locals := locals ?f + int m, frame_size := unaligned_size arch ?f + int m * ?ws\<rparr>"
    proof (rule Suc.IH)
      show "(unaligned_size arch ?f + int m * ?ws) mod 16 = 0"
        unfolding u using Suc.prems(1) by (simp add: algebra_simps)
      show "\<forall>j<m. (unaligned_size arch ?f + int j * ?ws) mod 16 \<noteq> 0"
      proof (intro allI impI)
        fix j assume "j < m"
        with Suc.prems(3) [rule_format, of "Suc j"]
        show "(unaligned_size arch ?f + int j * ?ws) mod 16 \<noteq> 0" unfolding u by (simp add: algebra_simps)
      qed
    qed simp
    finally show ?case unfolding u using Suc.prems(2) by (simp add: algebra_simps)
  qed
  have ex: "\<exists>m. int m * ?ws < 16 \<and> (unaligned_size arch f + int m * ?ws) mod 16 = 0"
  proof -
    obtain k where k: "unaligned_size arch f = k * ?ws"
      by (metis dvdE mult.commute unaligned_size_dvd)
    show ?thesis unfolding k
    proof (cases arch)
      case PPC32
      have "(k + (- k) mod 4) mod 4 = 0" by presburger
      then obtain q where "k + (- k) mod 4 = 4 * q" by (metis dvd_eq_mod_eq_0 dvdE)
      then have "k * 4 + (- k) mod 4 * 4 = 16 * q" by (simp add: distrib_right [symmetric])
      then show "\<exists>m. int m * ?ws < 16 \<and> (k * ?ws + int m * ?ws) mod 16 = 0"
        using PPC32 by (intro exI [of _ "nat ((- k) mod 4)"]) simp
    next
      case PPC64
      have "(k + (- k) mod 2) mod 2 = 0" by presburger
      then obtain q where "k + (- k) mod 2 = 2 * q" by (metis dvd_eq_mod_eq_0 dvdE)
      then have "k * 8 + (- k) mod 2 * 8 = 16 * q" by (simp add: distrib_right [symmetric])
      then show "\<exists>m. int m * ?ws < 16 \<and> (k * ?ws + int m * ?ws) mod 16 = 0"
        using PPC64 by (intro exI [of _ "nat ((- k) mod 2)"]) simp
    qed
  qed
  define m where "m = (LEAST m. (unaligned_size arch f + int m * ?ws) mod 16 = 0)"
  obtain m' where m': "int m' * ?ws < 16" "(unaligned_size arch f + int m' * ?ws) mod 16 = 0"
    using ex by (elim exE conjE) (rule that)
  have 1: "(unaligned_size arch f + int m * ?ws) mod 16 = 0" unfolding m_def using m'(2) by (rule LeastI)
  have 2: "\<forall>j<m. (unaligned_size arch f + int j * ?ws) mod 16 \<noteq> 0"
    unfolding m_def by (intro allI impI, drule not_less_Least)
  have "m \<le> m'" unfolding m_def using m'(2) by (rule Least_le)
  then have "int m * ?ws \<le> int m' * ?ws" by (simp add: mult_right_mono)
  then have "int m * ?ws < 16" using m'(1) by (rule le_less_trans)
  then have 3: "0 \<le> int m \<and> int m * ?ws < 16 \<and> frame_align arch f =
      f\<lparr>locals := locals f + int m, frame_size := unaligned_size arch f + int m * ?ws\<rparr> \<and>
      (unaligned_size arch f + int m * ?ws) mod 16 = 0"
    by (intro conjI of_nat_0_le_iff 1 step [OF 1 refl 2])
  show ?thesis by (rule exI [of _ "int m"], rule 3)
qed

text \<open>An aligned frame, as the alignment loop leaves it.\<close>

definition frame_aligned :: "arch \<Rightarrow> StackFrame \<Rightarrow> bool" where
  "frame_aligned arch g \<longleftrightarrow> 0 \<le> params g \<and> 0 \<le> locals g \<and> 0 \<le> gprs g \<and> gprs g \<le> 18 \<and>
     0 \<le> fprs g \<and> fprs g \<le> 18 \<and> frame_size g = unaligned_size arch g \<and> frame_size g mod 16 = 0 \<and>
     frame_size g < 32716"

lemma frame_align_aligned: "frame_ok arch f \<Longrightarrow> frame_aligned arch (frame_align arch f)"
proof -
  assume ok: "frame_ok arch f"
  obtain n where n: "0 \<le> n" "n * wordSize arch < 16"
    "frame_align arch f = f\<lparr>locals := locals f + n, frame_size := unaligned_size arch f + n * wordSize arch\<rparr>"
    "(unaligned_size arch f + n * wordSize arch) mod 16 = 0"
    using frame_align_shape [of arch f] by (elim exE conjE) (rule that)
  let ?g = "f\<lparr>locals := locals f + n, frame_size := unaligned_size arch f + n * wordSize arch\<rparr>"
  have u: "unaligned_size arch ?g = unaligned_size arch f + n * wordSize arch"
    by (simp add: unaligned_size_def Let_def algebra_simps)
  have s: "frame_size ?g = unaligned_size arch f + n * wordSize arch" by simp
  have "frame_size ?g < 32716" unfolding s using n(2) ok unfolding frame_ok_def by linarith
  then show ?thesis
    unfolding frame_aligned_def n(3) u s using ok n(1,4)
    by (simp del: dvd_eq_mod_eq_0 add: frame_ok_def max_gprs_def max_fprs_def)
qed

definition frame_base :: "arch \<Rightarrow> StackFrame \<Rightarrow> int" where
  "frame_base arch g = start_of_locals arch g div wordSize arch + locals g"

lemma frame_size_words:
  assumes "frame_aligned arch g"
  shows "frame_size g = (frame_base arch g + (if save_volatiles g then 12 + 14 * words_per_fpr arch else 0) +
    (if crfs g \<noteq> 0 \<and> arch = PPC32 then 1 else 0) + gprs g + fprs g * words_per_fpr arch) * wordSize arch"
    "link_area_words arch \<le> frame_base arch g"
  using assms unfolding frame_aligned_def
  by (cases arch; simp add: unaligned_size_def frame_base_def start_of_locals_def Let_def frame_constants)+

lemma frame_offsets_simps:
  "r0_save (frame_offsets_of arch g) = frame_base arch g"
  "vgpr_at (frame_offsets_of arch g) = frame_base arch g + 1"
  "ctr_at (frame_offsets_of arch g) = frame_base arch g + (if save_volatiles g then 11 else 1)"
  "vfpr_at (frame_offsets_of arch g) = frame_base arch g + (if save_volatiles g then 12 else 1)"
  "cr_at (frame_offsets_of arch g) = (case arch of
     PPC32 \<Rightarrow> frame_base arch g + (if save_volatiles g then 12 + 14 * words_per_fpr arch else 1) | PPC64 \<Rightarrow> 1)"
  "gpr_at (frame_offsets_of arch g) = frame_base arch g + (if save_volatiles g then 12 + 14 * words_per_fpr arch else 1) +
     (if crfs g \<noteq> 0 \<and> arch = PPC32 then 1 else 0)"
  "fpr_at (frame_offsets_of arch g) = gpr_at (frame_offsets_of arch g) + gprs g"
  by (auto simp: frame_offsets_of_def frame_base_def Let_def num_vfprs_def split: arch.split)

lemma words_per_fpr_simps [simp]: "words_per_fpr PPC32 = 2" "words_per_fpr PPC64 = 1"
  by (simp_all add: words_per_fpr_def)

lemma save_slots_cases:
  assumes "(fp, i, d) \<in> set (save_slots arch g)"
  obtains
    (vgpr) "save_volatiles g" "\<not> fp" "3 \<le> i" "i \<le> 12" "d = (frame_base arch g + (i - 2)) * wordSize arch"
  | (ctr) "save_volatiles g" "\<not> fp" "i = 0" "d = (frame_base arch g + 11) * wordSize arch"
  | (vfpr) "save_volatiles g" "fp" "0 \<le> i" "i \<le> 13"
      "d = (frame_base arch g + 12 + i * words_per_fpr arch) * wordSize arch"
  | (cr) "crfs g \<noteq> 0" "\<not> fp" "i = 0" "d = cr_at (frame_offsets_of arch g) * wordSize arch"
  | (gpr) "\<not> fp" "32 - gprs g \<le> i" "i \<le> 31"
      "d = (gpr_at (frame_offsets_of arch g) + (i - (32 - gprs g))) * wordSize arch"
  | (fpr) "fp" "32 - fprs g \<le> i" "i \<le> 31"
      "d = (gpr_at (frame_offsets_of arch g) + gprs g + (i - (32 - fprs g)) * words_per_fpr arch) * wordSize arch"
  using assms unfolding save_slots_def Let_def frame_offsets_simps(2-4,7) set_append
  by (elim UnE) (auto split: if_splits simp: algebra_simps simp del: upto_rec_numeral)

lemma save_slots_range:
  assumes "frame_aligned arch g" "(fp, i, d) \<in> set (save_slots arch g)"
  shows "0 \<le> i \<and> i < 32 \<and> d mod wordSize arch = 0 \<and> 0 < d \<and>
    (arch = PPC64 \<and> d = 8 \<or> (frame_base arch g + 1) * wordSize arch \<le> d) \<and>
    d + (if fp then 8 else wordSize arch) \<le> frame_size g + (if save_volatiles g then 0 else wordSize arch)"
proof -
  have g: "0 \<le> gprs g" "gprs g \<le> 18" "0 \<le> fprs g" "fprs g \<le> 18"
    using assms(1) by (simp_all add: frame_aligned_def)
  note w = frame_size_words [OF assms(1)]
  show ?thesis
    using assms(2)
    by (cases rule: save_slots_cases; cases arch; use g w in \<open>simp add: frame_offsets_simps(5,6) link_area_words_def\<close>)
qed

lemma unat_reg: "0 \<le> i \<Longrightarrow> i < 32 \<Longrightarrow> unat (word_of_int i :: c_int) = nat i"
  by (simp add: unsigned_of_int take_bit_int_eq_self)

lemma traces_each_gpr:
  assumes "\<And>r d. unat r < 32 \<Longrightarrow> disp_ok arch d \<Longrightarrow> traces arch (op (as_Register r) (mk_Address r1 d)) [acc (unat r) d]"
    "0 \<le> lo" "hi \<le> 32" "\<forall>i\<in>{lo..hi - 1}. disp_ok arch ((ofs + (i - lo)) * wordSize arch)"
  shows "traces arch (seqR (each_gpr arch op lo hi ofs))
    (map (\<lambda>i. acc (nat i) ((ofs + (i - lo)) * wordSize arch)) [lo..hi - 1])"
  unfolding each_gpr_def
proof (rule traces_seq_map)
  fix i
  assume "i \<in> set [lo..hi - 1]"
  with assms(2-4) have "0 \<le> i" "i < 32" "disp_ok arch ((ofs + (i - lo)) * wordSize arch)" by auto
  with assms(1) [of "word_of_int i"] show "traces arch
      (op (as_Register (word_of_int i)) (mk_Address r1 ((ofs + (i - lo)) * wordSize arch)))
      [acc (nat i) ((ofs + (i - lo)) * wordSize arch)]"
    by (simp add: unat_reg)
qed

lemma traces_each_fpr:
  assumes "\<And>r d. unat r < 32 \<Longrightarrow> disp_ok arch d \<Longrightarrow> traces arch (op (as_FloatRegister r) (mk_Address r1 d)) [acc (unat r) d]"
    "0 \<le> lo" "hi \<le> 32" "\<forall>i\<in>{lo..hi - 1}. disp_ok arch ((ofs + (i - lo) * words_per_fpr arch) * wordSize arch)"
  shows "traces arch (seqR (each_fpr arch op lo hi ofs))
    (map (\<lambda>i. acc (nat i) ((ofs + (i - lo) * words_per_fpr arch) * wordSize arch)) [lo..hi - 1])"
  unfolding each_fpr_def
proof (rule traces_seq_map)
  fix i
  assume "i \<in> set [lo..hi - 1]"
  with assms(2-4) have "0 \<le> i" "i < 32" "disp_ok arch ((ofs + (i - lo) * words_per_fpr arch) * wordSize arch)" by auto
  with assms(1) [of "word_of_int i"] show "traces arch
      (op (as_FloatRegister (word_of_int i)) (mk_Address r1 ((ofs + (i - lo) * words_per_fpr arch) * wordSize arch)))
      [acc (nat i) ((ofs + (i - lo) * words_per_fpr arch) * wordSize arch)]"
    by (simp add: unat_reg)
qed

lemma save_slots_disp_ok:
  assumes "frame_aligned arch g" "(fp, i, d) \<in> set (save_slots arch g)"
  shows "disp_ok arch d"
proof -
  note r = save_slots_range [OF assms]
  then have "d \<le> frame_size g" by (auto split: if_splits) (cases arch; simp)+
  moreover have "frame_size g < 32716" using assms(1) by (simp add: frame_aligned_def)
  ultimately show ?thesis using r unfolding disp_ok_def by simp
qed

lemma frame_disps:
  assumes "frame_aligned arch g"
  shows "disp_ok arch (- frame_size g)" "disp_ok arch (frame_base arch g * wordSize arch)"
    "disp_ok arch (frame_size g + lr_save_offset arch * wordSize arch)"
    "disp_ok arch (lr_save_offset arch * wordSize arch)"
    "0 \<le> frame_size g" "frame_size g < 32768"
proof -
  have m: "frame_size g mod 16 = 0" "frame_size g < 32716" using assms by (auto simp: frame_aligned_def)
  have b: "0 \<le> frame_base arch g" using frame_size_words(2) [OF assms] by (cases arch) (simp_all add: link_area_words_def)
  have n: "0 \<le> gprs g" "0 \<le> fprs g" using assms by (auto simp: frame_aligned_def)
  have f: "frame_base arch g * wordSize arch \<le> frame_size g"
    unfolding frame_size_words(1) [OF assms] by (intro mult_right_mono) (use n in \<open>cases arch; simp\<close>)+
  show "0 \<le> frame_size g" using f b by (meson mult_nonneg_nonneg order_trans wordSize_pos less_imp_le)
  then show "disp_ok arch (- frame_size g)" "frame_size g < 32768"
    "disp_ok arch (frame_size g + lr_save_offset arch * wordSize arch)"
    "disp_ok arch (lr_save_offset arch * wordSize arch)"
    using m by (cases arch; simp add: disp_ok_def lr_save_offset_def; presburger)+
  show "disp_ok arch (frame_base arch g * wordSize arch)"
    using f b m by (cases arch) (simp_all add: disp_ok_def)
qed


lemma traces_r0:
  assumes "disp_ok arch d"
  shows "traces arch (masm_store arch r0 (mk_Address r1 d)) [StoreG 0 d]"
    "traces arch (masm_load_A arch r0 (mk_Address r1 d)) [LoadG 0 d]"
    "traces arch (masm_store_update arch r1 (mk_Address r1 d)) [StoreU 1 d]"
  using traces_store(1) [of 0, OF _ assms] traces_store(2) [of 0, OF _ assms]
    traces_store(3) [of 1, OF _ assms]
  by (simp_all add: r0_def r1_def)

lemma frame_range:
  assumes "frame_aligned arch g"
  shows "0 \<le> 32 - gprs g" "0 \<le> 32 - fprs g"
  using assms by (auto simp: frame_aligned_def)

lemma save_slots_mem:
  assumes g: "frame_aligned arch g"
  shows "save_volatiles g \<Longrightarrow> \<forall>i\<in>{3..13 - 1}. disp_ok arch ((vgpr_at (frame_offsets_of arch g) + (i - 3)) * wordSize arch)"
    "save_volatiles g \<Longrightarrow> \<forall>i\<in>{0..num_vfprs - 1}. disp_ok arch ((vfpr_at (frame_offsets_of arch g) + (i - 0) * words_per_fpr arch) * wordSize arch)"
    "save_volatiles g \<Longrightarrow> disp_ok arch (ctr_at (frame_offsets_of arch g) * wordSize arch)"
    "crfs g \<noteq> 0 \<Longrightarrow> disp_ok arch (cr_at (frame_offsets_of arch g) * wordSize arch)"
    "\<forall>i\<in>{32 - gprs g..32 - 1}. disp_ok arch ((gpr_at (frame_offsets_of arch g) + (i - (32 - gprs g))) * wordSize arch)"
    "\<forall>i\<in>{32 - fprs g..32 - 1}. disp_ok arch ((fpr_at (frame_offsets_of arch g) + (i - (32 - fprs g)) * words_per_fpr arch) * wordSize arch)"
proof -
  note ok = save_slots_disp_ok [OF g]
  show "\<forall>i\<in>{3..13 - 1}. disp_ok arch ((vgpr_at (frame_offsets_of arch g) + (i - 3)) * wordSize arch)"
    if "save_volatiles g"
  proof
    fix i :: int
    assume i: "i \<in> {3..13 - 1}"
    show "disp_ok arch ((vgpr_at (frame_offsets_of arch g) + (i - 3)) * wordSize arch)" 
      by (rule ok [of False i]) (use that i in \<open>auto simp: save_slots_def Let_def num_vfprs_def simp del: upto_rec_numeral\<close>)
  qed
  show "\<forall>i\<in>{0..num_vfprs - 1}. disp_ok arch ((vfpr_at (frame_offsets_of arch g) + (i - 0) * words_per_fpr arch) * wordSize arch)"
    if "save_volatiles g"
  proof
    fix i :: int
    assume i: "i \<in> {0..num_vfprs - 1}"
    show "disp_ok arch ((vfpr_at (frame_offsets_of arch g) + (i - 0) * words_per_fpr arch) * wordSize arch)" 
      by (rule ok [of True i]) (use that i in \<open>auto simp: save_slots_def Let_def num_vfprs_def simp del: upto_rec_numeral\<close>)
  qed
  show "disp_ok arch (ctr_at (frame_offsets_of arch g) * wordSize arch)" if "save_volatiles g"
    by (rule ok [of False 0]) (use that in \<open>simp add: save_slots_def Let_def\<close>)
  show "disp_ok arch (cr_at (frame_offsets_of arch g) * wordSize arch)" if "crfs g \<noteq> 0"
    by (rule ok [of False 0]) (use that in \<open>simp add: save_slots_def Let_def\<close>)
  show "\<forall>i\<in>{32 - gprs g..32 - 1}. disp_ok arch ((gpr_at (frame_offsets_of arch g) + (i - (32 - gprs g))) * wordSize arch)"
  proof
    fix i :: int
    assume i: "i \<in> {32 - gprs g..32 - 1}"
    show "disp_ok arch ((gpr_at (frame_offsets_of arch g) + (i - (32 - gprs g))) * wordSize arch)" 
      by (rule ok [of False i]) (use i in \<open>auto simp: save_slots_def Let_def num_vfprs_def simp del: upto_rec_numeral\<close>)
  qed
  show "\<forall>i\<in>{32 - fprs g..32 - 1}. disp_ok arch ((fpr_at (frame_offsets_of arch g) + (i - (32 - fprs g)) * words_per_fpr arch) * wordSize arch)"
  proof
    fix i :: int
    assume i: "i \<in> {32 - fprs g..32 - 1}"
    show "disp_ok arch ((fpr_at (frame_offsets_of arch g) + (i - (32 - fprs g)) * words_per_fpr arch) * wordSize arch)" 
      by (rule ok [of True i]) (use i in \<open>auto simp: save_slots_def Let_def num_vfprs_def simp del: upto_rec_numeral\<close>)
  qed
qed

text \<open>The middle part of both routines.\<close>

lemma traces_saves:
  assumes g: "frame_aligned arch g"
  defines "k \<equiv> frame_offsets_of arch g"
  shows "traces arch (seqR (
       (if save_volatiles g
        then each_gpr arch (masm_store arch) 3 13 (vgpr_at k) @
             [asm_mfctr r0, masm_store arch r0 (mk_Address r1 (ctr_at k * wordSize arch))] @
             each_fpr arch asm_stfd 0 num_vfprs (vfpr_at k)
        else []) @
       (if crfs g \<noteq> 0 then [asm_mfcr r0, masm_store arch r0 (mk_Address r1 (cr_at k * wordSize arch))] else []) @
       each_gpr arch (masm_store arch) (32 - gprs g) 32 (gpr_at k) @
       each_fpr arch asm_stfd (32 - fprs g) 32 (fpr_at k)))
     (map store_of (save_slots arch g))"
proof -
  note M = save_slots_mem [OF g, folded k_def]
  note T = traces_seq_append traces_seq_if traces_seq_Nil
    traces_each_gpr [where op = "masm_store arch" and acc = StoreG, OF traces_store(1)]
    traces_each_fpr [where op = asm_stfd and acc = StoreF, OF traces_store(4)]
    traces_seq_Cons [OF traces_spr(3), simplified append_Nil] traces_seq_Cons [OF traces_spr(5), simplified append_Nil]
    traces_seq_Cons [OF traces_r0(1)]
  have "map store_of (save_slots arch g) =
     (if save_volatiles g
      then map (\<lambda>i. StoreG (nat i) ((vgpr_at k + (i - 3)) * wordSize arch)) [3..13 - 1] @
           ([StoreG 0 (ctr_at k * wordSize arch)] @ []) @
           map (\<lambda>i. StoreF (nat i) ((vfpr_at k + (i - 0) * words_per_fpr arch) * wordSize arch)) [0..num_vfprs - 1]
      else []) @
     (if crfs g \<noteq> 0 then [StoreG 0 (cr_at k * wordSize arch)] @ [] else []) @
     map (\<lambda>i. StoreG (nat i) ((gpr_at k + (i - (32 - gprs g))) * wordSize arch)) [32 - gprs g..32 - 1] @
     map (\<lambda>i. StoreF (nat i) ((fpr_at k + (i - (32 - fprs g)) * words_per_fpr arch) * wordSize arch)) [32 - fprs g..32 - 1]"
    by (simp add: save_slots_def store_of_def k_def Let_def num_vfprs_def)
  moreover have "num_vfprs \<le> 32" by (simp add: num_vfprs_def)
  ultimately show ?thesis
    using frame_range [OF g] by (simp only:) (intro T M; (assumption | simp))
qed


lemma traces_restores:
  assumes g: "frame_aligned arch g"
  defines "k \<equiv> frame_offsets_of arch g"
  shows "traces arch (seqR (
       (if save_volatiles g
        then each_gpr arch (masm_load_A arch) 3 13 (vgpr_at k) @
             [masm_load_A arch r0 (mk_Address r1 (ctr_at k * wordSize arch)), asm_mtctr r0] @
             each_fpr arch asm_lfd 0 num_vfprs (vfpr_at k)
        else []) @
       (if crfs g \<noteq> 0 then [masm_load_A arch r0 (mk_Address r1 (cr_at k * wordSize arch)), asm_mtcr r0] else []) @
       each_gpr arch (masm_load_A arch) (32 - gprs g) 32 (gpr_at k) @
       each_fpr arch asm_lfd (32 - fprs g) 32 (fpr_at k)))
     (map load_of (save_slots arch g))"
proof -
  note M = save_slots_mem [OF g, folded k_def]
  note T = traces_seq_append traces_seq_if traces_seq_Nil
    traces_each_gpr [where op = "masm_load_A arch" and acc = LoadG, OF traces_store(2)]
    traces_each_fpr [where op = asm_lfd and acc = LoadF, OF traces_store(5)]
    traces_seq_Cons [OF traces_spr(4), simplified append_Nil] traces_seq_Cons [OF traces_spr(6), simplified append_Nil]
    traces_seq_Cons [OF traces_r0(2)]
  have "map load_of (save_slots arch g) =
     (if save_volatiles g
      then map (\<lambda>i. LoadG (nat i) ((vgpr_at k + (i - 3)) * wordSize arch)) [3..13 - 1] @
           ([LoadG 0 (ctr_at k * wordSize arch)] @ []) @
           map (\<lambda>i. LoadF (nat i) ((vfpr_at k + (i - 0) * words_per_fpr arch) * wordSize arch)) [0..num_vfprs - 1]
      else []) @
     (if crfs g \<noteq> 0 then [LoadG 0 (cr_at k * wordSize arch)] @ [] else []) @
     map (\<lambda>i. LoadG (nat i) ((gpr_at k + (i - (32 - gprs g))) * wordSize arch)) [32 - gprs g..32 - 1] @
     map (\<lambda>i. LoadF (nat i) ((fpr_at k + (i - (32 - fprs g)) * words_per_fpr arch) * wordSize arch)) [32 - fprs g..32 - 1]"
    by (simp add: save_slots_def load_of_def k_def Let_def num_vfprs_def)
  moreover have "num_vfprs \<le> 32" by (simp add: num_vfprs_def)
  ultimately show ?thesis
    using frame_range [OF g] by (simp only:) (intro T M; (assumption | simp))
qed

lemma prolog_traces:
  assumes g: "frame_aligned arch g"
  shows "traces arch (seqR (prolog_code arch g))
    ((if save_volatiles g
      then [StoreU 1 (- frame_size g), StoreG 0 (frame_base arch g * wordSize arch),
            StoreG 0 (frame_size g + lr_save_offset arch * wordSize arch)]
      else [StoreG 0 (lr_save_offset arch * wordSize arch), StoreU 1 (- frame_size g)]) @
     map store_of (save_slots arch g) @
     (if save_volatiles g then [LoadG 0 (frame_base arch g * wordSize arch)] else []))"
proof -
  note d = frame_disps [OF g]
  have 1: "traces arch (seqR
     (if save_volatiles g
      then [masm_store_update arch r1 (mk_Address r1 (- frame_size g)),
            masm_store arch r0 (mk_Address r1 (frame_base arch g * wordSize arch)), asm_mflr r0,
            masm_store arch r0 (mk_Address r1 (frame_size g + lr_save_offset arch * wordSize arch))]
      else [asm_mflr r0, masm_store arch r0 (mk_Address r1 (lr_save_offset arch * wordSize arch)),
            masm_store_update arch r1 (mk_Address r1 (- frame_size g))]))
    (if save_volatiles g
      then [StoreU 1 (- frame_size g)] @ [StoreG 0 (frame_base arch g * wordSize arch)] @ [] @
            [StoreG 0 (frame_size g + lr_save_offset arch * wordSize arch)] @ []
      else [] @ [StoreG 0 (lr_save_offset arch * wordSize arch)] @ [StoreU 1 (- frame_size g)] @ [])"
    by (intro traces_seq_if traces_seq_Cons traces_seq_Nil traces_spr traces_r0 d)
  have 2: "traces arch (seqR (if save_volatiles g then [masm_load_A arch r0 (mk_Address r1 (frame_base arch g * wordSize arch))] else []))
    (if save_volatiles g then [LoadG 0 (frame_base arch g * wordSize arch)] @ [] else [])"
    by (intro traces_seq_if traces_seq_Cons traces_seq_Nil traces_r0 d)
  show ?thesis
    using traces_seq_append [OF 1 traces_seq_append [OF traces_saves [OF g] 2]]
    unfolding prolog_code_def Let_def append_assoc append_Nil append_Nil2 append_Cons frame_offsets_simps(1) .
qed

lemma epilog_traces:
  assumes g: "frame_aligned arch g"
  shows "traces arch (seqR (epilog_code arch g))
    (map load_of (save_slots arch g) @
     (if save_volatiles g
      then [LoadG 0 (frame_size g + lr_save_offset arch * wordSize arch), LoadG 0 (frame_base arch g * wordSize arch)]
      else [LoadG 0 (lr_save_offset arch * wordSize arch)]))"
proof -
  note d = frame_disps [OF g]
  have 1: "traces arch (seqR
     (if save_volatiles g
      then [masm_load_A arch r0 (mk_Address r1 (frame_size g + lr_save_offset arch * wordSize arch)), asm_mtlr r0,
            masm_load_A arch r0 (mk_Address r1 (frame_base arch g * wordSize arch)),
            asm_addi r1 r1 (word_of_int (frame_size g))]
      else [asm_addi r1 r1 (word_of_int (frame_size g)),
            masm_load_A arch r0 (mk_Address r1 (lr_save_offset arch * wordSize arch)), asm_mtlr r0]))
    (if save_volatiles g
      then [LoadG 0 (frame_size g + lr_save_offset arch * wordSize arch)] @ [] @
           [LoadG 0 (frame_base arch g * wordSize arch)] @ [] @ []
      else [] @ [LoadG 0 (lr_save_offset arch * wordSize arch)] @ [] @ [])"
    by (intro traces_seq_if traces_seq_Cons traces_seq_Nil traces_spr traces_r0 traces_addi d)
  show ?thesis
    using traces_seq_append [OF traces_restores [OF g] 1]
    unfolding epilog_code_def Let_def append_assoc append_Nil append_Nil2 append_Cons frame_offsets_simps(1) .
qed


text \<open>Slots that follow one another without a gap, from \<open>lo\<close> to \<open>hi\<close>.\<close>

fun contiguous :: "arch \<Rightarrow> int \<Rightarrow> (bool \<times> int \<times> int) list \<Rightarrow> int \<Rightarrow> bool" where
  "contiguous arch lo [] hi = (lo = hi)"
| "contiguous arch lo ((fp, i, d) # xs) hi =
     (d = lo \<and> contiguous arch (lo + (if fp then 8 else wordSize arch)) xs hi)"

lemma contiguous_append:
  "contiguous arch lo xs mid \<Longrightarrow> contiguous arch mid ys hi \<Longrightarrow> contiguous arch lo (xs @ ys) hi"
  by (induction arch lo xs mid rule: contiguous.induct) auto

lemma contiguous_map:
  assumes "a \<le> b + 1" "\<And>i. a \<le> i \<Longrightarrow> i \<le> b \<Longrightarrow> s i = (fp, r i, lo + (i - a) * sz)"
    "sz = (if fp then 8 else wordSize arch)" "hi = lo + (b + 1 - a) * sz"
  shows "contiguous arch lo (map s [a..b]) hi"
  using assms
proof (induction "nat (b + 1 - a)" arbitrary: a lo)
  case 0
  then show ?case by simp
next
  case (Suc n)
  have "contiguous arch (lo + sz) (map s [a + 1..b]) hi"
    using Suc.hyps(2) Suc.prems by (intro Suc.hyps(1)) (auto simp: algebra_simps)
  then show ?case using Suc.hyps(2) Suc.prems by (subst upto_rec1) auto
qed

lemma save_slots_contiguous:
  assumes g: "frame_aligned arch g" and c: "arch = PPC64 \<longrightarrow> crfs g = 0"
  shows "contiguous arch ((frame_base arch g + 1) * wordSize arch) (save_slots arch g)
    (frame_size g + (if save_volatiles g then 0 else wordSize arch))"
proof -
  let ?ws = "wordSize arch" and ?k = "frame_offsets_of arch g" and ?wpf = "words_per_fpr arch"
  have w: "?wpf * ?ws = 8" by (cases arch) simp_all
  have n: "0 \<le> gprs g" "0 \<le> fprs g" using g by (auto simp: frame_aligned_def)
  have v: "contiguous arch ((frame_base arch g + 1) * ?ws)
     (if save_volatiles g
      then map (\<lambda>i. (False, i, (vgpr_at ?k + (i - 3)) * ?ws)) [3..12] @ [(False, 0, ctr_at ?k * ?ws)] @
           map (\<lambda>i. (True, i, (vfpr_at ?k + i * ?wpf) * ?ws)) [0..13]
      else [])
     ((frame_base arch g + (if save_volatiles g then 12 + 14 * ?wpf else 1)) * ?ws)"
  proof (cases "save_volatiles g")
    case True
    have 1: "contiguous arch ((frame_base arch g + 1) * ?ws)
        (map (\<lambda>i. (False, i, (vgpr_at ?k + (i - 3)) * ?ws)) [3..12]) (ctr_at ?k * ?ws)"
      using True by (intro contiguous_map [where sz = ?ws and fp = False and r = id])
        (auto simp: algebra_simps frame_offsets_simps)
    have 2: "contiguous arch (ctr_at ?k * ?ws) [(False, 0, ctr_at ?k * ?ws)] (vfpr_at ?k * ?ws)"
      using True by (simp add: algebra_simps frame_offsets_simps)
    have 3: "contiguous arch (vfpr_at ?k * ?ws)
        (map (\<lambda>i. (True, i, (vfpr_at ?k + i * ?wpf) * ?ws)) [0..13])
        ((frame_base arch g + (if save_volatiles g then 12 + 14 * ?wpf else 1)) * ?ws)"
      using True w by (intro contiguous_map [where sz = 8 and fp = True and r = id])
        (cases arch; simp add: algebra_simps frame_offsets_simps)+
    show ?thesis using True contiguous_append [OF 1 contiguous_append [OF 2 3]] by simp
  qed simp
  have c: "contiguous arch ((frame_base arch g + (if save_volatiles g then 12 + 14 * ?wpf else 1)) * ?ws)
     (if crfs g \<noteq> 0 then [(False, 0, cr_at ?k * ?ws)] else []) (gpr_at ?k * ?ws)"
    using c by (cases arch) (simp_all add: frame_offsets_simps algebra_simps)
  have r: "contiguous arch (gpr_at ?k * ?ws)
     (map (\<lambda>i. (False, i, (gpr_at ?k + (i - (32 - gprs g))) * ?ws)) [32 - gprs g..31]) (fpr_at ?k * ?ws)"
    using n by (intro contiguous_map [where sz = ?ws and fp = False and r = id])
      (auto simp: algebra_simps frame_offsets_simps(7))
  have f: "contiguous arch (fpr_at ?k * ?ws)
     (map (\<lambda>i. (True, i, (fpr_at ?k + (i - (32 - fprs g)) * ?wpf) * ?ws)) [32 - fprs g..31])
     (frame_size g + (if save_volatiles g then 0 else ?ws))"
  proof (intro contiguous_map [where sz = 8 and fp = True and r = id])
    show "frame_size g + (if save_volatiles g then 0 else ?ws) = fpr_at ?k * ?ws + (31 + 1 - (32 - fprs g)) * 8"
      unfolding frame_size_words(1) [OF g] frame_offsets_simps using w
      by (cases arch) (simp_all add: algebra_simps)
  qed (use n w in \<open>auto simp: distrib_right mult.assoc\<close>)
  show ?thesis
    using contiguous_append [OF v contiguous_append [OF c contiguous_append [OF r f]]]
    by (simp only: save_slots_def Let_def)
qed


lemma frame_aligned_state [simp]:
  "frame_aligned arch (g\<lparr>state := st\<rparr>) = frame_aligned arch g"
  "save_slots arch (g\<lparr>state := st\<rparr>) = save_slots arch g"
  "frame_base arch (g\<lparr>state := st\<rparr>) = frame_base arch g"
  "epilog_code arch (g\<lparr>state := st\<rparr>) = epilog_code arch g"
proof -
  have "unaligned_size arch (g\<lparr>state := st\<rparr>) = unaligned_size arch g"
    "start_of_locals arch (g\<lparr>state := st\<rparr>) = start_of_locals arch g"
    by (simp_all add: unaligned_size_def start_of_locals_def Let_def split: arch.split)
  moreover from this have "frame_offsets_of arch (g\<lparr>state := st\<rparr>) = frame_offsets_of arch g"
    by (simp add: frame_offsets_of_def Let_def)
  ultimately show "frame_aligned arch (g\<lparr>state := st\<rparr>) = frame_aligned arch g"
    "save_slots arch (g\<lparr>state := st\<rparr>) = save_slots arch g"
    "frame_base arch (g\<lparr>state := st\<rparr>) = frame_base arch g"
    "epilog_code arch (g\<lparr>state := st\<rparr>) = epilog_code arch g"
    by (simp_all add: frame_aligned_def save_slots_def frame_base_def epilog_code_def Let_def)
qed

lemma generate_prolog_eq:
  fixes s :: "'a asm"
  assumes "frame_ok arch f" "state f = done_nothing"
  obtains ws where
    "generate_prolog arch f s = Inr ((frame_align arch f)\<lparr>state := done_prolog\<rparr>, s\<lparr>asm_code := asm_code s @ ws\<rparr>)"
    "accesses arch ws = (let g = frame_align arch f in
     (if save_volatiles g
      then [StoreU 1 (- frame_size g), StoreG 0 (frame_base arch g * wordSize arch),
            StoreG 0 (frame_size g + lr_save_offset arch * wordSize arch)]
      else [StoreG 0 (lr_save_offset arch * wordSize arch), StoreU 1 (- frame_size g)]) @
     map store_of (save_slots arch g) @
     (if save_volatiles g then [LoadG 0 (frame_base arch g * wordSize arch)] else []))"
proof -
  from prolog_traces [OF frame_align_aligned [OF assms(1)]]
  obtain ws where "emits (seqR (prolog_code arch (frame_align arch f)) :: 'a emitter) ws" "accesses arch ws = (let g = frame_align arch f in
     (if save_volatiles g
      then [StoreU 1 (- frame_size g), StoreG 0 (frame_base arch g * wordSize arch),
            StoreG 0 (frame_size g + lr_save_offset arch * wordSize arch)]
      else [StoreG 0 (lr_save_offset arch * wordSize arch), StoreU 1 (- frame_size g)]) @
     map store_of (save_slots arch g) @
     (if save_volatiles g then [LoadG 0 (frame_base arch g * wordSize arch)] else []))"
    unfolding traces_def Let_def by blast
  then show ?thesis using that [of ws] assms(2)
    by (simp add: generate_prolog_def Let_def emitsD)
qed

section \<open>Properties\<close>




text \<open>The frame of the interpreter's native entry on the 32-bit flavour has this shape: two
  registers saved.\<close>

definition two_registers :: StackFrame where
  "two_registers = (new_StackFrame 0)\<lparr>gprs := 2\<rparr>"

lemma two_registers_ok: "frame_ok arch two_registers" "state two_registers = done_nothing"
  by (cases arch; simp add: two_registers_def new_StackFrame_def frame_ok_def unaligned_size_def frame_constants Let_def)+



text \<open>C30. In a frame that saves the volatile registers the save area is exact: the slots of
  the registers follow one another from just above the locals and the slot of \<open>r0\<close> to the end
  of the frame, without overlap, gap or excess.\<close>

theorem save_area_fits:
  assumes "frame_ok arch f" "save_volatiles f" "arch = PPC64 \<longrightarrow> crfs f = 0"
    "generate_prolog arch f s = Inr (g, s')"
  shows "contiguous arch (start_of_locals arch g + (locals g + 1) * wordSize arch) (save_slots arch g) (frame_size g)"
proof -
  have st: "state f = done_nothing" using assms(4) by (auto simp: generate_prolog_def asserted_eq_Inr)
  have g: "g = (frame_align arch f)\<lparr>state := done_prolog\<rparr>"
    using generate_prolog_eq [OF assms(1) st, of s] assms(4) by (metis Inr_inject prod.inject)
  obtain n where n: "frame_align arch f = f\<lparr>locals := locals f + n, frame_size := unaligned_size arch f + n * wordSize arch\<rparr>"
    using frame_align_shape [of arch f] by (elim exE conjE) (rule that)
  have a: "frame_aligned arch g" unfolding g using frame_align_aligned [OF assms(1)] by simp
  have "crfs g = crfs f" "save_volatiles g = save_volatiles f" by (simp_all add: g n)
  with assms(2,3) have "save_volatiles g" "arch = PPC64 \<longrightarrow> crfs g = 0" by simp_all
  with save_slots_contiguous [OF a] have "contiguous arch ((frame_base arch g + 1) * wordSize arch) (save_slots arch g) (frame_size g)"
    by simp
  moreover have "(frame_base arch g + 1) * wordSize arch = start_of_locals arch g + (locals g + 1) * wordSize arch"
    by (simp add: frame_base_def start_of_locals_def Let_def algebra_simps)
  ultimately show ?thesis by simp
qed

theorem save_area_fits_witness:
  "\<exists>g s. generate_prolog PPC32 (two_registers\<lparr>save_volatiles := True\<rparr>) (start_at (0 :: 32 word)) = Inr (g, s) \<and>
     contiguous PPC32 (start_of_locals PPC32 g + (locals g + 1) * 4) (save_slots PPC32 g) (frame_size g)"
proof -
  have ok: "frame_ok PPC32 (two_registers\<lparr>save_volatiles := True\<rparr>)"
    "state (two_registers\<lparr>save_volatiles := True\<rparr>) = done_nothing"
    by (simp_all add: two_registers_def new_StackFrame_def frame_ok_def unaligned_size_def frame_constants Let_def)
  obtain g s where p: "generate_prolog PPC32 (two_registers\<lparr>save_volatiles := True\<rparr>) (start_at (0 :: 32 word)) = Inr (g, s)"
    by (rule generate_prolog_eq [OF ok, of "start_at 0"])
  have "contiguous PPC32 (start_of_locals PPC32 g + (locals g + 1) * wordSize PPC32) (save_slots PPC32 g) (frame_size g)"
    by (rule save_area_fits [OF ok(1) _ _ p]) simp_all
  then show ?thesis using p by auto
qed

text \<open>C31. In a frame that does not save the volatile registers the slot of \<open>r0\<close> is skipped
  although the size of the frame does not count it: the save area ends one word above the
  frame, and the register saved last is stored over the back chain of the caller, at
  displacement \<open>frame_size\<close> from the new \<open>r1\<close>, where the old \<open>r1\<close> points.\<close>

theorem save_area_overlaps_caller:
  assumes "frame_ok arch f" "\<not> save_volatiles f" "arch = PPC64 \<longrightarrow> crfs f = 0"
    "generate_prolog arch f s = Inr (g, s')"
  shows "contiguous arch (start_of_locals arch g + (locals g + 1) * wordSize arch) (save_slots arch g)
      (frame_size g + wordSize arch) \<and>
    (0 < gprs f \<and> fprs f = 0 \<longrightarrow> (False, 31, frame_size g + back_chain_offset * wordSize arch) \<in> set (save_slots arch g))"
proof -
  have st: "state f = done_nothing" using assms(4) by (auto simp: generate_prolog_def asserted_eq_Inr)
  have g: "g = (frame_align arch f)\<lparr>state := done_prolog\<rparr>"
    using generate_prolog_eq [OF assms(1) st, of s] assms(4) by (metis Inr_inject prod.inject)
  obtain n where n: "frame_align arch f = f\<lparr>locals := locals f + n, frame_size := unaligned_size arch f + n * wordSize arch\<rparr>"
    using frame_align_shape [of arch f] by (elim exE conjE) (rule that)
  have a: "frame_aligned arch g" unfolding g using frame_align_aligned [OF assms(1)] by simp
  have c: "\<not> save_volatiles g" "arch = PPC64 \<longrightarrow> crfs g = 0" "gprs g = gprs f" "fprs g = fprs f"
  proof -
    have "crfs g = crfs f" "save_volatiles g = save_volatiles f" "gprs g = gprs f" "fprs g = fprs f" by (simp_all add: g n)
    with assms(2,3) show "\<not> save_volatiles g" "arch = PPC64 \<longrightarrow> crfs g = 0" "gprs g = gprs f" "fprs g = fprs f" by simp_all
  qed
  have "contiguous arch ((frame_base arch g + 1) * wordSize arch) (save_slots arch g) (frame_size g + wordSize arch)"
    using save_slots_contiguous [OF a c(2)] c(1) by simp
  moreover have "(frame_base arch g + 1) * wordSize arch = start_of_locals arch g + (locals g + 1) * wordSize arch"
    by (simp add: frame_base_def start_of_locals_def Let_def algebra_simps)
  moreover have "(False, 31, frame_size g) \<in> set (save_slots arch g)" if "0 < gprs f" "fprs f = 0"
  proof -
    have "frame_size g = (gpr_at (frame_offsets_of arch g) + (31 - (32 - gprs g))) * wordSize arch"
      unfolding frame_size_words(1) [OF a] frame_offsets_simps using that c by (simp add: algebra_simps)
    then show ?thesis using that c by (auto simp: save_slots_def Let_def)
  qed
  ultimately show ?thesis by (simp add: back_chain_offset_def)
qed

theorem save_area_overlaps_caller_witness:
  "\<exists>g s. generate_prolog PPC32 two_registers (start_at (0 :: 32 word)) = Inr (g, s) \<and>
     (False, 31, frame_size g) \<in> set (save_slots PPC32 g)"
proof -
  obtain g s where p: "generate_prolog PPC32 two_registers (start_at (0 :: 32 word)) = Inr (g, s)"
    by (rule generate_prolog_eq [OF two_registers_ok, of PPC32 "start_at 0"])
  from save_area_overlaps_caller [OF two_registers_ok(1) _ _ p] p
  show ?thesis by (auto simp: two_registers_def new_StackFrame_def back_chain_offset_def)
qed

text \<open>The registers a routine gets by asking \<open>n\<close> times.\<close>

fun get_registers :: "nat \<Rightarrow> StackFrame \<Rightarrow> (Register list \<times> StackFrame) result" where
  "get_registers 0 f = Inr ([], f)"
| "get_registers (Suc n) f =
     bindR (get_register f) (\<lambda>(r, f). bindR (get_registers n f) (\<lambda>(rs, f). Inr (r # rs, f)))"

lemma get_registers_from:
  assumes "state f = done_nothing" "gprs f = int k" "k \<le> 18"
  shows "get_registers n f =
    (if k + n \<le> 18 then Inr (map (\<lambda>i. as_Register (word_of_int (31 - int i))) [k..<k + n], f\<lparr>gprs := int (k + n)\<rparr>)
     else Inl (AssertFailed ''no more registers!''))"
  using assms
proof (induction n arbitrary: f k)
  case 0
  then show ?case by simp
next
  case (Suc n)
  show ?case
  proof (cases "k < 18")
    case True
    then have "get_register f = Inr (as_Register (word_of_int (31 - int k)), f\<lparr>gprs := int (Suc k)\<rparr>)"
      using Suc.prems by (simp add: get_register_def max_gprs_def)
    then show ?thesis
      using Suc.IH [of "f\<lparr>gprs := int (Suc k)\<rparr>" "Suc k"] True Suc.prems
      by (cases "n = 0") (simp_all add: upt_conv_Cons)
  next
    case False
    then show ?thesis using Suc.prems by (simp add: get_register_def max_gprs_def)
  qed
qed

text \<open>Asking a fresh frame for registers yields \<open>r31\<close>, \<open>r30\<close> and so on down to \<open>r14\<close>, all
  different and valid, and the nineteenth request stops.\<close>

theorem registers_distinct:
  "case get_registers n (new_StackFrame x) of
     Inr (rs, f) \<Rightarrow> n \<le> 18 \<and> rs = map (\<lambda>i. as_Register (word_of_nat (31 - i))) [0..<n] \<and> distinct rs \<and>
       list_all Register_is_valid rs \<and> gprs f = int n
   | Inl e \<Rightarrow> 18 < n \<and> e = AssertFailed ''no more registers!''"
proof (cases "n \<le> 18")
  case True
  have m: "map (\<lambda>i. as_Register (word_of_int (31 - int i))) [0..<n] = map (\<lambda>i. as_Register (word_of_nat (31 - i))) [0..<n]"
    using True by (intro map_cong refl) (auto simp: of_nat_diff)
  have u: "unat (word_of_nat (31 - i) :: c_int) = 31 - i" for i
    by (simp add: unsigned_of_nat take_bit_nat_eq_self)
  have "inj_on (\<lambda>i. as_Register (word_of_nat (31 - i))) {0..<n}"
  proof (rule inj_onI)
    fix i j
    assume "i \<in> {0..<n}" "j \<in> {0..<n}" "as_Register (word_of_nat (31 - i)) = as_Register (word_of_nat (31 - j))"
    then show "i = j" using u [of i] u [of j] True by auto
  qed
  then have d: "distinct (map (\<lambda>i. as_Register (word_of_nat (31 - i))) [0..<n])"
    by (simp add: distinct_map)
  have v: "list_all Register_is_valid (map (\<lambda>i. as_Register (word_of_nat (31 - i))) [0..<n])"
    using u by (auto simp: list_all_iff Register_is_valid_iff)
  have "get_registers n (new_StackFrame x) = Inr (map (\<lambda>i. as_Register (word_of_int (31 - int i))) [0..<0 + n],
      (new_StackFrame x)\<lparr>gprs := int (0 + n)\<rparr>)"
    by (subst get_registers_from [where k = 0]) (use True in \<open>simp_all add: new_StackFrame_def\<close>)
  then have e: "get_registers n (new_StackFrame x) = Inr (map (\<lambda>i. as_Register (word_of_nat (31 - i))) [0..<n],
      (new_StackFrame x)\<lparr>gprs := int n\<rparr>)"
    unfolding add_0 m .
  show ?thesis unfolding e sum.case prod.case using True d v by simp
next
  case False
  then show ?thesis using get_registers_from [of "new_StackFrame x" 0 n] by (simp add: new_StackFrame_def)
qed

end
