(* ===== verification/VMCalls.thy ===== *)
theory VMCalls
  imports FrameLayout
begin

text \<open>
  The part of the class \<^verbatim>\<open>MacroAssembler\<close> (\<^verbatim>\<open>assembler_CPU.cpp\<close>) that emits calls into the
  virtual machine and code that depends on the layout of its objects. What the routines read
  from the rest of the virtual machine (offsets of fields, addresses of routines and of string
  literals, flags) is the record \<open>vm_externals\<close>, an argument of the definitions that use it.
\<close>

section \<open>What the generated code knows of the virtual machine\<close>

record 'addr vm_externals =
  pending_exception_offset :: int
  constants_offset :: int
  pool_holder_offset_in_bytes :: int
  klass_part_offset_in_bytes :: int
  java_mirror_offset_in_bytes :: int
  get_serialize_page_shift_count :: c_int
  vm_page_size :: c_int
  get_memory_serialize_page :: int
  VerifyOops :: bool
  report_should_not_reach_here :: 'addr
  report_unimplemented :: 'addr
  report_untested :: 'addr
  dump_int_helper :: 'addr
  file_literal :: int
  name_literal :: "string \<Rightarrow> int"

text \<open>Registers the interpreter keeps across calls.\<close>

definition Rthread :: Register where "Rthread = r31"
definition Rmethod :: Register where "Rmethod = r30"
definition Rlocals :: Register where "Rlocals = r29"

text \<open>The enumeration \<^verbatim>\<open>CallVMFlags\<close>.\<close>

definition CALL_VM_DEFAULTS :: c_int where "CALL_VM_DEFAULTS = 0"
definition CALL_VM_NO_EXCEPTION_CHECKS :: c_int where "CALL_VM_NO_EXCEPTION_CHECKS = 1"
definition CALL_VM_PRESERVE_LR :: c_int where "CALL_VM_PRESERVE_LR = 2"

section \<open>Stopping with a report\<close>

definition masm_report_and_die ::
  "arch \<Rightarrow> 'w::len word \<Rightarrow> int \<Rightarrow> int \<Rightarrow> int option \<Rightarrow> 'w word emitter" where
  "masm_report_and_die arch function file line message = seqR [
     masm_load arch r3 file,
     masm_load arch r4 line,
     (case message of None \<Rightarrow> Inr | Some m \<Rightarrow> masm_load arch r5 m),
     masm_call arch function]"

definition masm_should_not_reach_here :: "arch \<Rightarrow> ('w::len word, 'x) vm_externals_scheme \<Rightarrow> int \<Rightarrow> int \<Rightarrow> 'w word emitter" where
  "masm_should_not_reach_here arch vm file line =
     masm_report_and_die arch (report_should_not_reach_here vm) file line None"

definition masm_unimplemented :: "arch \<Rightarrow> ('w::len word, 'x) vm_externals_scheme \<Rightarrow> int \<Rightarrow> int \<Rightarrow> 'w word emitter" where
  "masm_unimplemented arch vm file line =
     masm_report_and_die arch (report_unimplemented vm) file line None"

definition masm_untested :: "arch \<Rightarrow> ('w::len word, 'x) vm_externals_scheme \<Rightarrow> int \<Rightarrow> int \<Rightarrow> int \<Rightarrow> 'w word emitter" where
  "masm_untested arch vm file line message =
     masm_report_and_die arch (report_untested vm) file line (Some message)"

section \<open>Calls into the virtual machine\<close>

text \<open>The arguments are moved one after the other, into \<open>r4\<close>, \<open>r5\<close> and \<open>r6\<close>.\<close>

definition call_VM_pass_args :: "Register \<Rightarrow> Register \<Rightarrow> Register \<Rightarrow> 'a emitter" where
  "call_VM_pass_args arg_1 arg_2 arg_3 s =
     bindR (if arg_1 \<noteq> r4
            then asserting (arg_2 \<noteq> r4) ''smashed argument''
                (asserting (arg_3 \<noteq> r4) ''smashed argument'' (asm_mr r4 arg_1)) s
            else Inr s) (\<lambda>s.
     if arg_2 = noreg then asserted (arg_3 = noreg) ''what?'' (Inr s)
     else bindR (if arg_2 \<noteq> r5
                 then asserting (arg_3 \<noteq> r5) ''smashed argument'' (asm_mr r5 arg_2) s
                 else Inr s) (\<lambda>s.
       if arg_3 \<noteq> noreg \<and> arg_3 \<noteq> r6 then asm_mr r6 arg_3 s else Inr s))"

text \<open>
  \<^verbatim>\<open>call_VM_base\<close> and \<^verbatim>\<open>call_VM_leaf_base\<close> are virtual; these are the versions of
  \<^verbatim>\<open>MacroAssembler\<close>. The uninitialised \<^verbatim>\<open>_frame_size\<close> of the frame is set by the prolog.
\<close>

definition call_VM_base ::
  "arch \<Rightarrow> ('w::len word, 'x) vm_externals_scheme \<Rightarrow> Register \<Rightarrow> 'w word \<Rightarrow> c_int \<Rightarrow> 'w word emitter" where
  "call_VM_base arch vm oop_result entry_point flags s =
    (let frame = new_StackFrame 0; preserve = flags AND CALL_VM_PRESERVE_LR \<noteq> 0
     in bindR (if preserve then masm_prolog arch frame s else Inr (frame, s)) (\<lambda>(frame, s).
        bindR (seqR [asm_mr r3 Rthread, masm_call arch entry_point] s) (\<lambda>s.
        bindR (if preserve then masm_epilog arch frame s else Inr (frame, s)) (\<lambda>(frame, s).
        bindR (whenR (flags AND CALL_VM_NO_EXCEPTION_CHECKS = 0) [with_label (\<lambda>ok. seqR [
            masm_load_A arch r0 (mk_Address Rthread (pending_exception_offset vm)),
            masm_compare_i arch r0 0,
            asm_beq ok,
            masm_unimplemented arch vm (file_literal vm) 1226,
            asm_bind ok])] s) (\<lambda>s.
        bindR (whenR (Register_is_valid oop_result)
            [masm_unimplemented arch vm (file_literal vm) 1231] s) (\<lambda>s.
        bindR (delete_StackFrame frame) (\<lambda>_. Inr s)))))))"

definition call_VM_0 ::
  "arch \<Rightarrow> ('w::len word, 'x) vm_externals_scheme \<Rightarrow> Register \<Rightarrow> 'w word \<Rightarrow> c_int \<Rightarrow> 'w word emitter" where
  "call_VM_0 arch vm oop_result entry_point flags = call_VM_base arch vm oop_result entry_point flags"

definition call_VM_1 ::
  "arch \<Rightarrow> ('w::len word, 'x) vm_externals_scheme \<Rightarrow> Register \<Rightarrow> 'w word \<Rightarrow> Register \<Rightarrow> c_int \<Rightarrow> 'w word emitter" where
  "call_VM_1 arch vm oop_result entry_point arg_1 flags = seqR [
     call_VM_pass_args arg_1 noreg noreg,
     call_VM_base arch vm oop_result entry_point flags]"

definition call_VM_2 ::
  "arch \<Rightarrow> ('w::len word, 'x) vm_externals_scheme \<Rightarrow> Register \<Rightarrow> 'w word \<Rightarrow> Register \<Rightarrow> Register \<Rightarrow> c_int \<Rightarrow>
    'w word emitter" where
  "call_VM_2 arch vm oop_result entry_point arg_1 arg_2 flags = seqR [
     call_VM_pass_args arg_1 arg_2 noreg,
     call_VM_base arch vm oop_result entry_point flags]"

definition call_VM_3 ::
  "arch \<Rightarrow> ('w::len word, 'x) vm_externals_scheme \<Rightarrow> Register \<Rightarrow> 'w word \<Rightarrow> Register \<Rightarrow> Register \<Rightarrow> Register \<Rightarrow> c_int \<Rightarrow>
    'w word emitter" where
  "call_VM_3 arch vm oop_result entry_point arg_1 arg_2 arg_3 flags = seqR [
     call_VM_pass_args arg_1 arg_2 arg_3,
     call_VM_base arch vm oop_result entry_point flags]"

definition call_VM_leaf_base :: "arch \<Rightarrow> 'w::len word \<Rightarrow> 'w word emitter" where
  "call_VM_leaf_base arch entry_point = seqR [asm_mr r3 Rthread, masm_call arch entry_point]"

definition call_VM_leaf_0 :: "arch \<Rightarrow> 'w::len word \<Rightarrow> 'w word emitter" where
  "call_VM_leaf_0 arch entry_point = call_VM_leaf_base arch entry_point"

definition call_VM_leaf_1 :: "arch \<Rightarrow> 'w::len word \<Rightarrow> Register \<Rightarrow> 'w word emitter" where
  "call_VM_leaf_1 arch entry_point arg_1 = seqR [
     call_VM_pass_args arg_1 noreg noreg, call_VM_leaf_base arch entry_point]"

definition call_VM_leaf_2 :: "arch \<Rightarrow> 'w::len word \<Rightarrow> Register \<Rightarrow> Register \<Rightarrow> 'w word emitter" where
  "call_VM_leaf_2 arch entry_point arg_1 arg_2 = seqR [
     call_VM_pass_args arg_1 arg_2 noreg, call_VM_leaf_base arch entry_point]"

definition call_VM_leaf_3 ::
  "arch \<Rightarrow> 'w::len word \<Rightarrow> Register \<Rightarrow> Register \<Rightarrow> Register \<Rightarrow> 'w word emitter" where
  "call_VM_leaf_3 arch entry_point arg_1 arg_2 arg_3 = seqR [
     call_VM_pass_args arg_1 arg_2 arg_3, call_VM_leaf_base arch entry_point]"

section \<open>Memory, objects and frames\<close>

definition masm_serialize_memory :: "arch \<Rightarrow> ('w::len word, 'x) vm_externals_scheme \<Rightarrow> Register \<Rightarrow> Register \<Rightarrow> 'w word emitter" where
  "masm_serialize_memory arch vm tmp1 tmp2 = seqR [
     masm_shift_right arch tmp1 Rthread (get_serialize_page_shift_count vm),
     asm_andi_rc tmp1 tmp1 (vm_page_size vm - 4),
     masm_load arch tmp2 (get_memory_serialize_page vm),
     asm_stwx tmp1 tmp2 tmp1]"

definition needs_explicit_null_check :: "int \<Rightarrow> bool result" where
  "needs_explicit_null_check ofs = Inl Unimplemented"

definition masm_null_check :: "Register \<Rightarrow> int \<Rightarrow> 'a emitter" where
  "masm_null_check reg ofs s = bindR (needs_explicit_null_check ofs) (\<lambda>needed.
     if needed then Inl Unimplemented else Inr s)"

definition masm_verify_oop :: "('w::len word, 'x) vm_externals_scheme \<Rightarrow> Register \<Rightarrow> string \<Rightarrow> 'w word emitter" where
  "masm_verify_oop vm reg msg s = (if \<not> VerifyOops vm then Inr s else Inl Unimplemented)"

text \<open>
  \<^verbatim>\<open>while (!(tmp & 1)) tmp >>= 1;\<close> in the assertion of \<^verbatim>\<open>calc_padding_for_alignment\<close>; \<open>None\<close> is
  the loop that does not end.
\<close>

partial_function (option) strip_zeros :: "c_int \<Rightarrow> c_int option" where
  "strip_zeros tmp = (if tmp AND 1 = 0 then strip_zeros (c_shr tmp 1) else Some tmp)"

declare strip_zeros.simps [code]

definition masm_calc_padding_for_alignment :: "Register \<Rightarrow> Register \<Rightarrow> c_int \<Rightarrow> 'a emitter" where
  "masm_calc_padding_for_alignment dst src alignment =
     (case strip_zeros alignment of
        None \<Rightarrow> (\<lambda>s. Inl DoesNotReturn)
      | Some tmp \<Rightarrow> asserting (tmp = 1) ''alignment must be a power of two''
          (seqR [
             asm_andi_rc dst src (alignment - 1),
             asm_subfic dst dst alignment,
             asm_andi_rc dst dst (alignment - 1)]))"

text \<open>What follows when there is not enough space in the frame: a larger one takes its place.\<close>

definition extend_frame_code :: "arch \<Rightarrow> Register \<Rightarrow> Register \<Rightarrow> 'a emitter list" where
  "extend_frame_code arch required_bytes available_bytes = (
     let extra_bytes = required_bytes; padding = available_bytes;
         saved_r1 = padding; scratch = extra_bytes
     in [asm_sub extra_bytes required_bytes available_bytes,
       masm_calc_padding_for_alignment padding extra_bytes (word_of_int StackAlignmentInBytes),
       asm_add extra_bytes extra_bytes padding,
       asm_mr saved_r1 r1,
       asm_neg scratch extra_bytes,
       masm_store_update_indexed arch r1 r1 scratch,
       masm_load_A arch scratch (mk_Address saved_r1 (back_chain_offset * wordSize arch)),
       masm_store arch scratch (mk_Address r1 (back_chain_offset * wordSize arch))] @
       (case cr_save_offset arch of None \<Rightarrow> [] | Some ofs \<Rightarrow> [
          masm_load_A arch scratch (mk_Address saved_r1 (ofs * wordSize arch)),
          masm_store arch scratch (mk_Address r1 (ofs * wordSize arch))]))"

definition masm_maybe_extend_frame :: "arch \<Rightarrow> Register \<Rightarrow> Register \<Rightarrow> 'w::len word emitter" where
  "masm_maybe_extend_frame arch required_bytes available_bytes = with_label (\<lambda>done. seqR ([
     masm_compare arch required_bytes available_bytes,
     asm_ble done] @
     extend_frame_code arch required_bytes available_bytes @
     [asm_bind done]))"

definition masm_get_mirror_handle :: "arch \<Rightarrow> ('w::len word, 'x) vm_externals_scheme \<Rightarrow> Register \<Rightarrow> 'w word emitter" where
  "masm_get_mirror_handle arch vm dst = seqR [
     masm_load_A arch dst (mk_Address Rmethod (constants_offset vm)),
     masm_load_A arch dst (mk_Address dst (pool_holder_offset_in_bytes vm)),
     masm_load_A arch dst (mk_Address dst (klass_part_offset_in_bytes vm + java_mirror_offset_in_bytes vm))]"

section \<open>Stubs that stop\<close>

text \<open>A prolog, a body and an epilog, and the destructor of the frame.\<close>

definition with_frame :: "arch \<Rightarrow> StackFrame \<Rightarrow> (StackFrame \<Rightarrow> 'a emitter) \<Rightarrow> 'a emitter" where
  "with_frame arch frame body s =
     bindR (masm_prolog arch frame s) (\<lambda>(frame, s).
     bindR (body frame s) (\<lambda>s.
     bindR (masm_epilog arch frame s) (\<lambda>(frame, s).
     bindR (delete_StackFrame frame) (\<lambda>_. Inr s))))"

definition generate_unimplemented_stub ::
  "arch \<Rightarrow> ('w::len word, 'x) vm_externals_scheme \<Rightarrow> int \<Rightarrow> int \<Rightarrow> 'w word asm \<Rightarrow> ('w word \<times> 'w word asm) result" where
  "generate_unimplemented_stub arch vm file line s =
     (let start = pc s
      in bindR (seqR [
             masm_enter arch,
             with_frame arch (new_StackFrame 0) (\<lambda>_. masm_unimplemented arch vm file line),
             asm_blr] s) (\<lambda>s. Inr (start, s)))"

definition generate_unimplemented_entry ::
  "arch \<Rightarrow> ('w::len word, 'x) vm_externals_scheme \<Rightarrow> int \<Rightarrow> int \<Rightarrow> 'w word asm \<Rightarrow> ('w word \<times> 'w word asm) result" where
  "generate_unimplemented_entry arch vm file line s =
     (let start = pc s
      in bindR (seqR [
             with_frame arch (new_StackFrame 0) (\<lambda>_. masm_unimplemented arch vm file line),
             asm_blr] s) (\<lambda>s. Inr (start, s)))"

section \<open>Printing an integer\<close>

text \<open>The stack pointer of the caller is the own one plus the aligned size of the frame.\<close>

definition dump_int_framesize :: "arch \<Rightarrow> StackFrame \<Rightarrow> int" where
  "dump_int_framesize arch frame =
     (let framesize = unaligned_size arch frame
      in framesize + and (StackAlignmentInBytes - and framesize (StackAlignmentInBytes - 1))
           (StackAlignmentInBytes - 1))"

definition masm_dump_int_prefix ::
  "arch \<Rightarrow> ('w::len word, 'x) vm_externals_scheme \<Rightarrow> int \<Rightarrow> Register \<Rightarrow> 'w word emitter" where
  "masm_dump_int_prefix arch vm prefix src =
     withR (set_save_volatiles True (new_StackFrame 0)) (\<lambda>frame.
       with_frame arch frame (\<lambda>frame. seqR [
         (if src = r1 then asm_addi r4 r1 (word_of_int (dump_int_framesize arch frame))
          else if src \<noteq> r4 then asm_mr r4 src
          else Inr),
         masm_load arch r3 prefix,
         masm_call arch (dump_int_helper vm)]))"

definition masm_dump_int :: "arch \<Rightarrow> ('w::len word, 'x) vm_externals_scheme \<Rightarrow> Register \<Rightarrow> 'w word emitter" where
  "masm_dump_int arch vm src =
     withR (Register_name src) (\<lambda>name. masm_dump_int_prefix arch vm (name_literal vm name) src)"

definition masm_bang_stack_with_offset :: "c_int \<Rightarrow> 'a emitter" where
  "masm_bang_stack_with_offset ofs s = Inl Unimplemented"

end
