(* ===== verification/VMCallFacts.thy ===== *)
theory VMCallFacts
  imports VMCalls LoadConst
begin

text \<open>
  Properties of the calls into the virtual machine: the arguments arrive in their registers,
  the padding aligns, the alignment check ends unless the alignment is zero. The instructions
  used are parameters with their documented behaviour, as for constants.
\<close>

section \<open>The instructions as the architecture documents them\<close>

definition isa_X_word :: "nat \<Rightarrow> nat \<Rightarrow> nat \<Rightarrow> nat \<Rightarrow> nat \<Rightarrow> c_int" where
  "isa_X_word opcode a b c xo = word_of_nat (opcode * 2 ^ 26 + a * 2 ^ 21 + b * 2 ^ 16 + c * 2 ^ 11 + xo * 2)"

definition isa_or :: "(c_int \<Rightarrow> (nat \<Rightarrow> 'w::len word) \<Rightarrow> nat \<Rightarrow> 'w word) \<Rightarrow> bool" where
  "isa_or exec \<longleftrightarrow> (\<forall>rs ra rb r. rs < 32 \<longrightarrow> ra < 32 \<longrightarrow> rb < 32 \<longrightarrow>
     exec (isa_X_word 31 rs ra rb 444) r = r(ra := r rs OR r rb))"

definition isa_padding :: "(c_int \<Rightarrow> (nat \<Rightarrow> 'w::len word) \<Rightarrow> nat \<Rightarrow> 'w word) \<Rightarrow> bool" where
  "isa_padding exec \<longleftrightarrow> (\<forall>rt ra d r. rt < 32 \<longrightarrow> ra < 32 \<longrightarrow> d < 2 ^ 16 \<longrightarrow>
     exec (isa_D_word 28 rt ra d) r = r(ra := r rt AND word_of_nat d) \<and>
     exec (isa_D_word 8 rt ra d) r = r(rt := sext16 d - r ra))"

lemma X_form_word:
  assumes "fits 5 a" "fits 5 b" "fits 5 c" "fits 10 xo"
  shows "X_form opc a b c xo False = isa_X_word (unat opc) (unat a) (unat b) (unat c) (unat xo)"
proof -
  have f0: "fits 11 (push_bit 1 xo)" using assms by (intro fits_push_bit [where k = 10]) auto
  have 1: "push_bit 11 c OR push_bit 1 xo = push_bit 11 c + push_bit 1 xo"
    using f0 by (intro or_add_disjoint and_push_bit_fits [where k = 11]) auto
  have f1: "fits 16 (push_bit 11 c OR push_bit 1 xo)"
    using assms by (intro fits_or fits_push_bit [where k = 5] fits_mono [OF f0]) auto
  have 2: "push_bit 16 b OR (push_bit 11 c OR push_bit 1 xo) = push_bit 16 b + (push_bit 11 c OR push_bit 1 xo)"
    using f1 by (intro or_add_disjoint and_push_bit_fits [where k = 16]) auto
  have f2: "fits 21 (push_bit 16 b OR (push_bit 11 c OR push_bit 1 xo))"
    using assms by (intro fits_or fits_push_bit [where k = 5] fits_mono [OF f1]) auto
  have 3: "push_bit 21 a OR (push_bit 16 b OR (push_bit 11 c OR push_bit 1 xo)) =
      push_bit 21 a + (push_bit 16 b OR (push_bit 11 c OR push_bit 1 xo))"
    using f2 by (intro or_add_disjoint and_push_bit_fits [where k = 21]) auto
  have f3: "fits 26 (push_bit 21 a OR (push_bit 16 b OR (push_bit 11 c OR push_bit 1 xo)))"
    using assms by (intro fits_or fits_push_bit [where k = 5] fits_mono [OF f2]) auto
  have 4: "push_bit 26 opc OR (push_bit 21 a OR (push_bit 16 b OR (push_bit 11 c OR push_bit 1 xo))) =
      push_bit 26 opc + (push_bit 21 a OR (push_bit 16 b OR (push_bit 11 c OR push_bit 1 xo)))"
    using f3 by (intro or_add_disjoint and_push_bit_fits [where k = 26]) auto
  show ?thesis
    unfolding X_form_def or.assoc isa_X_word_def of_bool_eq or.right_neutral
    by (subst 4, subst 3, subst 2, subst 1) (simp add: push_bit_eq_mult)
qed

section \<open>The arguments of a call\<close>

fun reg_no :: "Register \<Rightarrow> nat" where
  "reg_no (as_Register n) = unat n"

lemma encoding_Inr:
  assumes "Register_encoding q = Inr n"
  shows "q = as_Register n" "unat n < 32"
proof -
  show "q = as_Register n" using assms gpr.enc_iff by simp
  with assms have "Register_is_valid (as_Register n)" using gpr.enc_iff by simp
  then show "unat n < 32" by (simp only: Register_is_valid_iff)
qed

text \<open>\<open>moves exec s s' f\<close>: the code emitted between \<open>s\<close> and \<open>s'\<close> changes the registers by \<open>f\<close>.\<close>

definition moves ::
  "(c_int \<Rightarrow> (nat \<Rightarrow> 'w::len word) \<Rightarrow> nat \<Rightarrow> 'w word) \<Rightarrow> 'a asm \<Rightarrow> 'a asm \<Rightarrow>
    ((nat \<Rightarrow> 'w word) \<Rightarrow> nat \<Rightarrow> 'w word) \<Rightarrow> bool" where
  "moves exec s s' f \<longleftrightarrow> (\<exists>ws. s' = s\<lparr>asm_code := asm_code s @ ws\<rparr> \<and> (\<forall>r. fold exec ws r = f r))"

lemma moves_refl: "moves exec s s (\<lambda>r. r)"
  by (auto simp: moves_def intro!: exI [of _ "[]"])

lemma moves_cong: "moves exec s t f \<Longrightarrow> (\<And>r. f r = g r) \<Longrightarrow> moves exec s t g"
  by (simp add: moves_def)

lemma moves_trans: "moves exec s t f \<Longrightarrow> moves exec t u g \<Longrightarrow> moves exec s u (\<lambda>r. g (f r))"
  by (auto simp: moves_def)

lemma moves_mr:
  assumes "isa_or exec" "asm_mr dst src s = Inr s'"
  shows "moves exec s s' (\<lambda>r. r(reg_no dst := r (reg_no src)))"
proof -
  obtain d a where e: "Register_encoding dst = Inr d" "Register_encoding src = Inr a"
    using assms(2) by (cases "Register_encoding dst"; cases "Register_encoding src")
      (simp_all add: asm_mr_def asm_OR_def emit_X_RRR_def)
  note v = encoding_Inr [OF e(1)] encoding_Inr [OF e(2)]
  have f: "fits 6 (31 :: c_int)" "fits 10 (444 :: c_int)" "fits 5 d" "fits 5 a"
    using v by (simp_all add: fits_unat)
  have "s' = s\<lparr>asm_code := asm_code s @ [X_form 31 a d a 444 False]\<rparr>"
    using assms(2) by (simp add: asm_mr_def asm_OR_def emit_X_RRR_def e
        emitsD [OF emit_X_emits [OF f(1,4,3,4,2)]])
  moreover have "exec (X_form 31 a d a 444 False) r = r(reg_no dst := r (reg_no src))" for r
    using assms(1) v unfolding X_form_word [OF f(4,3,4,2)] isa_or_def by simp
  ultimately show ?thesis by (auto simp: moves_def)
qed

lemma upd_56: "r(4 := x, 5 := r 5, 6 := r 6) = r((4 :: nat) := x)"
  by auto

lemma pass_args_moves:
  fixes exec :: "c_int \<Rightarrow> (nat \<Rightarrow> 'w::len word) \<Rightarrow> nat \<Rightarrow> 'w word"
  assumes x: "isa_or exec" and s: "call_VM_pass_args a1 a2 a3 s = Inr s'"
  shows "moves exec s s' (\<lambda>r. r(4 := r (reg_no a1), 5 := if a2 = noreg then r 5 else r (reg_no a2),
      6 := if a3 = noreg then r 6 else r (reg_no a3)))"
proof -
  have d: "reg_no r4 = 4" "reg_no r5 = 5" "reg_no r6 = 6" by (simp_all add: reg_defs)
  have no: "q \<noteq> r4 \<Longrightarrow> reg_no q \<noteq> 4" "q \<noteq> r5 \<Longrightarrow> reg_no q \<noteq> 5" for q
    by (cases q; simp add: reg_defs word_unat_eq_iff)+
  obtain s1 where s1: "moves exec s s1 (\<lambda>r. r(4 := r (reg_no a1)))" "a1 \<noteq> r4 \<Longrightarrow> a2 \<noteq> r4 \<and> a3 \<noteq> r4"
    "(if a2 = noreg then asserted (a3 = noreg) ''what?'' (Inr s1)
      else bindR (if a2 \<noteq> r5 then asserting (a3 \<noteq> r5) ''smashed argument'' (asm_mr r5 a2) s1 else Inr s1) (\<lambda>s.
        if a3 \<noteq> noreg \<and> a3 \<noteq> r6 then asm_mr r6 a3 s else Inr s)) = Inr s'"
  proof (cases "a1 = r4")
    case True
    then show ?thesis using s that [of s] moves_refl [of exec s] by (simp add: call_VM_pass_args_def d)
  next
    case False
    then obtain t where "asm_mr r4 a1 s = Inr t" "a2 \<noteq> r4" "a3 \<noteq> r4"
      using s by (auto simp: call_VM_pass_args_def bindR_eq_Inr asserting_eq_Inr)
    then show ?thesis using False s that [of t] moves_mr [OF x, of r4 a1 s t] by (simp add: call_VM_pass_args_def d)
  qed
  have f4: "(r(4 := r (reg_no a1))) (reg_no q) = r (reg_no q)" if "a1 \<noteq> r4 \<Longrightarrow> q \<noteq> r4" for r :: "nat \<Rightarrow> 'w word" and q
    using that no(1) [of q] d(1) by (cases "a1 = r4") auto
  show ?thesis
  proof (cases "a2 = noreg")
    case True
    then show ?thesis using s1 by (simp add: asserted_eq_Inr upd_56)
  next
    case a2: False
    obtain s2 where s2: "moves exec s1 s2 (\<lambda>r. r(5 := r (reg_no a2)))" "a2 \<noteq> r5 \<Longrightarrow> a3 \<noteq> r5"
      "(if a3 \<noteq> noreg \<and> a3 \<noteq> r6 then asm_mr r6 a3 s2 else Inr s2) = Inr s'"
    proof (cases "a2 = r5")
      case True
      then show ?thesis using s1(3) a2 that [of s1] moves_refl [of exec s1] by (simp add: d)
    next
      case False
      then obtain t where "asm_mr r5 a2 s1 = Inr t" "a3 \<noteq> r5"
        using s1(3) a2 by (auto simp: bindR_eq_Inr asserting_eq_Inr)
      then show ?thesis using False s1(3) a2 that [of t] moves_mr [OF x, of r5 a2 s1 t] by (simp add: d)
    qed
    have m3: "moves exec s2 s' (\<lambda>r. if a3 = noreg then r else r(6 := r (reg_no a3)))"
      using s2(3) moves_refl [of exec s2] moves_mr [OF x, of r6 a3 s2 s'] d
      by (cases "a3 = noreg"; cases "a3 = r6") simp_all
    have f5: "(r(5 := r (reg_no a2))) (reg_no a3) = r (reg_no a3)" for r :: "nat \<Rightarrow> 'w word"
      using s2(2) no(2) [of a3] d(2) by (cases "a2 = r5") auto
    show ?thesis
    proof (rule moves_cong [OF moves_trans [OF moves_trans [OF s1(1) s2(1)] m3]])
      fix r :: "nat \<Rightarrow> 'w word"
      show "(if a3 = noreg then r(4 := r (reg_no a1), 5 := (r(4 := r (reg_no a1))) (reg_no a2))
           else r(4 := r (reg_no a1), 5 := (r(4 := r (reg_no a1))) (reg_no a2),
             6 := (r(4 := r (reg_no a1), 5 := (r(4 := r (reg_no a1))) (reg_no a2))) (reg_no a3))) =
        r(4 := r (reg_no a1), 5 := if a2 = noreg then r 5 else r (reg_no a2),
          6 := if a3 = noreg then r 6 else r (reg_no a3))"
        using a2 f4 [of a2 r] f4 [of a3 r] f5 [of r] s1(2)
        by (cases "reg_no a2 = 4"; cases "reg_no a3 = 4"; cases "reg_no a3 = 5"; auto simp: fun_eq_iff)
    qed
  qed
qed

section \<open>The alignment check\<close>

lemma strip_zeros_diverges: "strip_zeros a = Some y \<Longrightarrow> a \<noteq> 0"
proof (rule strip_zeros.raw_induct [of "\<lambda>a y. a \<noteq> 0"])
  fix loop and a y :: c_int
  assume "\<And>a y. loop a = Some y \<Longrightarrow> a \<noteq> 0"
    and "(if a AND 1 = 0 then loop (c_shr a 1) else Some a) = Some y"
  then show "a \<noteq> 0" by (cases "a = 0") (auto simp: c_shr_def)
qed

lemma strip_zeros_lowest:
  assumes "bit a n" "\<forall>i<n. \<not> bit a i"
  shows "strip_zeros a = Some (c_shr a n)"
  using assms
proof (induction n arbitrary: a)
  case 0
  then have "a AND 1 \<noteq> 0" by (simp add: and_one_eq bit_0 odd_iff_mod_2_eq_one)
  then show ?case by (subst strip_zeros.simps) (simp add: c_shr_def)
next
  case (Suc n)
  then have z: "a AND 1 = 0" by (auto simp: and_one_eq bit_0 even_iff_mod_2_eq_zero)
  have l: "Suc n < 32" using bit_imp_le_length [OF Suc.prems(1)] by simp
  have b: "bit (c_shr a 1) i \<longleftrightarrow> bit a (Suc i)" if "i \<le> n" for i
    using that l by (simp add: c_shr_def bit_signed_drop_bit_iff)
  have "strip_zeros (c_shr a 1) = Some (c_shr (c_shr a 1) n)"
    by (rule Suc.IH) (use Suc.prems b in simp_all)
  moreover have "c_shr (c_shr a 1) n = c_shr a (Suc n)"
    by (simp add: c_shr_def signed_drop_bit_signed_drop_bit)
  ultimately show ?case by (subst strip_zeros.simps) (simp add: z)
qed

lemma strip_zeros_exp: "k < 32 \<Longrightarrow> strip_zeros (push_bit k 1) = Some (c_shr (push_bit k 1) k)"
  by (rule strip_zeros_lowest) (auto simp: bit_simps)

lemma strip_zeros_one:
  assumes "strip_zeros a = Some 1"
  shows "\<exists>k<31. a = push_bit k 1"
proof -
  have "a \<noteq> 0" using strip_zeros_diverges [OF assms] .
  then obtain j where "bit a j" by (metis bit_0_eq bit_eqI bot_apply bot_bool_def)
  then obtain n where n: "bit a n" "\<forall>i<n. \<not> bit a i"
    by (metis exists_least_iff)
  have l: "n < 32" using bit_imp_le_length [OF n(1)] by simp
  have e: "c_shr a n = 1" using strip_zeros_lowest [OF n] assms by simp
  have hi: "\<not> bit a i" if "n < i" "i < 32" for i
  proof -
    have m: "\<not> 32 - n \<le> i - n" using that by arith
    have "bit (c_shr a n) (i - n) \<longleftrightarrow> bit a i"
      using that m by (auto simp: c_shr_def bit_signed_drop_bit_iff)
    then show ?thesis using that unfolding e by (simp add: bit_1_iff)
  qed
  have "a = push_bit n 1"
  proof (rule bit_word_eqI)
    fix i assume i: "i < LENGTH(32)"
    consider "i < n" | "i = n" | "n < i" by linarith
    then show "bit a i = bit (push_bit n 1 :: c_int) i"
      using n hi [of i] l i by cases (simp_all add: bit_simps)
  qed
  moreover have "n \<noteq> 31"
  proof
    assume "n = 31"
    have "bit (c_shr a n) 1"
      using n(1) \<open>n = 31\<close> by (simp add: c_shr_def bit_signed_drop_bit_iff)
    then show False unfolding e by (simp add: bit_1_iff)
  qed
  ultimately show ?thesis using l by (intro exI [of _ n]) simp
qed

lemma strip_zeros_one_iff: "strip_zeros a = Some 1 \<longleftrightarrow> (\<exists>k<31. a = push_bit k 1)"
proof
  assume "\<exists>k<31. a = push_bit k 1"
  then obtain k where k: "k < 31" "a = push_bit k 1" by blast
  have "c_shr (push_bit k 1) k = 1"
  proof (rule bit_word_eqI)
    fix i assume "i < LENGTH(32)"
    then show "bit (c_shr (push_bit k 1) k) i = bit (1 :: c_int) i"
      using k by (auto simp: c_shr_def bit_signed_drop_bit_iff bit_simps min_def)
  qed
  then show "strip_zeros a = Some 1" using strip_zeros_exp [of k] k by simp
qed (rule strip_zeros_one)

lemma strip_zeros_None_iff: "strip_zeros a = None \<longleftrightarrow> a = 0"
proof
  assume "a = 0"
  then show "strip_zeros a = None" using strip_zeros_diverges [of a] by (cases "strip_zeros a") auto
next
  assume h: "strip_zeros a = None"
  show "a = 0"
  proof (rule ccontr)
    assume "a \<noteq> 0"
    then obtain j where "bit a j" by (metis bit_0_eq bit_eqI bot_apply bot_bool_def)
    then obtain n where n: "bit a n" "\<forall>i<n. \<not> bit a i" by (metis exists_least_iff)
    then show False using strip_zeros_lowest [OF n] h by simp
  qed
qed

section \<open>Padding\<close>

lemma mask_1: "push_bit k 1 - 1 = (mask k :: c_int)"
  by (simp add: mask_eq_exp_minus_1)

lemma emits_padding:
  assumes k: "k < 16" and d: "unat d < 32" "unat a < 32"
  shows "emits (masm_calc_padding_for_alignment (as_Register d) (as_Register a) (push_bit k 1) :: 'a emitter)
    [isa_D_word 28 (unat a) (unat d) (unat (mask k :: c_int)), isa_D_word 8 (unat d) (unat d) (unat (push_bit k 1 :: c_int)),
     isa_D_word 28 (unat d) (unat d) (unat (mask k :: c_int))]"
proof -
  have z: "strip_zeros (push_bit k 1) = Some 1"
    unfolding strip_zeros_one_iff by (rule exI [of _ k]) (use k in simp)
  have f: "fits 16 (mask k :: c_int)" "fits 16 (push_bit k 1 :: c_int)"
    using k by (auto simp: fits_iff_bit bit_simps)
  note t = f [unfolded fits_def]
  note m = f [THEN simm_ok_fits]
  have "emits (asm_andi_rc (as_Register d) (as_Register a) (mask k) :: 'a emitter) [isa_D_word 28 (unat a) (unat d) (unat (mask k :: c_int))]"
    "emits (asm_andi_rc (as_Register d) (as_Register d) (mask k) :: 'a emitter) [isa_D_word 28 (unat d) (unat d) (unat (mask k :: c_int))]"
    "emits (asm_subfic (as_Register d) (as_Register d) (push_bit k 1) :: 'a emitter) [isa_D_word 8 (unat d) (unat d) (unat (push_bit k 1 :: c_int))]"
    using emits_D_RRi [OF d(2,1), of 28 "mask k"] emits_D_RRi [OF d(1,1), of 28 "mask k"]
      emits_D_RRi [OF d(1,1), of 8 "push_bit k 1"] m t
    unfolding asm_andi_rc_def asm_subfic_def by (simp_all only: fits6_consts t) (simp_all add: fits6_consts)
  note e = this
  define p where "p = (push_bit k 1 :: c_int)"
  show ?thesis
    using e z mask_1 [of k] unfolding p_def [symmetric]
    by (simp add: emits_def masm_calc_padding_for_alignment_def)
qed

lemma take_bit_word_add: "take_bit n (take_bit n a + take_bit n b) = take_bit n (a + b :: 'w::len word)"
  by transfer (simp add: take_bit_add)

lemma take_bit_word_diff: "take_bit n (take_bit n a - take_bit n b) = take_bit n (a - b :: 'w::len word)"
  by transfer (simp add: take_bit_diff)

lemma padding_value:
  fixes x :: "'w::len word"
  assumes k: "k < 16" and w: "16 \<le> LENGTH('w)"
  shows "(sext16 (unat (push_bit k 1 :: c_int)) - (x AND word_of_nat (unat (mask k :: c_int)))) AND
    word_of_nat (unat (mask k :: c_int)) = take_bit k (- x)"
proof -
  have m: "word_of_nat (unat (mask k :: c_int)) = (mask k :: 'w word)"
    unfolding word_of_nat_unat_ucast using k w by (intro bit_word_eqI) (auto simp: bit_simps)
  have z: "take_bit k (sext16 (unat (push_bit k 1 :: c_int)) :: 'w word) = 0"
    unfolding sext16_unat using k w by (intro bit_word_eqI) (auto simp: bit_simps min_def)
  have "take_bit k (sext16 (unat (push_bit k 1 :: c_int)) - take_bit k x) = take_bit k (- x)"
    using take_bit_word_diff [of k "sext16 (unat (push_bit k 1 :: c_int)) :: 'w word" "take_bit k x"]
      take_bit_word_diff [of k 0 x] unfolding z by simp
  then show ?thesis unfolding m by (simp add: take_bit_eq_mask)
qed

lemma padding_aligned:
  fixes x :: "'w::len word"
  shows "unat (take_bit k (- x)) < 2 ^ k" "take_bit k (x + take_bit k (- x)) = 0"
proof -
  have "fits k (take_bit k (- x))" by simp
  then show "unat (take_bit k (- x)) < 2 ^ k" by (simp only: fits_unat)
  show "take_bit k (x + take_bit k (- x)) = 0"
    using take_bit_word_add [of k x "take_bit k (- x)"] take_bit_word_add [of k x "- x"] by simp
qed

section \<open>An instance\<close>

definition isa_exec_call :: "c_int \<Rightarrow> (nat \<Rightarrow> 'w::len word) \<Rightarrow> nat \<Rightarrow> 'w word" where
  "isa_exec_call w r =
     (let n = unat w; opcode = n div 2 ^ 26; t = n div 2 ^ 21 mod 32; a = n div 2 ^ 16 mod 32;
          d = n mod 2 ^ 16
      in if opcode = 31 \<and> d mod 2048 = 888 then r(a := r t OR r (d div 2048))
         else if opcode = 28 then r(a := r t AND word_of_nat d)
         else if opcode = 8 then r(t := sext16 d - r a)
         else r)"

lemma X_word_as_D: "isa_X_word opc a b c xo = isa_D_word opc a b (c * 2048 + xo * 2)"
  by (simp add: isa_X_word_def isa_D_word_def add.assoc)

lemma isa_exec_call_or: "isa_or isa_exec_call"
proof -
  have d: "rb * 2048 + 888 < (2 ^ 16 :: nat)" "(rb * 2048 + 888) mod 2048 = (888 :: nat)"
    "(rb * 2048 + 888) div 2048 = (rb :: nat)" if "rb < 32" for rb
    using that by simp_all
  show ?thesis
    unfolding isa_or_def X_word_as_D
    using D_word_decode [of 31] d by (simp add: isa_exec_call_def Let_def)
qed

lemma isa_exec_call_padding: "isa_padding isa_exec_call"
  unfolding isa_padding_def
  using D_word_decode [of 28] D_word_decode [of 8] by (simp add: isa_exec_call_def Let_def)

section \<open>Properties\<close>

text \<open>C17. When the arguments of a call into the virtual machine pass the assertions, the moves
  emitted leave the old value of the first one in \<open>r4\<close>, those of the second and third, where
  they are given, in \<open>r5\<close> and \<open>r6\<close>, whatever registers they were in, and change no other.\<close>

theorem call_VM_arguments:
  fixes exec :: "c_int \<Rightarrow> (nat \<Rightarrow> 'w::len word) \<Rightarrow> nat \<Rightarrow> 'w word"
  assumes "isa_or exec" "call_VM_pass_args a1 a2 a3 s = Inr s'"
  shows "\<exists>ws. s' = s\<lparr>asm_code := asm_code s @ ws\<rparr> \<and> (\<forall>r. fold exec ws r =
    r(4 := r (reg_no a1), 5 := if a2 = noreg then r 5 else r (reg_no a2),
      6 := if a3 = noreg then r 6 else r (reg_no a3)))"
  using pass_args_moves [OF assms] by (simp only: moves_def)

theorem call_VM_arguments_witness:
  "\<exists>ws. call_VM_pass_args r4 r3 r4 (start_at (0 :: 32 word)) = Inr ((start_at 0)\<lparr>asm_code := ws\<rparr>) \<and>
    (\<forall>r :: nat \<Rightarrow> 32 word. fold isa_exec_call ws r = r(4 := r 4, 5 := r 3, 6 := r 4))"
proof -
  have c: "call_VM_pass_args r4 r3 r4 (start_at (0 :: 32 word)) =
      Inr ((start_at 0)\<lparr>asm_code := [0x7c651b78, 0x7c862378]\<rparr>)" by code_simp
  have n: "reg_no r4 = 4" "reg_no r3 = 3" "r3 \<noteq> noreg" "r4 \<noteq> noreg" by (simp_all add: reg_defs)
  have p: "asm_code (start_at (0 :: 32 word)) = []" by (simp add: start_at_def)
  obtain ws where w: "(start_at (0 :: 32 word))\<lparr>asm_code := [0x7c651b78, 0x7c862378]\<rparr> = (start_at 0)\<lparr>asm_code := ws\<rparr>"
    "\<forall>r :: nat \<Rightarrow> 32 word. fold isa_exec_call ws r = r(4 := r 4, 5 := r 3, 6 := r 4)"
    using call_VM_arguments [OF isa_exec_call_or, OF c, where 'w = 32] by (auto simp: p n)
  show ?thesis by (rule exI [of _ ws]) (use c [unfolded w(1)] w(2) in blast)
qed

text \<open>C32. The padding computed for an alignment of \<open>2 ^ k\<close> bytes (\<open>k\<close> below 16) is less than the
  alignment and rounds the size up to a multiple of it; no other register changes.\<close>

theorem padding_rounds_up:
  fixes exec :: "c_int \<Rightarrow> (nat \<Rightarrow> 'w::len word) \<Rightarrow> nat \<Rightarrow> 'w word"
  assumes "isa_padding exec" "k < 16" "16 \<le> LENGTH('w)" "unat d < 32" "unat a < 32"
  shows "\<exists>ws. emits (masm_calc_padding_for_alignment (as_Register d) (as_Register a) (push_bit k 1) :: 'a emitter) ws \<and>
    (\<forall>r. unat (fold exec ws r (unat d)) < 2 ^ k \<and> take_bit k (r (unat a) + fold exec ws r (unat d)) = 0 \<and>
      (\<forall>i. i \<noteq> unat d \<longrightarrow> fold exec ws r i = r i))"
proof -
  let ?m = "unat (mask k :: c_int)" and ?p = "unat (push_bit k 1 :: c_int)"
  have f: "fits 16 (mask k :: c_int)" "fits 16 (push_bit k 1 :: c_int)"
    using assms(2) by (auto simp: fits_iff_bit bit_simps)
  then have b: "?m < 2 ^ 16" "?p < 2 ^ 16" by (simp_all only: fits_unat)
  let ?ws = "[isa_D_word 28 (unat a) (unat d) ?m, isa_D_word 8 (unat d) (unat d) ?p, isa_D_word 28 (unat d) (unat d) ?m]"
  have e: "fold exec ?ws r = r(unat d := take_bit k (- r (unat a)))" for r
    using assms(1) [unfolded isa_padding_def, rule_format, OF assms(5,4) b(1), of r]
      assms(1) [unfolded isa_padding_def, rule_format, OF assms(4,4) b(2)]
      assms(1) [unfolded isa_padding_def, rule_format, OF assms(4,4) b(1)]
      padding_value [OF assms(2,3), of "r (unat a)"]
    by simp
  show ?thesis
    by (rule exI [of _ ?ws]) (simp only: emits_padding [OF assms(2,4,5)] e padding_aligned fun_upd_same, simp)
qed

theorem padding_rounds_up_witness:
  "\<exists>ws. emits (masm_calc_padding_for_alignment r12 r11 16 :: 32 word emitter) ws \<and>
    (\<forall>r :: nat \<Rightarrow> 32 word. unat (fold isa_exec_call ws r 12) < 16 \<and> take_bit 4 (r 11 + fold isa_exec_call ws r 12) = 0)"
proof -
  have e: "push_bit 4 1 = (16 :: c_int)" by simp
  show ?thesis
    using padding_rounds_up [OF isa_exec_call_padding, of 4 12 11, where 'w = 32 and 'a = "32 word", unfolded e]
    by (auto simp: reg_defs)
qed

text \<open>C33. The loop of the assertion on the alignment ends for every alignment but zero, and
  accepts exactly the powers of two that an \<^verbatim>\<open>int\<close> holds.\<close>

theorem alignment_check:
  "(strip_zeros a = None \<longleftrightarrow> a = 0) \<and> (strip_zeros a = Some 1 \<longleftrightarrow> (\<exists>k<31. a = push_bit k 1))"
  using strip_zeros_None_iff strip_zeros_one_iff by (rule conjI)

text \<open>C1. The frame size \<^verbatim>\<open>dump_int\<close> adds to the stack pointer, computed from the frame after
  its prolog, is the size the prolog allocated: the printed value is the caller's stack pointer.\<close>

theorem dump_int_finds_caller:
  assumes "frame_ok arch f" "generate_prolog arch f s = Inr (g, s')"
  shows "dump_int_framesize arch g = frame_size g"
proof -
  have g: "g = (frame_align arch f)\<lparr>state := done_prolog\<rparr>"
    using assms(2) by (auto simp: generate_prolog_def asserted_eq_Inr bindR_eq_Inr Let_def)
  have a: "frame_aligned arch g" unfolding g using frame_align_aligned [OF assms(1)] by simp
  then have u: "unaligned_size arch g = frame_size g" and m: "frame_size g mod 16 = 0"
    by (simp add: frame_aligned_def) (use a in \<open>unfold frame_aligned_def, elim conjE\<close>)
  have "and (frame_size g) 15 = take_bit 4 (frame_size g)"
    by (simp add: take_bit_eq_mask mask_eq_exp_minus_1)
  then have "and (frame_size g) 15 = 0" using m by (simp add: take_bit_eq_mod)
  then show ?thesis by (simp add: dump_int_framesize_def u StackAlignmentInBytes_def Let_def)
qed

theorem dump_int_finds_caller_witness:
  "\<exists>g s'. generate_prolog PPC64 (two_registers\<lparr>save_volatiles := True\<rparr>) (start_at (0 :: 64 word)) = Inr (g, s') \<and>
    dump_int_framesize PPC64 g = frame_size g"
proof -
  have ok: "frame_ok PPC64 (two_registers\<lparr>save_volatiles := True\<rparr>)"
    "state (two_registers\<lparr>save_volatiles := True\<rparr>) = done_nothing"
    by (simp_all add: two_registers_def new_StackFrame_def frame_ok_def unaligned_size_def frame_constants Let_def)
  obtain g s where p: "generate_prolog PPC64 (two_registers\<lparr>save_volatiles := True\<rparr>) (start_at (0 :: 64 word)) = Inr (g, s)"
    by (rule generate_prolog_eq [OF ok, of "start_at 0"])
  from dump_int_finds_caller [OF ok(1) p] p show ?thesis by blast
qed

end
