(* ===== verification/BytecodeArith.thy ===== *)
theory BytecodeArith
  imports Prelude
begin

text \<open>
  The arithmetic of the bytecode interpreter (\<^verbatim>\<open>bytecodeInterpreter_CPU.inline.hpp\<close>): one
  definition per operation on \<^verbatim>\<open>jint\<close> and \<^verbatim>\<open>jlong\<close>, compared with what the virtual machine
  specification demands of the bytecodes. Sums, differences, products and shifts are those of
  the two's complement machine; divisions and shifts the hardware has no result for are
  \<open>UndefinedBehaviour\<close>. Floating point numbers are values of any type with the comparisons of
  the hardware as arguments; their arithmetic is the hardware's and is not modelled.
\<close>

type_synonym jint = "32 word"
type_synonym jlong = "64 word"
type_synonym jchar = "16 word"
type_synonym jshort = "16 word"
type_synonym jbyte = "8 word"

definition c_bool :: "bool \<Rightarrow> c_int" where "c_bool b = of_bool b"

text \<open>Division and remainder of C++: towards zero, undefined by zero and on overflow.\<close>

definition c_div :: "'w::len word \<Rightarrow> 'w word \<Rightarrow> 'w word result" where
  "c_div a b = (if b = 0 \<or> sint a = - (2 ^ (LENGTH('w) - 1)) \<and> sint b = - 1 then Inl UndefinedBehaviour
     else Inr (word_of_int (sint a sdiv sint b)))"

definition c_rem :: "'w::len word \<Rightarrow> 'w word \<Rightarrow> 'w word result" where
  "c_rem a b = (if b = 0 \<or> sint a = - (2 ^ (LENGTH('w) - 1)) \<and> sint b = - 1 then Inl UndefinedBehaviour
     else Inr (word_of_int (sint a smod sint b)))"

text \<open>A shift by a distance that is negative or not below the width is undefined.\<close>

definition c_shift :: "(nat \<Rightarrow> 'w::len word \<Rightarrow> 'w word) \<Rightarrow> 'w word \<Rightarrow> c_int \<Rightarrow> 'w word result" where
  "c_shift f a n = (if sint n < 0 \<or> int LENGTH('w) \<le> sint n then Inl UndefinedBehaviour
     else Inr (f (unat n) a))"

section \<open>Operations on \<^verbatim>\<open>jlong\<close>\<close>

definition VMlongAdd :: "jlong \<Rightarrow> jlong \<Rightarrow> jlong" where "VMlongAdd op1 op2 = op1 + op2"
definition VMlongAnd :: "jlong \<Rightarrow> jlong \<Rightarrow> jlong" where "VMlongAnd op1 op2 = op1 AND op2"
definition VMlongDiv :: "jlong \<Rightarrow> jlong \<Rightarrow> jlong result" where "VMlongDiv op1 op2 = c_div op1 op2"
definition VMlongMul :: "jlong \<Rightarrow> jlong \<Rightarrow> jlong" where "VMlongMul op1 op2 = op1 * op2"
definition VMlongOr :: "jlong \<Rightarrow> jlong \<Rightarrow> jlong" where "VMlongOr op1 op2 = op1 OR op2"
definition VMlongSub :: "jlong \<Rightarrow> jlong \<Rightarrow> jlong" where "VMlongSub op1 op2 = op1 - op2"
definition VMlongXor :: "jlong \<Rightarrow> jlong \<Rightarrow> jlong" where "VMlongXor op1 op2 = op1 XOR op2"
definition VMlongRem :: "jlong \<Rightarrow> jlong \<Rightarrow> jlong result" where "VMlongRem op1 op2 = c_rem op1 op2"

definition VMlongUshr :: "jlong \<Rightarrow> jint \<Rightarrow> jlong result" where
  "VMlongUshr op1 op2 = c_shift drop_bit op1 (op2 AND 0x3f)"
definition VMlongShr :: "jlong \<Rightarrow> jint \<Rightarrow> jlong result" where
  "VMlongShr op1 op2 = c_shift signed_drop_bit op1 (op2 AND 0x3f)"
definition VMlongShl :: "jlong \<Rightarrow> jint \<Rightarrow> jlong result" where
  "VMlongShl op1 op2 = c_shift push_bit op1 (op2 AND 0x3f)"

definition VMlongNeg :: "jlong \<Rightarrow> jlong" where "VMlongNeg x = - x"
definition VMlongNot :: "jlong \<Rightarrow> jlong" where "VMlongNot x = NOT x"

definition VMlongLtz :: "jlong \<Rightarrow> c_int" where "VMlongLtz x = c_bool (x \<le>s 0)"
definition VMlongGez :: "jlong \<Rightarrow> c_int" where "VMlongGez x = c_bool (0 \<le>s x)"
definition VMlongEqz :: "jlong \<Rightarrow> c_int" where "VMlongEqz x = c_bool (x = 0)"
definition VMlongEq :: "jlong \<Rightarrow> jlong \<Rightarrow> c_int" where "VMlongEq op1 op2 = c_bool (op1 = op2)"
definition VMlongNe :: "jlong \<Rightarrow> jlong \<Rightarrow> c_int" where "VMlongNe op1 op2 = c_bool (op1 \<noteq> op2)"
definition VMlongGe :: "jlong \<Rightarrow> jlong \<Rightarrow> c_int" where "VMlongGe op1 op2 = c_bool (op2 \<le>s op1)"
definition VMlongLe :: "jlong \<Rightarrow> jlong \<Rightarrow> c_int" where "VMlongLe op1 op2 = c_bool (op1 \<le>s op2)"
definition VMlongLt :: "jlong \<Rightarrow> jlong \<Rightarrow> c_int" where "VMlongLt op1 op2 = c_bool (op1 <s op2)"
definition VMlongGt :: "jlong \<Rightarrow> jlong \<Rightarrow> c_int" where "VMlongGt op1 op2 = c_bool (op2 <s op1)"

definition VMlongCompare :: "jlong \<Rightarrow> jlong \<Rightarrow> c_int" where
  "VMlongCompare op1 op2 = (if VMlongLt op1 op2 \<noteq> 0 then - 1 else if VMlongGt op1 op2 \<noteq> 0 then 1 else 0)"

definition VMlong2Int :: "jlong \<Rightarrow> jint" where "VMlong2Int x = ucast x"

section \<open>Operations on \<^verbatim>\<open>jint\<close>\<close>

definition VMintAdd :: "jint \<Rightarrow> jint \<Rightarrow> jint" where "VMintAdd op1 op2 = op1 + op2"
definition VMintAnd :: "jint \<Rightarrow> jint \<Rightarrow> jint" where "VMintAnd op1 op2 = op1 AND op2"
definition VMintDiv :: "jint \<Rightarrow> jint \<Rightarrow> jint result" where
  "VMintDiv op1 op2 = (if op1 = 0x80000000 \<and> op2 = - 1 then Inr op1 else c_div op1 op2)"
definition VMintMul :: "jint \<Rightarrow> jint \<Rightarrow> jint" where "VMintMul op1 op2 = op1 * op2"
definition VMintNeg :: "jint \<Rightarrow> jint" where "VMintNeg x = - x"
definition VMintOr :: "jint \<Rightarrow> jint \<Rightarrow> jint" where "VMintOr op1 op2 = op1 OR op2"
definition VMintRem :: "jint \<Rightarrow> jint \<Rightarrow> jint result" where
  "VMintRem op1 op2 = (if op1 = 0x80000000 \<and> op2 = - 1 then Inr 0 else c_rem op1 op2)"
definition VMintShl :: "jint \<Rightarrow> jint \<Rightarrow> jint result" where "VMintShl op1 op2 = c_shift push_bit op1 op2"
definition VMintShr :: "jint \<Rightarrow> jint \<Rightarrow> jint result" where "VMintShr op1 op2 = c_shift signed_drop_bit op1 op2"
definition VMintSub :: "jint \<Rightarrow> jint \<Rightarrow> jint" where "VMintSub op1 op2 = op1 - op2"
definition VMintUshr :: "jint \<Rightarrow> jint \<Rightarrow> jint result" where "VMintUshr op1 op2 = c_shift drop_bit op1 op2"
definition VMintXor :: "jint \<Rightarrow> jint \<Rightarrow> jint" where "VMintXor op1 op2 = op1 XOR op2"
definition VMint2Long :: "jint \<Rightarrow> jlong" where "VMint2Long x = scast x"
definition VMint2Char :: "jint \<Rightarrow> jchar" where "VMint2Char x = ucast x"
definition VMint2Short :: "jint \<Rightarrow> jshort" where "VMint2Short x = scast x"
definition VMint2Byte :: "jint \<Rightarrow> jbyte" where "VMint2Byte x = scast x"

section \<open>Comparing floating point numbers\<close>

definition VMfloatCompare :: "('f \<Rightarrow> 'f \<Rightarrow> bool) \<Rightarrow> ('f \<Rightarrow> 'f \<Rightarrow> bool) \<Rightarrow> 'f \<Rightarrow> 'f \<Rightarrow> c_int \<Rightarrow> c_int" where
  "VMfloatCompare lt eq op1 op2 direction =
     (if lt op1 op2 then - 1 else if lt op2 op1 then 1 else if eq op1 op2 then 0
      else if direction = - 1 \<or> direction = 1 then direction else 0)"

definition VMdoubleCompare :: "('f \<Rightarrow> 'f \<Rightarrow> bool) \<Rightarrow> ('f \<Rightarrow> 'f \<Rightarrow> bool) \<Rightarrow> 'f \<Rightarrow> 'f \<Rightarrow> c_int \<Rightarrow> c_int" where
  "VMdoubleCompare lt eq op1 op2 direction =
     (if lt op1 op2 then - 1 else if lt op2 op1 then 1 else if eq op1 op2 then 0
      else if direction = - 1 \<or> direction = 1 then direction else 0)"

section \<open>Division\<close>

text \<open>
  What the virtual machine specification demands of a quotient and a remainder: together they
  give the dividend back (in wrapping arithmetic), the remainder is smaller than the divisor
  and has the sign of the dividend.
\<close>

definition division_ok :: "'w::len word \<Rightarrow> 'w word \<Rightarrow> 'w word \<Rightarrow> 'w word \<Rightarrow> bool" where
  "division_ok a b q r \<longleftrightarrow> a = q * b + r \<and> \<bar>sint r\<bar> < \<bar>sint b\<bar> \<and> (sint r = 0 \<or> sgn (sint r) = sgn (sint a))"

lemma smod_facts:
  fixes x y :: int
  assumes "y \<noteq> 0"
  shows "\<bar>x smod y\<bar> < \<bar>y\<bar>" "\<bar>x smod y\<bar> \<le> \<bar>x\<bar>" "x smod y = 0 \<or> sgn (x smod y) = sgn x"
proof -
  have d: "x smod y = sgn x * (\<bar>x\<bar> mod \<bar>y\<bar>)"
    by (simp add: signed_modulo_int_def)
  define k where "k = \<bar>x\<bar> mod \<bar>y\<bar>"
  have m: "0 \<le> k" "k < \<bar>y\<bar>" "k \<le> \<bar>x\<bar>"
    using assms by (simp_all add: k_def zmod_le_nonneg_dividend)
  consider "x = 0" | "0 < x" | "x < 0" by linarith
  then have "\<bar>sgn x * k\<bar> < \<bar>y\<bar> \<and> \<bar>sgn x * k\<bar> \<le> \<bar>x\<bar> \<and> (sgn x * k = 0 \<or> sgn (sgn x * k) = sgn x)"
    by cases (use m assms in \<open>simp_all add: sgn_if\<close>)
  then show "\<bar>x smod y\<bar> < \<bar>y\<bar>" "\<bar>x smod y\<bar> \<le> \<bar>x\<bar>" "x smod y = 0 \<or> sgn (x smod y) = sgn x"
    unfolding d k_def [symmetric] by simp_all
qed

lemma c_div_ok:
  fixes a b :: "'w::len word"
  assumes b: "b \<noteq> 0" and o: "\<not> (sint a = - (2 ^ (LENGTH('w) - 1)) \<and> sint b = - 1)"
  shows "\<exists>q r. c_div a b = Inr q \<and> c_rem a b = Inr r \<and> division_ok a b q r"
proof -
  let ?q = "sint a sdiv sint b" and ?r = "sint a smod sint b"
  have nz: "sint b \<noteq> 0" using b by (simp add: signed_eq_0_iff)
  note m = smod_facts [OF nz, of "sint a"]
  have "- (2 ^ (LENGTH('w) - 1)) \<le> ?r" "?r < 2 ^ (LENGTH('w) - 1)"
    using m(1) sint_greater_eq [of b] sint_less [of b] by simp_all
  then have r: "sint (word_of_int ?r :: 'w word) = ?r"
    by (simp add: signed_of_int signed_take_bit_int_eq_self)
  have "word_of_int (?q * sint b + ?r) = a" unfolding sdiv_mult_smod_eq by simp
  then have "a = word_of_int ?q * b + word_of_int ?r"
    by simp
  then show ?thesis using m nz o b r by (auto simp: c_div_def c_rem_def division_ok_def)
qed

lemma sint_cong: "sint x = sint y \<longleftrightarrow> x = (y :: 'w::len word)"
  by (rule signed_word_eqI [THEN iffI]) simp_all

lemma c_div_ok':
  fixes a b :: "'w::len word"
  assumes "b \<noteq> 0" "\<not> (a = m \<and> b = - 1)" "sint m = - (2 ^ (LENGTH('w) - 1))"
  shows "\<exists>q r. c_div a b = Inr q \<and> c_rem a b = Inr r \<and> division_ok a b q r"
proof (rule c_div_ok [OF assms(1)], rule notI, elim conjE)
  assume a: "sint a = - (2 ^ (LENGTH('w) - 1))" and b: "sint b = - 1"
  from a have "a = m" by (simp only: assms(3) [symmetric] sint_cong)
  moreover from b have "word_of_int (sint b) = (- 1 :: 'w word)" by simp
  then have "b = - 1" by simp
  ultimately show False using assms(2) by blast
qed

text \<open>C35. The division of \<^verbatim>\<open>jint\<close>s is the one the virtual machine specification demands of
  \<^verbatim>\<open>idiv\<close> and \<^verbatim>\<open>irem\<close>, the overflowing quotient included, for every divisor but zero, for which
  the callers must raise the exception.\<close>

theorem int_division:
  "(b \<noteq> 0 \<longrightarrow> (\<exists>q r. VMintDiv a b = Inr q \<and> VMintRem a b = Inr r \<and> division_ok a b q r)) \<and>
    VMintDiv a 0 = Inl UndefinedBehaviour \<and> VMintRem a 0 = Inl UndefinedBehaviour"
proof (intro conjI impI)
  assume b: "b \<noteq> 0"
  show "\<exists>q r. VMintDiv a b = Inr q \<and> VMintRem a b = Inr r \<and> division_ok a b q r"
  proof (cases "a = 0x80000000 \<and> b = - 1")
    case True
    then show ?thesis by (simp add: VMintDiv_def VMintRem_def division_ok_def)
  next
    case False
    have "\<exists>q r. c_div a b = Inr q \<and> c_rem a b = Inr r \<and> division_ok a b q r"
      by (rule c_div_ok' [OF b False]) simp
    then show ?thesis unfolding VMintDiv_def VMintRem_def if_not_P [OF False] .
  qed
qed (simp_all add: VMintDiv_def VMintRem_def c_div_def c_rem_def)

theorem int_division_witness:
  "\<exists>q r. VMintDiv (- 7) 2 = Inr q \<and> VMintRem (- 7) 2 = Inr r \<and> division_ok (- 7) 2 q r"
  using int_division [of 2 "- 7"] by simp

text \<open>C36. The division of \<^verbatim>\<open>jlong\<close>s has no such guard: it is what \<^verbatim>\<open>ldiv\<close> and \<^verbatim>\<open>lrem\<close> demand
  except for the least number divided by minus one, where the specification demands that
  number and a remainder of zero and the code's behaviour is undefined.\<close>

theorem long_division:
  "(b \<noteq> 0 \<and> \<not> (a = 0x8000000000000000 \<and> b = - 1) \<longrightarrow>
      (\<exists>q r. VMlongDiv a b = Inr q \<and> VMlongRem a b = Inr r \<and> division_ok a b q r)) \<and>
    division_ok (0x8000000000000000 :: jlong) (- 1) 0x8000000000000000 0 \<and>
    VMlongDiv 0x8000000000000000 (- 1) = Inl UndefinedBehaviour \<and>
    VMlongRem 0x8000000000000000 (- 1) = Inl UndefinedBehaviour"
proof (intro conjI impI)
  assume h: "b \<noteq> 0 \<and> \<not> (a = 0x8000000000000000 \<and> b = - 1)"
  show "\<exists>q r. VMlongDiv a b = Inr q \<and> VMlongRem a b = Inr r \<and> division_ok a b q r"
    unfolding VMlongDiv_def VMlongRem_def
    by (rule c_div_ok' [OF conjunct1 [OF h] conjunct2 [OF h]]) simp
qed (simp_all add: VMlongDiv_def VMlongRem_def c_div_def c_rem_def division_ok_def)

theorem long_division_witness:
  "\<exists>q r. VMlongDiv (- 7) 2 = Inr q \<and> VMlongRem (- 7) 2 = Inr r \<and> division_ok (- 7) 2 q r"
  using long_division [of 2 "- 7"] by simp

section \<open>Comparisons, shifts and conversions\<close>

text \<open>The comparisons of \<^verbatim>\<open>jlong\<close>s are those of signed numbers, and \<^verbatim>\<open>VMlongCompare\<close> is the
  sign of the difference; but \<^verbatim>\<open>VMlongLtz\<close>, which by its name tests for a number below zero,
  is also true of zero.\<close>

theorem long_comparisons:
  "VMlongCompare a b = word_of_int (sgn (sint a - sint b)) \<and>
    (VMlongGez a \<noteq> 0 \<longleftrightarrow> 0 \<le> sint a) \<and> (VMlongEqz a \<noteq> 0 \<longleftrightarrow> sint a = 0) \<and>
    (VMlongGe a b \<noteq> 0 \<longleftrightarrow> sint b \<le> sint a) \<and> (VMlongLe a b \<noteq> 0 \<longleftrightarrow> sint a \<le> sint b) \<and>
    (VMlongNe a b = 0 \<longleftrightarrow> VMlongEq a b \<noteq> 0) \<and>
    (VMlongLtz a \<noteq> 0 \<longleftrightarrow> sint a < 0 \<or> a = 0) \<and> VMlongLtz 0 = 1"
proof -
  have z: "sint a = 0 \<longleftrightarrow> a = 0" by (simp add: signed_eq_0_iff)
  show ?thesis
    using z by (auto simp: VMlongCompare_def VMlongLt_def VMlongGt_def VMlongGez_def VMlongEqz_def VMlongGe_def
        VMlongLe_def VMlongNe_def VMlongEq_def VMlongLtz_def c_bool_def word_sle_eq word_sless_alt sgn_if)
qed

lemma and_3f: "(n AND 0x3f :: c_int) = take_bit 6 n"
  by (simp add: take_bit_eq_mask mask_eq_exp_minus_1)

lemma shift_distance:
  "unat (n AND 0x3f :: c_int) = unat n mod 64" "0 \<le> sint (n AND 0x3f :: c_int)" "sint (n AND 0x3f :: c_int) < 64"
proof -
  show u: "unat (n AND 0x3f :: c_int) = unat n mod 64"
    unfolding and_3f by (subst unsigned_take_bit_eq) (simp add: take_bit_eq_mod)
  then have l: "unat (n AND 0x3f :: c_int) < 64" by simp
  then have "sint (n AND 0x3f :: c_int) = int (unat (n AND 0x3f :: c_int))"
    by (intro sint_small) simp
  with l show "0 \<le> sint (n AND 0x3f :: c_int)" "sint (n AND 0x3f :: c_int) < 64" by linarith+
qed

lemma c_shift_64: "c_shift f (a :: jlong) (n AND 0x3f) = Inr (f (unat n mod 64) a)"
  using shift_distance [of n] by (simp add: c_shift_def)

lemma unat_drop_bit: "unat (drop_bit k (a :: 'w::len word)) = unat a div 2 ^ k"
  by (simp only: unat_drop_bit_eq) (rule drop_bit_eq_div)

lemma sint_signed_drop_bit: "sint (signed_drop_bit k (a :: 'w::len word)) = sint a div 2 ^ k"
  by (simp only: sint_signed_drop_bit_eq) (rule drop_bit_eq_div)

text \<open>The shifts of \<^verbatim>\<open>jlong\<close>s take the distance modulo 64 and never fail: they multiply,
  divide rounding down, or divide the unsigned value by the power of two.\<close>

theorem long_shifts:
  "\<exists>l r u. VMlongShl a n = Inr l \<and> l = a * 2 ^ (unat n mod 64) \<and>
    VMlongShr a n = Inr r \<and> sint r = sint a div 2 ^ (unat n mod 64) \<and>
    VMlongUshr a n = Inr u \<and> unat u = unat a div 2 ^ (unat n mod 64)"
  unfolding VMlongShl_def VMlongShr_def VMlongUshr_def c_shift_64
  by (auto simp: sint_signed_drop_bit unat_drop_bit push_bit_eq_mult)

text \<open>The shifts of \<^verbatim>\<open>jint\<close>s do not reduce the distance: they are defined for the distances
  from 0 to 31 and no others.\<close>

theorem int_shifts:
  "(sint n < 0 \<or> 32 \<le> sint n \<longrightarrow> VMintShl a n = Inl UndefinedBehaviour \<and>
      VMintShr a n = Inl UndefinedBehaviour \<and> VMintUshr a n = Inl UndefinedBehaviour) \<and>
    (0 \<le> sint n \<and> sint n < 32 \<longrightarrow> (\<exists>l r u. VMintShl a n = Inr l \<and> l = a * 2 ^ unat n \<and>
      VMintShr a n = Inr r \<and> sint r = sint a div 2 ^ unat n \<and>
      VMintUshr a n = Inr u \<and> unat u = unat a div 2 ^ unat n))"
  unfolding VMintShl_def VMintShr_def VMintUshr_def c_shift_def
  by (auto simp: sint_signed_drop_bit unat_drop_bit push_bit_eq_mult)

theorem int_shifts_witness:
  "VMintShl 1 32 = Inl UndefinedBehaviour \<and> (\<exists>r. VMintShr (- 8) 2 = Inr r \<and> sint r = - 2)"
  using int_shifts [of 32 1] int_shifts [of 2 "- 8"] by auto

text \<open>The comparison of floating point numbers: the order where the numbers are ordered, and
  the requested direction when they are not (one of them is no number).\<close>

theorem float_comparison:
  assumes "d = 1 \<or> d = - 1"
  shows "VMdoubleCompare lt eq x y d = VMfloatCompare lt eq x y d \<and>
    VMfloatCompare lt eq x y d = (if lt x y then - 1 else if lt y x then 1 else if eq x y then 0 else d)"
  using assms by (auto simp: VMdoubleCompare_def VMfloatCompare_def)

theorem float_comparison_witness: "VMfloatCompare (\<lambda>x y. False) (\<lambda>x y. False) (0 :: int) 0 (- 1) = - 1"
  using float_comparison [of "- 1" "\<lambda>x y. False" "\<lambda>x y. False" "0 :: int" 0] by simp

text \<open>C1. Narrowing and widening: a \<^verbatim>\<open>jint\<close> survives the way to \<^verbatim>\<open>jlong\<close> and back, and a value
  in the range of a narrower type keeps its value there.\<close>

theorem conversions:
  "VMlong2Int (VMint2Long x) = x \<and> sint (VMint2Long x) = sint x \<and>
    (- 128 \<le> sint x \<and> sint x < 128 \<longrightarrow> sint (VMint2Byte x) = sint x) \<and>
    (- 32768 \<le> sint x \<and> sint x < 32768 \<longrightarrow> sint (VMint2Short x) = sint x) \<and>
    unat (VMint2Char x) = unat x mod 65536"
proof (intro conjI impI)
  show "VMlong2Int (VMint2Long x) = x"
    by (rule bit_word_eqI) (simp add: VMlong2Int_def VMint2Long_def bit_simps)
  show "sint (VMint2Long x) = sint x" 
    using sint_greater_eq [of x] sint_less [of x]
    by (simp add: signed_scast_eq signed_take_bit_int_eq_self VMint2Long_def)
  show "sint (VMint2Byte x) = sint x" if "- 128 \<le> sint x \<and> sint x < 128"
    using that by (simp add: VMint2Byte_def signed_scast_eq signed_take_bit_int_eq_self)
  show "sint (VMint2Short x) = sint x" if "- 32768 \<le> sint x \<and> sint x < 32768"
    using that by (simp add: VMint2Short_def signed_scast_eq signed_take_bit_int_eq_self)
  show "unat (VMint2Char x) = unat x mod 65536" by (simp add: VMint2Char_def unsigned_ucast_eq take_bit_eq_mod)
qed

theorem conversions_witness:
  "sint (VMint2Byte (- 5)) = - 5 \<and> sint (VMint2Short 1000) = 1000"
  using conversions [of "- 5"] conversions [of 1000] by simp

end
