(* ===== verification/BytesAccess.thy ===== *)
theory BytesAccess
  imports Prelude
begin

text \<open>
  Unaligned access to memory in native and in Java byte order (\<^verbatim>\<open>bytes_CPU.hpp\<close>,
  \<^verbatim>\<open>bytes_linux_CPU.inline.hpp\<close>). A memory maps addresses to bytes; \<open>le\<close> says whether the
  machine is little-endian, which is \<^verbatim>\<open>#ifdef VM_LITTLE_ENDIAN\<close>. An aligned access through a
  pointer to a wider type, such as \<^verbatim>\<open>*(u4*)p\<close>, is the machine's: \<open>load_u4\<close> and \<open>store_u4\<close>.
\<close>

type_synonym 'w mem = "'w word \<Rightarrow> 8 word"
type_synonym u1 = "8 word"
type_synonym u2 = "16 word"
type_synonym u4 = "32 word"
type_synonym u8 = "64 word"

section \<open>The machine's accesses\<close>

definition load_u2 :: "bool \<Rightarrow> 'w::len mem \<Rightarrow> 'w word \<Rightarrow> u2" where
  "load_u2 le m p = (if le then push_bit 8 (ucast (m (p + 1))) OR ucast (m p)
     else push_bit 8 (ucast (m p)) OR ucast (m (p + 1)))"

definition load_u4 :: "bool \<Rightarrow> 'w::len mem \<Rightarrow> 'w word \<Rightarrow> u4" where
  "load_u4 le m p = (if le then push_bit 16 (ucast (load_u2 le m (p + 2))) OR ucast (load_u2 le m p)
     else push_bit 16 (ucast (load_u2 le m p)) OR ucast (load_u2 le m (p + 2)))"

definition load_u8 :: "bool \<Rightarrow> 'w::len mem \<Rightarrow> 'w word \<Rightarrow> u8" where
  "load_u8 le m p = (if le then push_bit 32 (ucast (load_u4 le m (p + 4))) OR ucast (load_u4 le m p)
     else push_bit 32 (ucast (load_u4 le m p)) OR ucast (load_u4 le m (p + 4)))"

definition store_u2 :: "bool \<Rightarrow> 'w::len mem \<Rightarrow> 'w word \<Rightarrow> u2 \<Rightarrow> 'w mem" where
  "store_u2 le m p x = (if le then m(p := ucast x, p + 1 := ucast (drop_bit 8 x))
     else m(p := ucast (drop_bit 8 x), p + 1 := ucast x))"

definition store_u4 :: "bool \<Rightarrow> 'w::len mem \<Rightarrow> 'w word \<Rightarrow> u4 \<Rightarrow> 'w mem" where
  "store_u4 le m p x =
     (if le then store_u2 le (store_u2 le m p (ucast x)) (p + 2) (ucast (drop_bit 16 x))
      else store_u2 le (store_u2 le m p (ucast (drop_bit 16 x))) (p + 2) (ucast x))"

definition store_u8 :: "bool \<Rightarrow> 'w::len mem \<Rightarrow> 'w word \<Rightarrow> u8 \<Rightarrow> 'w mem" where
  "store_u8 le m p x =
     (if le then store_u4 le (store_u4 le m p (ucast x)) (p + 4) (ucast (drop_bit 32 x))
      else store_u4 le (store_u4 le m p (ucast (drop_bit 32 x))) (p + 4) (ucast x))"

section \<open>Access in native byte order\<close>

definition is_Java_byte_ordering_different :: "bool \<Rightarrow> bool" where
  "is_Java_byte_ordering_different le = le"

definition get_native_u2 :: "bool \<Rightarrow> 'w::len mem \<Rightarrow> 'w word \<Rightarrow> u2" where
  "get_native_u2 le m p =
     (if p AND 1 = 0 then load_u2 le m p
      else push_bit 8 (ucast (m p)) OR ucast (m (p + 1)))"

definition get_native_u4 :: "bool \<Rightarrow> 'w::len mem \<Rightarrow> 'w word \<Rightarrow> u4" where
  "get_native_u4 le m p =
     (if p AND 3 = 0 then load_u4 le m p
      else if p AND 3 = 2 then
        push_bit 16 (ucast (load_u2 le m p)) OR ucast (load_u2 le m (p + 2))
      else push_bit 24 (ucast (m p)) OR push_bit 16 (ucast (m (p + 1))) OR
        push_bit 8 (ucast (m (p + 2))) OR ucast (m (p + 3)))"

definition get_native_u8 :: "bool \<Rightarrow> 'w::len mem \<Rightarrow> 'w word \<Rightarrow> u8" where
  "get_native_u8 le m p =
     (if p AND 7 = 0 then load_u8 le m p
      else if p AND 7 = 4 then
        push_bit 32 (ucast (load_u4 le m p)) OR ucast (load_u4 le m (p + 4))
      else if p AND 7 = 2 then
        push_bit 48 (ucast (load_u2 le m p)) OR push_bit 32 (ucast (load_u2 le m (p + 2))) OR
        push_bit 16 (ucast (load_u2 le m (p + 4))) OR ucast (load_u2 le m (p + 6))
      else
        push_bit 56 (ucast (m p)) OR push_bit 48 (ucast (m (p + 1))) OR
        push_bit 40 (ucast (m (p + 2))) OR push_bit 32 (ucast (m (p + 3))) OR
        push_bit 24 (ucast (m (p + 4))) OR push_bit 16 (ucast (m (p + 5))) OR
        push_bit 8 (ucast (m (p + 6))) OR ucast (m (p + 7)))"

definition put_native_u2 :: "bool \<Rightarrow> 'w::len mem \<Rightarrow> 'w word \<Rightarrow> u2 \<Rightarrow> 'w mem" where
  "put_native_u2 le m p x =
     (if p AND 1 = 0 then store_u2 le m p x
      else m(p := ucast (drop_bit 8 x), p + 1 := ucast x))"

definition put_native_u4 :: "bool \<Rightarrow> 'w::len mem \<Rightarrow> 'w word \<Rightarrow> u4 \<Rightarrow> 'w mem" where
  "put_native_u4 le m p x =
     (if p AND 3 = 0 then store_u4 le m p x
      else if p AND 3 = 2 then
        store_u2 le (store_u2 le m p (ucast (drop_bit 16 x))) (p + 2) (ucast x)
      else m(p := ucast (drop_bit 24 x), p + 1 := ucast (drop_bit 16 x),
             p + 2 := ucast (drop_bit 8 x), p + 3 := ucast x))"

definition put_native_u8 :: "bool \<Rightarrow> 'w::len mem \<Rightarrow> 'w word \<Rightarrow> u8 \<Rightarrow> 'w mem" where
  "put_native_u8 le m p x =
     (if p AND 7 = 0 then store_u8 le m p x
      else if p AND 7 = 4 then
        store_u4 le (store_u4 le m p (ucast (drop_bit 32 x))) (p + 4) (ucast x)
      else if p AND 7 = 2 then
        store_u2 le (store_u2 le (store_u2 le (store_u2 le m
          p (ucast (drop_bit 48 x))) (p + 2) (ucast (drop_bit 32 x)))
          (p + 4) (ucast (drop_bit 16 x))) (p + 6) (ucast x)
      else m(p := ucast (drop_bit 56 x), p + 1 := ucast (drop_bit 48 x),
             p + 2 := ucast (drop_bit 40 x), p + 3 := ucast (drop_bit 32 x),
             p + 4 := ucast (drop_bit 24 x), p + 5 := ucast (drop_bit 16 x),
             p + 6 := ucast (drop_bit 8 x), p + 7 := ucast x))"

section \<open>Access in Java byte order\<close>

text \<open>\<^verbatim>\<open>bswap_16\<close>, \<^verbatim>\<open>bswap_32\<close> and \<^verbatim>\<open>bswap_64\<close> of the C library.\<close>

definition bswap_16 :: "u2 \<Rightarrow> u2" where
  "bswap_16 x = push_bit 8 x OR drop_bit 8 x"

definition bswap_32 :: "u4 \<Rightarrow> u4" where
  "bswap_32 x = push_bit 16 (ucast (bswap_16 (ucast x))) OR ucast (bswap_16 (ucast (drop_bit 16 x)))"

definition bswap_64 :: "u8 \<Rightarrow> u8" where
  "bswap_64 x = push_bit 32 (ucast (bswap_32 (ucast x))) OR ucast (bswap_32 (ucast (drop_bit 32 x)))"

definition swap_u2 :: "bool \<Rightarrow> u2 \<Rightarrow> u2" where "swap_u2 le x = (if le then bswap_16 x else x)"
definition swap_u4 :: "bool \<Rightarrow> u4 \<Rightarrow> u4" where "swap_u4 le x = (if le then bswap_32 x else x)"
definition swap_u8 :: "bool \<Rightarrow> u8 \<Rightarrow> u8" where "swap_u8 le x = (if le then bswap_64 x else x)"

definition get_Java_u2 :: "bool \<Rightarrow> 'w::len mem \<Rightarrow> 'w word \<Rightarrow> u2" where
  "get_Java_u2 le m p = (if le then swap_u2 le (get_native_u2 le m p) else get_native_u2 le m p)"

definition get_Java_u4 :: "bool \<Rightarrow> 'w::len mem \<Rightarrow> 'w word \<Rightarrow> u4" where
  "get_Java_u4 le m p = (if le then swap_u4 le (get_native_u4 le m p) else get_native_u4 le m p)"

definition get_Java_u8 :: "bool \<Rightarrow> 'w::len mem \<Rightarrow> 'w word \<Rightarrow> u8" where
  "get_Java_u8 le m p = (if le then swap_u8 le (get_native_u8 le m p) else get_native_u8 le m p)"

definition put_Java_u2 :: "bool \<Rightarrow> 'w::len mem \<Rightarrow> 'w word \<Rightarrow> u2 \<Rightarrow> 'w mem" where
  "put_Java_u2 le m p x = (if le then put_native_u2 le m p (swap_u2 le x) else put_native_u2 le m p x)"

definition put_Java_u4 :: "bool \<Rightarrow> 'w::len mem \<Rightarrow> 'w word \<Rightarrow> u4 \<Rightarrow> 'w mem" where
  "put_Java_u4 le m p x = (if le then put_native_u4 le m p (swap_u4 le x) else put_native_u4 le m p x)"

definition put_Java_u8 :: "bool \<Rightarrow> 'w::len mem \<Rightarrow> 'w word \<Rightarrow> u8 \<Rightarrow> 'w mem" where
  "put_Java_u8 le m p x = (if le then put_native_u8 le m p (swap_u8 le x) else put_native_u8 le m p x)"

section \<open>Bytes in sequence\<close>

text \<open>The number whose bytes, the most significant first, are \<open>bs\<close>.\<close>

definition be_bytes :: "u1 list \<Rightarrow> 'v::len word" where
  "be_bytes bs = foldl (\<lambda>a b. push_bit 8 a OR ucast b) 0 bs"

fun bytes_at :: "'w::len mem \<Rightarrow> 'w word \<Rightarrow> nat \<Rightarrow> u1 list" where
  "bytes_at m p 0 = []"
| "bytes_at m p (Suc n) = m p # bytes_at m (p + 1) n"

fun write_bytes :: "'w::len mem \<Rightarrow> 'w word \<Rightarrow> u1 list \<Rightarrow> 'w mem" where
  "write_bytes m p [] = m"
| "write_bytes m p (b # bs) = write_bytes (m(p := b)) (p + 1) bs"

definition to_be :: "nat \<Rightarrow> 'v::len word \<Rightarrow> u1 list" where
  "to_be n x = rev (map (\<lambda>i. ucast (drop_bit (8 * i) x)) [0..<n])"

lemma be_bytes_snoc: "be_bytes (bs @ [b]) = push_bit 8 (be_bytes bs) OR ucast b"
  by (simp add: be_bytes_def)

lemma bit_be_bytes:
  "bit (be_bytes bs :: 'v::len word) i \<longleftrightarrow>
    i < LENGTH('v) \<and> i < 8 * length bs \<and> bit (rev bs ! (i div 8)) (i mod 8)"
proof (induction bs arbitrary: i rule: rev_induct)
  case (snoc b bs)
  show ?case
  proof (cases "i < 8")
    case True
    then show ?thesis by (auto simp: be_bytes_snoc bit_simps)
  next
    case False
    then have d: "i div 8 = Suc ((i - 8) div 8)" "i mod 8 = (i - 8) mod 8"
      by (simp_all add: le_div_geq le_mod_geq)
    have "\<not> bit b i" using False bit_imp_le_length [of b i] by auto
    then show ?thesis using False d snoc.IH [of "i - 8"] by (auto simp: be_bytes_snoc bit_simps)
  qed
qed (simp add: be_bytes_def)

lemma length_bytes_at [simp]: "length (bytes_at m p n) = n"
  by (induction n arbitrary: p) simp_all

lemma length_to_be [simp]: "length (to_be n x) = n"
  by (simp add: to_be_def)

lemma be_bytes_to_be:
  assumes "LENGTH('v) \<le> 8 * n"
  shows "be_bytes (to_be n x) = (x :: 'v::len word)"
proof (rule bit_word_eqI)
  fix i assume i: "i < LENGTH('v)"
  then have k: "i div 8 < n" using assms by (simp add: less_mult_imp_div_less)
  have m: "8 * (i div 8) + i mod 8 = i" by simp
  show "bit (be_bytes (to_be n x) :: 'v word) i = bit x i"
    using i k assms m by (simp add: bit_be_bytes to_be_def bit_simps del: mult_div_mod_eq)
qed

lemma ucast_be_bytes: "8 * length bs \<le> LENGTH('v) \<Longrightarrow> ucast (be_bytes bs :: 'v::len word) = be_bytes bs"
  by (rule bit_word_eqI) (auto simp: bit_be_bytes bit_simps)

lemma be_bytes_append: "be_bytes (xs @ ys) = push_bit (8 * length ys) (be_bytes xs) OR be_bytes ys"
proof (rule bit_word_eqI)
  fix i assume i: "i < LENGTH('a)"
  show "bit (be_bytes (xs @ ys) :: 'a word) i = bit (push_bit (8 * length ys) (be_bytes xs) OR be_bytes ys :: 'a word) i"
  proof (cases "i < 8 * length ys")
    case True
    then have "i div 8 < length ys" by (simp add: less_mult_imp_div_less)
    then show ?thesis using True i by (auto simp: bit_be_bytes bit_simps nth_append)
  next
    case False
    then obtain j where j: "i = 8 * length ys + j" by (metis le_Suc_ex not_less)
    show ?thesis using i unfolding j by (auto simp: bit_be_bytes bit_simps nth_append)
  qed
qed

lemma write_bytes_append:
  "write_bytes m p (xs @ ys) = write_bytes (write_bytes m p xs) (p + of_nat (length xs)) ys"
  by (induction xs arbitrary: m p) (simp_all add: add.assoc)

lemma write_bytes_apply:
  fixes p :: "'w::len word"
  assumes "length bs \<le> 2 ^ LENGTH('w)"
  shows "write_bytes m p bs a = (if unat (a - p) < length bs then bs ! unat (a - p) else m a)"
  using assms
proof (induction bs arbitrary: m p)
  case (Cons b bs)
  show ?case
  proof (cases "a = p")
    case True
    have "unat (a - (p + 1)) = 2 ^ LENGTH('w) - 1"
      using True by (simp add: unsigned_minus_1_eq_mask mask_eq_exp_minus_1)
    moreover have "\<not> 2 ^ LENGTH('w) - Suc 0 < length bs" using Cons.prems by simp
    ultimately show ?thesis using Cons True by simp
  next
    case False
    then have "a - p \<noteq> 0" by simp
    then have "unat (a - p - 1) = unat (a - p) - 1" "unat (a - p) \<noteq> 0"
      by (rule unat_minus_one) (use \<open>a - p \<noteq> 0\<close> in \<open>simp add: unsigned_eq_0_iff\<close>)
    then have "unat (a - p) = Suc (unat (a - p - 1))" by simp
    then show ?thesis using Cons False by (simp add: diff_diff_eq2 diff_diff_eq)
  qed
qed simp

lemma bytes_at_nth: "i < n \<Longrightarrow> bytes_at m p n ! i = m (p + of_nat i)"
proof (induction n arbitrary: p i)
  case (Suc n)
  then show ?case by (cases i) (simp_all add: add.assoc)
qed simp

lemma bytes_at_write:
  fixes p :: "'w::len word"
  assumes "length bs \<le> 2 ^ LENGTH('w)"
  shows "bytes_at (write_bytes m p bs) p (length bs) = bs"
proof (rule nth_equalityI)
  fix i assume "i < length (bytes_at (write_bytes m p bs) p (length bs))"
  then have i: "i < length bs" by simp
  then have "unat (of_nat i :: 'w word) = i" using assms by (simp add: unat_of_nat)
  then show "bytes_at (write_bytes m p bs) p (length bs) ! i = bs ! i"
    using i assms by (simp add: bytes_at_nth write_bytes_apply)
qed simp

lemma bytes_at_simps:
  "bytes_at m p 2 = [m p, m (p + 1)]"
  "bytes_at m p 4 = [m p, m (p + 1), m (p + 2), m (p + 3)]"
  "bytes_at m p 8 = [m p, m (p + 1), m (p + 2), m (p + 3), m (p + 4), m (p + 5), m (p + 6), m (p + 7)]"
  by (simp_all add: numeral_eq_Suc add.assoc)

text \<open>The bytes of a number in memory, put in the order from the most significant one.\<close>

definition order :: "bool \<Rightarrow> 'b list \<Rightarrow> 'b list" where
  "order le bs = (if le then rev bs else bs)"

lemma join_be_bytes:
  "8 * length xs \<le> LENGTH('u) \<Longrightarrow> 8 * length ys \<le> LENGTH('v) \<Longrightarrow> n = 8 * length ys \<Longrightarrow>
    push_bit n (ucast (be_bytes xs :: 'u::len word)) OR ucast (be_bytes ys :: 'v::len word) = be_bytes (xs @ ys)"
  by (simp add: ucast_be_bytes be_bytes_append)

lemma join_be_bytes':
  "8 * length xs \<le> LENGTH('u) \<Longrightarrow> n = 8 * length ys \<Longrightarrow>
    push_bit n (ucast (be_bytes xs :: 'u::len word)) OR be_bytes ys = be_bytes (xs @ ys)"
  by (simp add: ucast_be_bytes be_bytes_append)

lemma be_bytes_single: "be_bytes [b] = ucast b"
  by (simp add: be_bytes_def)

lemma load_u2_eq: "load_u2 le m p = be_bytes (order le (bytes_at m p 2))"
  by (simp add: load_u2_def order_def bytes_at_simps be_bytes_def)

lemma load_u4_eq: "load_u4 le m p = be_bytes (order le (bytes_at m p 4))"
  unfolding load_u4_def load_u2_eq by (simp add: join_be_bytes order_def bytes_at_simps add.assoc)

lemma load_u8_eq: "load_u8 le m p = be_bytes (order le (bytes_at m p 8))"
  unfolding load_u8_def load_u4_eq by (simp add: join_be_bytes order_def bytes_at_simps add.assoc)

lemma fold_bytes:
  "push_bit 8 (ucast a) OR ucast b = be_bytes [a, b]"
  "push_bit 24 (ucast a) OR push_bit 16 (ucast b) OR push_bit 8 (ucast c) OR ucast d = be_bytes [a, b, c, d]"
  "push_bit 56 (ucast a) OR push_bit 48 (ucast b) OR push_bit 40 (ucast c) OR push_bit 32 (ucast d) OR
    push_bit 24 (ucast e) OR push_bit 16 (ucast f) OR push_bit 8 (ucast g) OR ucast h = be_bytes [a, b, c, d, e, f, g, h]"
  by (simp_all add: be_bytes_def push_bit_or or.assoc)

text \<open>
  Where the machine's wide accesses are used, the order of the bytes is the machine's within
  each access; between the accesses it is always from the most significant one.
\<close>

definition native_order :: "bool \<Rightarrow> 'w::len word \<Rightarrow> nat \<Rightarrow> 'b list \<Rightarrow> 'b list" where
  "native_order le p n bs =
     (if p AND of_nat (n - 1) = 0 then order le bs
      else if n = 8 \<and> p AND 7 = 4 then order le (take 4 bs) @ order le (drop 4 bs)
      else if n = 8 \<and> p AND 7 = 2 \<or> n = 4 \<and> p AND 3 = 2
      then concat (map (order le) (if n = 8 then [take 2 bs, take 2 (drop 2 bs), take 2 (drop 4 bs), drop 6 bs]
        else [take 2 bs, drop 2 bs]))
      else bs)"

lemma get_native_eq:
  "get_native_u2 le m p = be_bytes (native_order le p 2 (bytes_at m p 2))"
  "get_native_u4 le m p = be_bytes (native_order le p 4 (bytes_at m p 4))"
  "get_native_u8 le m p = be_bytes (native_order le p 8 (bytes_at m p 8))"
proof -
  show "get_native_u2 le m p = be_bytes (native_order le p 2 (bytes_at m p 2))"
    by (simp add: get_native_u2_def native_order_def load_u2_eq bytes_at_simps fold_bytes(1))
  show "get_native_u4 le m p = be_bytes (native_order le p 4 (bytes_at m p 4))"
    by (simp add: get_native_u4_def native_order_def load_u2_eq load_u4_eq bytes_at_simps fold_bytes(2)
        join_be_bytes order_def add.assoc)
  show "get_native_u8 le m p = be_bytes (native_order le p 8 (bytes_at m p 8))"
    by (simp add: get_native_u8_def native_order_def load_u2_eq load_u4_eq load_u8_eq bytes_at_simps fold_bytes(3)
        join_be_bytes join_be_bytes' order_def add.assoc)
qed

lemma be_bytes_low:
  fixes xs ys :: "u1 list"
  assumes "LENGTH('u) = 8 * length ys" "LENGTH('u) \<le> LENGTH('v)"
  shows "ucast (be_bytes (xs @ ys) :: 'v::len word) = (be_bytes ys :: 'u::len word)"
proof (rule bit_word_eqI)
  fix i assume i: "i < LENGTH('u)"
  then have "i div 8 < length ys" using assms by (simp add: less_mult_imp_div_less)
  then show "bit (ucast (be_bytes (xs @ ys) :: 'v word) :: 'u word) i = bit (be_bytes ys :: 'u word) i"
    using i assms by (auto simp: bit_be_bytes bit_simps nth_append)
qed

lemma be_bytes_high:
  fixes xs ys :: "u1 list"
  assumes "LENGTH('u) = 8 * length xs" "8 * (length xs + length ys) \<le> LENGTH('v)"
  shows "ucast (drop_bit (8 * length ys) (be_bytes (xs @ ys) :: 'v::len word)) = (be_bytes xs :: 'u::len word)"
  using assms by (intro bit_word_eqI) (auto simp: bit_be_bytes bit_simps nth_append)

lemma bswap_eq:
  "bswap_16 (be_bytes [a, b]) = be_bytes [b, a]"
  "bswap_32 (be_bytes [a, b, c, d]) = be_bytes [d, c, b, a]"
  "bswap_64 (be_bytes [a, b, c, d, e, f, g, h]) = be_bytes [h, g, f, e, d, c, b, a]"
proof -
  show 16: "bswap_16 (be_bytes [a, b]) = be_bytes [b, a]" for a b
  proof (rule bit_word_eqI)
    fix i assume "i < LENGTH(16)"
    show "bit (bswap_16 (be_bytes [a, b])) i = bit (be_bytes [b, a] :: u2) i"
    proof (cases "i < 8")
      case True
      then show ?thesis by (simp add: bswap_16_def bit_be_bytes bit_simps)
    next
      case False
      then obtain j where "i = 8 + j" by (metis le_Suc_ex not_less)
      moreover have "\<not> bit b (8 + j)" for j using bit_imp_le_length [of b "8 + j"] by auto
      ultimately show ?thesis using \<open>i < LENGTH(16)\<close> by (simp add: bswap_16_def bit_be_bytes bit_simps)
    qed
  qed
  show 32: "bswap_32 (be_bytes [a, b, c, d]) = be_bytes [d, c, b, a]" for a b c d
    using be_bytes_low [of "[c, d]" "[a, b]", where 'u = 16 and 'v = 32] be_bytes_high [of "[a, b]" "[c, d]", where 'u = 16 and 'v = 32]
    by (simp add: bswap_32_def 16 join_be_bytes)
  show "bswap_64 (be_bytes [a, b, c, d, e, f, g, h]) = be_bytes [h, g, f, e, d, c, b, a]"
    using be_bytes_low [of "[e, f, g, h]" "[a, b, c, d]", where 'u = 32 and 'v = 64]
      be_bytes_high [of "[a, b, c, d]" "[e, f, g, h]", where 'u = 32 and 'v = 64]
    by (simp add: bswap_64_def 32 join_be_bytes)
qed

section \<open>Writing bytes\<close>

lemma to_be_be_bytes:
  assumes "8 * length bs \<le> LENGTH('v)"
  shows "to_be (length bs) (be_bytes bs :: 'v::len word) = bs"
proof -
  have "map (\<lambda>i. ucast (drop_bit (8 * i) (be_bytes bs :: 'v word))) [0..<length bs] = rev bs"
  proof (rule nth_equalityI)
    fix i assume "i < length (map (\<lambda>i. ucast (drop_bit (8 * i) (be_bytes bs :: 'v word)) :: u1) [0..<length bs])"
    then have i: "i < length bs" by simp
    have "ucast (drop_bit (8 * i) (be_bytes bs :: 'v word)) = rev bs ! i"
      by (rule bit_word_eqI) (use i assms in \<open>auto simp: bit_be_bytes bit_simps\<close>)
    then show "map (\<lambda>i. ucast (drop_bit (8 * i) (be_bytes bs :: 'v word))) [0..<length bs] ! i = rev bs ! i"
      using i by simp
  qed simp
  then show ?thesis by (simp add: to_be_def)
qed

lemma to_be_simps:
  "to_be 2 x = [ucast (drop_bit 8 x), ucast x]"
  "to_be 4 x = [ucast (drop_bit 24 x), ucast (drop_bit 16 x), ucast (drop_bit 8 x), ucast x]"
  "to_be 8 x = [ucast (drop_bit 56 x), ucast (drop_bit 48 x), ucast (drop_bit 40 x), ucast (drop_bit 32 x),
     ucast (drop_bit 24 x), ucast (drop_bit 16 x), ucast (drop_bit 8 x), ucast x]"
  by (simp_all add: to_be_def upt_rec)

lemma ucast_drop_ucast:
  "k + LENGTH('t) \<le> LENGTH('u) \<Longrightarrow>
    (ucast (drop_bit k (ucast (x :: 'v::len word) :: 'u::len word)) :: 't::len word) = ucast (drop_bit k x)"
  by (rule bit_word_eqI) (auto simp: bit_simps)

lemma ucast_ucast_low:
  "LENGTH('t) \<le> LENGTH('u) \<Longrightarrow> (ucast (ucast (x :: 'v::len word) :: 'u::len word) :: 't::len word) = ucast x"
  by (rule bit_word_eqI) (auto simp: bit_simps)

lemma store_u2_eq: "store_u2 le m p x = write_bytes m p (order le (to_be 2 x))"
  by (simp add: store_u2_def order_def to_be_simps)

lemma store_u4_eq: "store_u4 le m p x = write_bytes m p (order le (to_be 4 x))"
  unfolding store_u4_def store_u2_eq
  by (simp add: order_def to_be_simps ucast_drop_ucast ucast_ucast_low add.assoc)

lemma store_u8_eq: "store_u8 le m p x = write_bytes m p (order le (to_be 8 x))"
  unfolding store_u8_def store_u4_eq
  by (simp add: order_def to_be_simps ucast_drop_ucast ucast_ucast_low add.assoc)

lemma put_native_eq:
  "put_native_u2 le m p x = write_bytes m p (native_order le p 2 (to_be 2 x))"
  "put_native_u4 le m p x' = write_bytes m p (native_order le p 4 (to_be 4 x'))"
  "put_native_u8 le m p x'' = write_bytes m p (native_order le p 8 (to_be 8 x''))"
proof -
  show "put_native_u2 le m p x = write_bytes m p (native_order le p 2 (to_be 2 x))"
    by (simp add: put_native_u2_def native_order_def store_u2_eq to_be_simps)
  show "put_native_u4 le m p x' = write_bytes m p (native_order le p 4 (to_be 4 x'))"
    by (simp add: put_native_u4_def native_order_def store_u2_eq store_u4_eq to_be_simps order_def
        ucast_drop_ucast ucast_ucast_low add.assoc)
  show "put_native_u8 le m p x'' = write_bytes m p (native_order le p 8 (to_be 8 x''))"
    by (simp add: put_native_u8_def native_order_def store_u2_eq store_u4_eq store_u8_eq to_be_simps order_def
        ucast_drop_ucast ucast_ucast_low add.assoc)
qed

lemma order_simps [simp]: "length (order le bs) = length bs" "order le (order le bs) = bs"
  by (simp_all add: order_def)

lemma length_cases:
  "length bs = 2 \<Longrightarrow> \<exists>a b. bs = [a, b]"
  "length bs = 4 \<Longrightarrow> \<exists>a b c d. bs = [a, b, c, d]"
  "length bs = 8 \<Longrightarrow> \<exists>a b c d e f g h. bs = [a, b, c, d, e, f, g, h]"
  by (simp_all add: numeral_eq_Suc length_Suc_conv) blast+

lemma native_order_involution:
  assumes "length bs = n" "n = 2 \<or> n = 4 \<or> n = 8"
  shows "native_order le p n (native_order le p n bs) = bs" "length (native_order le p n bs) = n"
  using assms length_cases [of bs] by (auto simp: native_order_def order_def)

lemma swap_eq:
  "swap_u2 le x = be_bytes (order le (to_be 2 x))"
  "swap_u4 le x' = be_bytes (order le (to_be 4 x'))"
  "swap_u8 le x'' = be_bytes (order le (to_be 8 x''))"
  using be_bytes_to_be [of 2 x] be_bytes_to_be [of 4 x'] be_bytes_to_be [of 8 x'']
    bswap_eq(1) [of "to_be 2 x ! 0" "to_be 2 x ! 1"]
    bswap_eq(2) [of "to_be 4 x' ! 0" "to_be 4 x' ! 1" "to_be 4 x' ! 2" "to_be 4 x' ! 3"]
    bswap_eq(3) [of "to_be 8 x'' ! 0" "to_be 8 x'' ! 1" "to_be 8 x'' ! 2" "to_be 8 x'' ! 3"
      "to_be 8 x'' ! 4" "to_be 8 x'' ! 5" "to_be 8 x'' ! 6" "to_be 8 x'' ! 7"]
  by (simp_all add: swap_u2_def swap_u4_def swap_u8_def order_def to_be_simps)

lemma get_Java_eq:
  "get_Java_u2 le m p = be_bytes (order le (native_order le p 2 (bytes_at m p 2)))"
  "get_Java_u4 le m p = be_bytes (order le (native_order le p 4 (bytes_at m p 4)))"
  "get_Java_u8 le m p = be_bytes (order le (native_order le p 8 (bytes_at m p 8)))"
  using to_be_be_bytes [of "native_order le p 2 (bytes_at m p 2)", where 'v = 16]
    to_be_be_bytes [of "native_order le p 4 (bytes_at m p 4)", where 'v = 32]
    to_be_be_bytes [of "native_order le p 8 (bytes_at m p 8)", where 'v = 64]
  by (cases le; simp add: get_Java_u2_def get_Java_u4_def get_Java_u8_def get_native_eq swap_eq
      native_order_involution(2) order_def)+

lemma put_Java_eq:
  "put_Java_u2 le m p x = write_bytes m p (native_order le p 2 (order le (to_be 2 x)))"
  "put_Java_u4 le m p x' = write_bytes m p (native_order le p 4 (order le (to_be 4 x')))"
  "put_Java_u8 le m p x'' = write_bytes m p (native_order le p 8 (order le (to_be 8 x'')))"
  using to_be_be_bytes [of "order le (to_be 2 x)", where 'v = 16]
    to_be_be_bytes [of "order le (to_be 4 x')", where 'v = 32]
    to_be_be_bytes [of "order le (to_be 8 x'')", where 'v = 64]
  by (cases le; simp add: put_Java_u2_def put_Java_u4_def put_Java_u8_def put_native_eq swap_eq order_def)+

section \<open>The contract of an accessor\<close>

text \<open>
  What the users of an accessor rely on: a value written is read back, the bytes outside the
  range written keep their values, and a value read depends on the bytes of its range only.
\<close>

locale byte_accessor =
  fixes get :: "'w::len mem \<Rightarrow> 'w word \<Rightarrow> 'v::len word"
    and put :: "'w mem \<Rightarrow> 'w word \<Rightarrow> 'v word \<Rightarrow> 'w mem"
    and n :: nat
  assumes get_put: "n \<le> 2 ^ LENGTH('w) \<Longrightarrow> get (put m p x) p = x"
    and put_frame: "n \<le> 2 ^ LENGTH('w) \<Longrightarrow> n \<le> unat (a - p) \<Longrightarrow> put m p x a = m a"
    and get_local: "(\<And>i. i < n \<Longrightarrow> m (p + of_nat i) = m' (p + of_nat i)) \<Longrightarrow> get m p = get m' p"
begin

lemma get_put_disjoint:
  assumes "n \<le> 2 ^ LENGTH('w)" "\<And>i. i < n \<Longrightarrow> n \<le> unat (q + of_nat i - p)"
  shows "get (put m p x) q = get m q"
  by (rule get_local) (rule put_frame [OF assms(1) assms(2)])

lemma put_twice: "n \<le> 2 ^ LENGTH('w) \<Longrightarrow> get (put (put m p x) p y) p = y"
  by (rule get_put)

end

text \<open>An accessor that reads and writes \<open>n\<close> bytes in an order that may depend on the address.\<close>

locale multibyte =
  fixes get :: "'w::len mem \<Rightarrow> 'w word \<Rightarrow> 'v::len word"
    and put :: "'w mem \<Rightarrow> 'w word \<Rightarrow> 'v word \<Rightarrow> 'w mem"
    and n :: nat
    and dec :: "'w word \<Rightarrow> u1 list \<Rightarrow> u1 list"
    and enc :: "'w word \<Rightarrow> u1 list \<Rightarrow> u1 list"
  assumes get_eq: "get m p = be_bytes (dec p (bytes_at m p n))"
    and put_eq: "put m p x = write_bytes m p (enc p (to_be n x))"
    and dec_enc: "length bs = n \<Longrightarrow> dec p (enc p bs) = bs"
    and length_enc: "length bs = n \<Longrightarrow> length (enc p bs) = n"
    and width: "LENGTH('v) = 8 * n"

lemma bytes_at_cong:
  "(\<And>i. i < n \<Longrightarrow> m (p + of_nat i) = m' (p + of_nat i)) \<Longrightarrow> bytes_at m p n = bytes_at m' p n"
  by (rule nth_equalityI) (simp_all add: bytes_at_nth)

sublocale multibyte \<subseteq> byte_accessor get put n
proof
  fix m :: "'w mem" and p :: "'w word" and x :: "'v word"
  assume n: "n \<le> 2 ^ LENGTH('w)"
  have l: "length (enc p (to_be n x)) = n" by (simp add: length_enc)
  with n have "bytes_at (put m p x) p n = enc p (to_be n x)"
    using bytes_at_write [of "enc p (to_be n x)" m p] by (simp add: put_eq)
  then show "get (put m p x) p = x" by (simp add: get_eq dec_enc be_bytes_to_be width)
next
  fix m :: "'w mem" and p a :: "'w word" and x :: "'v word"
  assume n: "n \<le> 2 ^ LENGTH('w)" "n \<le> unat (a - p)"
  then show "put m p x a = m a" by (simp add: put_eq write_bytes_apply length_enc)
next
  fix m m' :: "'w mem" and p :: "'w word"
  assume "\<And>i. i < n \<Longrightarrow> m (p + of_nat i) = m' (p + of_nat i)"
  then show "get m p = get m' p" unfolding get_eq by (simp cong: bytes_at_cong)
qed

interpretation native_u2: multibyte "get_native_u2 le" "put_native_u2 le" 2
  "\<lambda>p. native_order le p 2" "\<lambda>p. native_order le p 2" for le
  by unfold_locales (simp_all add: get_native_eq put_native_eq native_order_involution)

interpretation native_u4: multibyte "get_native_u4 le" "put_native_u4 le" 4
  "\<lambda>p. native_order le p 4" "\<lambda>p. native_order le p 4" for le
  by unfold_locales (simp_all add: get_native_eq put_native_eq native_order_involution)

interpretation native_u8: multibyte "get_native_u8 le" "put_native_u8 le" 8
  "\<lambda>p. native_order le p 8" "\<lambda>p. native_order le p 8" for le
  by unfold_locales (simp_all add: get_native_eq put_native_eq native_order_involution)

interpretation Java_u2: multibyte "get_Java_u2 le" "put_Java_u2 le" 2
  "\<lambda>p bs. order le (native_order le p 2 bs)" "\<lambda>p bs. native_order le p 2 (order le bs)" for le
  by unfold_locales (simp_all add: get_Java_eq put_Java_eq native_order_involution)

interpretation Java_u4: multibyte "get_Java_u4 le" "put_Java_u4 le" 4
  "\<lambda>p bs. order le (native_order le p 4 bs)" "\<lambda>p bs. native_order le p 4 (order le bs)" for le
  by unfold_locales (simp_all add: get_Java_eq put_Java_eq native_order_involution)

interpretation Java_u8: multibyte "get_Java_u8 le" "put_Java_u8 le" 8
  "\<lambda>p bs. order le (native_order le p 8 bs)" "\<lambda>p bs. native_order le p 8 (order le bs)" for le
  by unfold_locales (simp_all add: get_Java_eq put_Java_eq native_order_involution)

section \<open>Properties\<close>

text \<open>C23. A value written in Java byte order is read back, at any address and on either kind of
  machine, and the write changes the bytes of its range only.\<close>

theorem Java_access_roundtrip:
  assumes "8 \<le> (2 :: nat) ^ LENGTH('w)"
  shows "get_Java_u2 le (put_Java_u2 le m p x) p = x \<and> get_Java_u4 le (put_Java_u4 le m p y) p = y \<and>
    get_Java_u8 le (put_Java_u8 le m (p :: 'w::len word) z) p = z \<and>
    (2 \<le> unat (a - p) \<longrightarrow> put_Java_u2 le m p x a = m a) \<and> (4 \<le> unat (a - p) \<longrightarrow> put_Java_u4 le m p y a = m a) \<and>
    (8 \<le> unat (a - p) \<longrightarrow> put_Java_u8 le m p z a = m a)"
  using assms by (simp add: Java_u2.get_put Java_u4.get_put Java_u8.get_put
      Java_u2.put_frame Java_u4.put_frame Java_u8.put_frame)

theorem Java_access_roundtrip_witness:
  "get_Java_u4 True (put_Java_u4 True (\<lambda>a :: 32 word. 0) 5 0x11223344) 5 = 0x11223344 \<and>
    put_Java_u4 True (\<lambda>a. 0) (5 :: 32 word) 0x11223344 9 = 0"
  using Java_access_roundtrip [where le = True and m = "\<lambda>a :: 32 word. 0" and p = 5 and y = "0x11223344" and a = 9] by simp

text \<open>On a big-endian machine the value read is, at every address, the one whose bytes, the
  most significant first, are in memory.\<close>

theorem Java_order_big_endian:
  "get_Java_u2 False m p = be_bytes (bytes_at m p 2) \<and> get_Java_u4 False m p = be_bytes (bytes_at m p 4) \<and>
    get_Java_u8 False m p = be_bytes (bytes_at m p 8)"
  by (auto simp: get_Java_eq native_order_def order_def bytes_at_simps)

text \<open>C40. On a little-endian machine that holds for the aligned addresses only: at odd addresses
  the bytes are taken in the opposite order, since the unaligned branches of the native
  accessors put them together from the most significant one whatever the machine, and the
  result is swapped once more.\<close>

theorem Java_order_little_endian:
  "get_Java_u2 True m p = be_bytes (if p AND 1 = 0 then bytes_at m p 2 else rev (bytes_at m p 2)) \<and>
    (p AND 3 = 0 \<longrightarrow> get_Java_u4 True m p = be_bytes (bytes_at m p 4)) \<and>
    (p AND 3 = 1 \<or> p AND 3 = 3 \<longrightarrow> get_Java_u4 True m p = be_bytes (rev (bytes_at m p 4)))"
proof (intro conjI impI)
  show "get_Java_u2 True m p = be_bytes (if p AND 1 = 0 then bytes_at m p 2 else rev (bytes_at m p 2))"
    by (simp add: get_Java_eq native_order_def order_def)
  show "get_Java_u4 True m p = be_bytes (bytes_at m p 4)" if "p AND 3 = 0"
    using that by (simp add: get_Java_eq native_order_def order_def)
  assume d: "p AND 3 = 1 \<or> p AND 3 = 3"
  have "\<not> (p AND 3 = 0 \<or> p AND 3 = 2)"
  proof -
    have "bit (p AND 3) 0" using d by (auto simp: bit_0)
    moreover have "\<not> bit (2 :: 'a word) 0" "\<not> bit (0 :: 'a word) 0" by (simp_all add: bit_0)
    ultimately show ?thesis by metis
  qed
  then show "get_Java_u4 True m p = be_bytes (rev (bytes_at m p 4))"
    by (simp add: get_Java_eq native_order_def order_def)
qed

theorem Java_order_little_endian_witness:
  "get_Java_u4 True (\<lambda>a :: 32 word. ucast a) 4 = 0x04050607 \<and>
    get_Java_u4 True (\<lambda>a :: 32 word. ucast a) 5 = 0x08070605"
  using Java_order_little_endian [of "\<lambda>a :: 32 word. ucast a" 4] Java_order_little_endian [of "\<lambda>a :: 32 word. ucast a" 5]
  by (simp add: bytes_at_simps be_bytes_def)

end
