(* ===== verification/CopyRoutines.thy ===== *)
theory CopyRoutines
  imports Prelude
begin

text \<open>
  Copying and filling memory (\<^verbatim>\<open>copy_CPU.hpp\<close> and the stubs at the end of
  \<^verbatim>\<open>os_linux_CPU.cpp\<close>). A routine works on cells of one size; addresses count cells. The
  routines written in assembly (\<^verbatim>\<open>linux_ppc.s\<close>, \<^verbatim>\<open>linux_ppc64.s\<close>) are arguments.
\<close>

type_synonym 'v cells = "int \<Rightarrow> 'v"

text \<open>
  \<^verbatim>\<open>memmove\<close> copies as if through a buffer; \<^verbatim>\<open>memcpy\<close> requires that the regions do not
  overlap.
\<close>

definition memmove :: "'v cells \<Rightarrow> int \<Rightarrow> int \<Rightarrow> nat \<Rightarrow> 'v cells" where
  "memmove m to from n = (\<lambda>a. if to \<le> a \<and> a < to + int n then m (from + (a - to)) else m a)"

definition disjoint_regions :: "int \<Rightarrow> int \<Rightarrow> nat \<Rightarrow> bool" where
  "disjoint_regions from to n \<longleftrightarrow> n = 0 \<or> from + int n \<le> to \<or> to + int n \<le> from"

definition memcpy :: "'v cells \<Rightarrow> int \<Rightarrow> int \<Rightarrow> nat \<Rightarrow> 'v cells result" where
  "memcpy m to from n = (if disjoint_regions from to n then Inr (memmove m to from n) else Inl UndefinedBehaviour)"

section \<open>Copying words\<close>

definition pd_conjoint_words :: "int \<Rightarrow> int \<Rightarrow> nat \<Rightarrow> 'v cells \<Rightarrow> 'v cells" where
  "pd_conjoint_words from to count m = memmove m to from count"

text \<open>The cases 8 to 1 fall through: from the last word down to the first.\<close>

fun copy_down :: "int \<Rightarrow> int \<Rightarrow> nat \<Rightarrow> 'v cells \<Rightarrow> 'v cells" where
  "copy_down from to 0 m = m"
| "copy_down from to (Suc k) m = copy_down from to k (m(to + int k := m (from + int k)))"

definition pd_disjoint_words :: "int \<Rightarrow> int \<Rightarrow> nat \<Rightarrow> 'v cells \<Rightarrow> 'v cells result" where
  "pd_disjoint_words from to count m =
     (if count \<le> 8 then Inr (copy_down from to count m) else memcpy m to from count)"

text \<open>\<^verbatim>\<open>while (count-- > 0) *to++ = *from++;\<close>\<close>

fun copy_up :: "int \<Rightarrow> int \<Rightarrow> nat \<Rightarrow> 'v cells \<Rightarrow> 'v cells" where
  "copy_up from to 0 m = m"
| "copy_up from to (Suc k) m = copy_up (from + 1) (to + 1) k (m(to := m from))"

definition pd_disjoint_words_atomic :: "int \<Rightarrow> int \<Rightarrow> nat \<Rightarrow> 'v cells \<Rightarrow> 'v cells" where
  "pd_disjoint_words_atomic from to count m =
     (if count \<le> 8 then copy_down from to count m else copy_up from to count m)"

definition pd_aligned_conjoint_words :: "int \<Rightarrow> int \<Rightarrow> nat \<Rightarrow> 'v cells \<Rightarrow> 'v cells" where
  "pd_aligned_conjoint_words from to count m = memmove m to from count"

definition pd_aligned_disjoint_words :: "int \<Rightarrow> int \<Rightarrow> nat \<Rightarrow> 'v cells \<Rightarrow> 'v cells result" where
  "pd_aligned_disjoint_words from to count m = pd_disjoint_words from to count m"

definition pd_conjoint_bytes :: "int \<Rightarrow> int \<Rightarrow> nat \<Rightarrow> 'v cells \<Rightarrow> 'v cells" where
  "pd_conjoint_bytes from to count m = memmove m to from count"

definition pd_conjoint_bytes_atomic :: "int \<Rightarrow> int \<Rightarrow> nat \<Rightarrow> 'v cells \<Rightarrow> 'v cells" where
  "pd_conjoint_bytes_atomic from to count m = memmove m to from count"

section \<open>Copies that dispatch to other routines\<close>

type_synonym 'v copier = "int \<Rightarrow> int \<Rightarrow> nat \<Rightarrow> 'v cells \<Rightarrow> 'v cells result"

text \<open>
  Where there is an assembly routine it is the argument \<open>asm\<close>: \<^verbatim>\<open>_Copy_conjoint_jints_atomic\<close>
  on the 32-bit flavour, \<^verbatim>\<open>_Copy_conjoint_jlongs_atomic\<close> on the 64-bit one.
\<close>

definition Copy_conjoint_jints_atomic :: "arch \<Rightarrow> 'v copier \<Rightarrow> 'v copier" where
  "Copy_conjoint_jints_atomic arch asm from to count m =
     (case arch of PPC64 \<Rightarrow> Inl Unimplemented | PPC32 \<Rightarrow> asm from to count m)"

definition Copy_conjoint_jlongs_atomic :: "arch \<Rightarrow> 'v copier \<Rightarrow> 'v copier" where
  "Copy_conjoint_jlongs_atomic arch asm from to count m =
     (case arch of PPC32 \<Rightarrow> Inl Unimplemented | PPC64 \<Rightarrow> asm from to count m)"

definition Copy_conjoint_jshorts_atomic :: "'v copier" where
  "Copy_conjoint_jshorts_atomic from to count m = Inl Unimplemented"
definition Copy_arrayof_conjoint_bytes :: "'v copier" where
  "Copy_arrayof_conjoint_bytes from to count m = Inl Unimplemented"
definition Copy_arrayof_conjoint_jshorts :: "'v copier" where
  "Copy_arrayof_conjoint_jshorts from to count m = Inl Unimplemented"
definition Copy_arrayof_conjoint_jints :: "'v copier" where
  "Copy_arrayof_conjoint_jints from to count m = Inl Unimplemented"
definition Copy_arrayof_conjoint_jlongs :: "'v copier" where
  "Copy_arrayof_conjoint_jlongs from to count m = Inl Unimplemented"

definition pd_conjoint_jshorts_atomic :: "'v copier" where
  "pd_conjoint_jshorts_atomic from to count = Copy_conjoint_jshorts_atomic from to count"

definition pd_conjoint_jints_atomic :: "arch \<Rightarrow> 'v copier \<Rightarrow> 'v copier" where
  "pd_conjoint_jints_atomic arch asm from to count = Copy_conjoint_jints_atomic arch asm from to count"

definition pd_conjoint_jlongs_atomic :: "arch \<Rightarrow> 'v copier \<Rightarrow> 'v copier" where
  "pd_conjoint_jlongs_atomic arch asm from to count = Copy_conjoint_jlongs_atomic arch asm from to count"

definition pd_conjoint_oops_atomic :: "arch \<Rightarrow> 'v copier \<Rightarrow> 'v copier" where
  "pd_conjoint_oops_atomic arch asm from to count = (case arch of
     PPC64 \<Rightarrow> Copy_conjoint_jlongs_atomic arch asm from to count
   | PPC32 \<Rightarrow> Copy_conjoint_jints_atomic arch asm from to count)"

definition pd_arrayof_conjoint_bytes :: "'v copier" where
  "pd_arrayof_conjoint_bytes from to count = Copy_arrayof_conjoint_bytes from to count"
definition pd_arrayof_conjoint_jshorts :: "'v copier" where
  "pd_arrayof_conjoint_jshorts from to count = Copy_arrayof_conjoint_jshorts from to count"
definition pd_arrayof_conjoint_jints :: "'v copier" where
  "pd_arrayof_conjoint_jints from to count = Copy_arrayof_conjoint_jints from to count"
definition pd_arrayof_conjoint_jlongs :: "'v copier" where
  "pd_arrayof_conjoint_jlongs from to count = Copy_arrayof_conjoint_jlongs from to count"

definition pd_arrayof_conjoint_oops :: "arch \<Rightarrow> 'v copier" where
  "pd_arrayof_conjoint_oops arch from to count = (case arch of
     PPC64 \<Rightarrow> Copy_arrayof_conjoint_jlongs from to count
   | PPC32 \<Rightarrow> Copy_arrayof_conjoint_jints from to count)"

section \<open>Filling\<close>

text \<open>The cells are words of the machine.\<close>

definition fill_value :: "arch \<Rightarrow> 32 word \<Rightarrow> 'w::len word" where
  "fill_value arch v = (case arch of PPC64 \<Rightarrow> push_bit 32 (ucast v) OR ucast v | PPC32 \<Rightarrow> ucast v)"

fun fill_up :: "int \<Rightarrow> nat \<Rightarrow> 'v \<Rightarrow> 'v cells \<Rightarrow> 'v cells" where
  "fill_up to 0 v m = m"
| "fill_up to (Suc k) v m = fill_up (to + 1) k v (m(to := v))"

definition pd_fill_to_words :: "arch \<Rightarrow> int \<Rightarrow> nat \<Rightarrow> 32 word \<Rightarrow> 'w::len word cells \<Rightarrow> 'w word cells" where
  "pd_fill_to_words arch to count v = fill_up to count (fill_value arch v)"

definition pd_fill_to_aligned_words :: "arch \<Rightarrow> int \<Rightarrow> nat \<Rightarrow> 32 word \<Rightarrow> 'w::len word cells \<Rightarrow> 'w word cells" where
  "pd_fill_to_aligned_words arch to count v = pd_fill_to_words arch to count v"

definition memset :: "'v cells \<Rightarrow> int \<Rightarrow> 'v \<Rightarrow> nat \<Rightarrow> 'v cells" where
  "memset m to v n = (\<lambda>a. if to \<le> a \<and> a < to + int n then v else m a)"

definition pd_fill_to_bytes :: "int \<Rightarrow> nat \<Rightarrow> 8 word \<Rightarrow> 8 word cells \<Rightarrow> 8 word cells" where
  "pd_fill_to_bytes to count v m = memset m to v count"

definition pd_zero_to_words :: "arch \<Rightarrow> int \<Rightarrow> nat \<Rightarrow> 'w::len word cells \<Rightarrow> 'w word cells" where
  "pd_zero_to_words arch to count = pd_fill_to_words arch to count 0"

definition pd_zero_to_bytes :: "int \<Rightarrow> nat \<Rightarrow> 8 word cells \<Rightarrow> 8 word cells" where
  "pd_zero_to_bytes to count m = memset m to 0 count"

section \<open>The loops\<close>

lemma copy_down_apply:
  assumes "f \<le> t \<or> t + int k \<le> f"
  shows "copy_down f t k m a = (if t \<le> a \<and> a < t + int k then m (f + (a - t)) else m a)"
  using assms
proof (induction k arbitrary: m)
  case (Suc k)
  then have "copy_down f t k (m(t + int k := m (f + int k))) a =
    (if t \<le> a \<and> a < t + int k then (m(t + int k := m (f + int k))) (f + (a - t))
     else (m(t + int k := m (f + int k))) a)" by auto
  then show ?case using Suc.prems by (auto simp: algebra_simps)
qed auto

lemma copy_up_apply:
  assumes "t \<le> f \<or> f + int k \<le> t"
  shows "copy_up f t k m a = (if t \<le> a \<and> a < t + int k then m (f + (a - t)) else m a)"
  using assms
proof (induction k arbitrary: f t m)
  case (Suc k)
  then have "copy_up (f + 1) (t + 1) k (m(t := m f)) a =
    (if t + 1 \<le> a \<and> a < t + 1 + int k then (m(t := m f)) (f + 1 + (a - (t + 1)))
     else (m(t := m f)) a)" by auto
  then show ?case using Suc.prems by (auto simp: algebra_simps)
qed auto

lemma fill_up_apply: "fill_up t k v m a = (if t \<le> a \<and> a < t + int k then v else m a)"
  by (induction k arbitrary: t m) auto

lemma disjoint_copies:
  assumes "disjoint_regions f t n"
  shows "copy_down f t n m = memmove m t f n" "copy_up f t n m = memmove m t f n"
proof -
  from assms consider "n = 0" | "f \<le> t \<or> t + int n \<le> f" "t \<le> f \<or> f + int n \<le> t"
    by (auto simp: disjoint_regions_def)
  then show "copy_down f t n m = memmove m t f n"
    by cases (auto simp: memmove_def copy_down_apply fun_eq_iff)
  from assms consider "n = 0" | "f \<le> t \<or> t + int n \<le> f" "t \<le> f \<or> f + int n \<le> t"
    by (auto simp: disjoint_regions_def)
  then show "copy_up f t n m = memmove m t f n"
    by cases (auto simp: memmove_def copy_up_apply fun_eq_iff)
qed

text \<open>
  What a copy has to do: the destination holds what the source held, everything else is kept.
\<close>

locale copy_routine =
  fixes copy :: "int \<Rightarrow> int \<Rightarrow> nat \<Rightarrow> 'v cells \<Rightarrow> 'v cells result"
    and allowed :: "int \<Rightarrow> int \<Rightarrow> nat \<Rightarrow> bool"
  assumes copies: "allowed from to n \<Longrightarrow> copy from to n m = Inr (memmove m to from n)"
begin

lemma source_arrives:
  assumes "allowed from to n"
  obtains m' where "copy from to n m = Inr m'" "\<And>i. 0 \<le> i \<Longrightarrow> i < int n \<Longrightarrow> m' (to + i) = m (from + i)"
    "\<And>a. a < to \<or> to + int n \<le> a \<Longrightarrow> m' a = m a"
proof
  show "copy from to n m = Inr (memmove m to from n)" by (rule copies [OF assms])
qed (auto simp: memmove_def)

end

interpretation conjoint_words: copy_routine "\<lambda>from to n m. Inr (pd_conjoint_words from to n m)" "\<lambda>from to n. True"
  by unfold_locales (simp add: pd_conjoint_words_def)

interpretation conjoint_bytes: copy_routine "\<lambda>from to n m. Inr (pd_conjoint_bytes from to n m)" "\<lambda>from to n. True"
  by unfold_locales (simp add: pd_conjoint_bytes_def)

interpretation disjoint_words: copy_routine pd_disjoint_words disjoint_regions
  by unfold_locales (simp add: pd_disjoint_words_def memcpy_def disjoint_copies)

interpretation disjoint_words_atomic:
  copy_routine "\<lambda>from to n m. Inr (pd_disjoint_words_atomic from to n m)" disjoint_regions
  by unfold_locales (simp add: pd_disjoint_words_atomic_def disjoint_copies)

section \<open>Properties\<close>

text \<open>C34. Copying words between regions that do not overlap, unrolled, by the loop or by the
  library, has the effect of \<^verbatim>\<open>memmove\<close>: the source arrives and nothing else changes.\<close>

theorem disjoint_copies_arrive:
  assumes "disjoint_regions src dst n"
  shows "\<exists>m'. pd_disjoint_words src dst n m = Inr m' \<and> pd_disjoint_words_atomic src dst n m = m' \<and>
    (\<forall>i. 0 \<le> i \<and> i < int n \<longrightarrow> m' (dst + i) = m (src + i)) \<and>
    (\<forall>a. a < dst \<or> dst + int n \<le> a \<longrightarrow> m' a = m a)"
proof (intro exI conjI)
  show "pd_disjoint_words src dst n m = Inr (memmove m dst src n)"
    by (rule disjoint_words.copies [OF assms])
  show "pd_disjoint_words_atomic src dst n m = memmove m dst src n"
    using disjoint_words_atomic.copies [OF assms, of m] by simp
qed (auto simp: memmove_def)

theorem disjoint_copies_arrive_witness:
  "\<exists>m'. pd_disjoint_words 0 100 9 (\<lambda>a. a) = Inr m' \<and> m' 105 = 5"
proof -
  have d: "disjoint_regions 0 100 9" by (simp add: disjoint_regions_def)
  obtain m' where "pd_disjoint_words 0 100 9 (\<lambda>a. a) = Inr m'" "\<forall>i. 0 \<le> i \<and> i < int 9 \<longrightarrow> m' (100 + i) = 0 + i"
    using disjoint_copies_arrive [OF d, of "\<lambda>a. a"] by auto
  then show ?thesis using spec [of "\<lambda>i. 0 \<le> i \<and> i < int 9 \<longrightarrow> m' (100 + i) = 0 + i" 5] by simp
qed

text \<open>Where the regions overlap the unrolled copy is still right when the destination is the
  higher one, and the loop when it is the lower one; with more than eight words the routine
  that calls \<^verbatim>\<open>memcpy\<close> is undefined.\<close>

theorem overlapping_copies:
  "(src \<le> dst \<and> n \<le> 8 \<longrightarrow> pd_disjoint_words src dst n m = Inr (memmove m dst src n)) \<and>
    (dst \<le> src \<and> 8 < n \<longrightarrow> pd_disjoint_words_atomic src dst n m = memmove m dst src n) \<and>
    (\<not> disjoint_regions src dst n \<and> 8 < n \<longrightarrow> pd_disjoint_words src dst n m = Inl UndefinedBehaviour)"
  by (auto simp: pd_disjoint_words_def pd_disjoint_words_atomic_def memcpy_def memmove_def
      copy_down_apply copy_up_apply)

theorem overlapping_copies_witness:
  "pd_disjoint_words 0 1 9 (\<lambda>a. a) = Inl UndefinedBehaviour \<and>
    pd_disjoint_words_atomic 1 0 9 (\<lambda>a. a) = memmove (\<lambda>a. a) 0 1 9"
  using overlapping_copies [of 0 1 9 "\<lambda>a. a"] overlapping_copies [of 1 0 9 "\<lambda>a. a"]
  by (simp add: disjoint_regions_def)

text \<open>Filling writes the value into each word of the region and no other; on the 64-bit
  flavour both halves of the word hold it.\<close>

theorem fill_writes_value:
  "pd_fill_to_words arch dst n v m a = (if dst \<le> a \<and> a < dst + int n then fill_value arch v else m a) \<and>
    ucast (fill_value PPC64 v :: 64 word) = v \<and> ucast (drop_bit 32 (fill_value PPC64 v :: 64 word)) = v \<and>
    pd_zero_to_words arch dst n m a = (if dst \<le> a \<and> a < dst + int n then 0 else m a)"
proof -
  have "ucast (fill_value PPC64 v :: 64 word) = v" "ucast (drop_bit 32 (fill_value PPC64 v :: 64 word)) = v"
    by (rule bit_word_eqI; auto simp: fill_value_def bit_simps dest: bit_imp_le_length)+
  then show ?thesis
    by (cases arch) (simp_all add: pd_fill_to_words_def pd_zero_to_words_def fill_up_apply fill_value_def)
qed

end
