(* ===== verification/CallingConvention.thy ===== *)
theory CallingConvention
  imports Registers
begin

text \<open>
  Where the arguments of a compiled Java method go: \<^verbatim>\<open>SharedRuntime::java_calling_convention\<close>
  (\<^verbatim>\<open>sharedRuntime_CPU.cpp\<close>). A signature is a list of basic types; the result gives a
  place for every element of it and the number of stack slots. \<^verbatim>\<open>VMRegImpl::stack2reg\<close>, which
  numbers the slots of the stack, is the argument \<open>stack2reg\<close>.
\<close>

datatype BasicType =
    T_BOOLEAN | T_CHAR | T_FLOAT | T_DOUBLE | T_BYTE | T_SHORT | T_INT | T_LONG
  | T_OBJECT | T_ARRAY | T_VOID | T_ADDRESS | T_CONFLICT | T_ILLEGAL

datatype VMRegPair = set1 VMReg | set2 VMReg | set_bad

definition int_arg_register :: "Register list" where
  "int_arg_register = [r3, r4, r5, r6, r7, r8, r9, r10]"

definition int_reg_max :: nat where "int_reg_max = 8"

definition fp_arg_register :: "arch \<Rightarrow> FloatRegister list" where
  "fp_arg_register arch = (case arch of
     PPC32 \<Rightarrow> [f1, f2, f3, f4, f5, f6, f7, f8]
   | PPC64 \<Rightarrow> [f1, f2, f3, f4, f5, f6, f7, f8, f9, f10, f11, f12, f13])"

definition fp_reg_max :: "arch \<Rightarrow> nat" where
  "fp_reg_max arch = (case arch of PPC32 \<Rightarrow> 8 | PPC64 \<Rightarrow> 13)"

definition slots_per_reg :: "arch \<Rightarrow> nat" where
  "slots_per_reg arch = nat (wordSize arch div 4)"

record conv =
  int_args :: nat
  fp_args :: nat
  stk_args :: nat

text \<open>Indexing the arrays of registers; an index out of range is undefined.\<close>

definition nth_int_arg :: "nat \<Rightarrow> VMReg result" where
  "nth_int_arg i = (if i < length int_arg_register then Register_as_VMReg (int_arg_register ! i)
     else Inl UndefinedBehaviour)"

definition nth_fp_arg :: "arch \<Rightarrow> nat \<Rightarrow> VMReg result" where
  "nth_fp_arg arch i = (if i < length (fp_arg_register arch) then FloatRegister_as_VMReg (fp_arg_register arch ! i)
     else Inl UndefinedBehaviour)"

definition one_reg :: "arch \<Rightarrow> (nat \<Rightarrow> VMReg) \<Rightarrow> conv \<Rightarrow> (VMRegPair \<times> conv) result" where
  "one_reg arch stack2reg st =
     (if int_args st < int_reg_max
      then bindR (nth_int_arg (int_args st)) (\<lambda>v. Inr (set1 v, st\<lparr>int_args := int_args st + 1\<rparr>))
      else let n = stk_args st + slots_per_reg arch in Inr (set1 (stack2reg n), st\<lparr>stk_args := n\<rparr>))"

definition one_long_64 :: "(nat \<Rightarrow> VMReg) \<Rightarrow> conv \<Rightarrow> (VMRegPair \<times> conv) result" where
  "one_long_64 stack2reg st =
     (if int_args st < int_reg_max
      then bindR (nth_int_arg (int_args st)) (\<lambda>v. Inr (set2 v, st\<lparr>int_args := int_args st + 1\<rparr>))
      else let n = stk_args st + 2 in Inr (set2 (stack2reg n), st\<lparr>stk_args := n\<rparr>))"

definition one_long_32 :: "(nat \<Rightarrow> VMReg) \<Rightarrow> conv \<Rightarrow> (VMRegPair \<times> conv) result" where
  "one_long_32 stack2reg st =
     (if int_args st < int_reg_max - 1
      then let i = (if odd (int_args st) then int_args st + 1 else int_args st) + 2
           in bindR (nth_int_arg i) (\<lambda>v. Inr (set2 v, st\<lparr>int_args := i\<rparr>))
      else let n = (if odd (stk_args st) then stk_args st + 1 else stk_args st) + 2
           in Inr (set2 (stack2reg n), st\<lparr>stk_args := n\<rparr>))"

definition one_float :: "arch \<Rightarrow> (nat \<Rightarrow> VMReg) \<Rightarrow> conv \<Rightarrow> (VMRegPair \<times> conv) result" where
  "one_float arch stack2reg st =
     (if fp_args st < fp_reg_max arch
      then bindR (nth_fp_arg arch (fp_args st)) (\<lambda>v. Inr (set1 v, st\<lparr>fp_args := fp_args st + 1\<rparr>))
      else let n = stk_args st + slots_per_reg arch in Inr (set1 (stack2reg n), st\<lparr>stk_args := n\<rparr>))"

definition one_double :: "arch \<Rightarrow> (nat \<Rightarrow> VMReg) \<Rightarrow> conv \<Rightarrow> (VMRegPair \<times> conv) result" where
  "one_double arch stack2reg st =
     (if fp_args st < fp_reg_max arch
      then bindR (nth_fp_arg arch (fp_args st)) (\<lambda>v. Inr (set2 v, st\<lparr>fp_args := fp_args st + 1\<rparr>))
      else let n = (if odd (stk_args st) then stk_args st + 1 else stk_args st) + 2
           in Inr (set2 (stack2reg n), st\<lparr>stk_args := n\<rparr>))"

text \<open>
  The body of the loop; \<open>prev\<close> and \<open>rest\<close> are the elements before and after the current
  one. Reading past the end of the signature is undefined.
\<close>

definition void_follows :: "BasicType list \<Rightarrow> 'a result \<Rightarrow> 'a result" where
  "void_follows rest r = (case rest of
     [] \<Rightarrow> Inl UndefinedBehaviour
   | t # _ \<Rightarrow> asserted (t = T_VOID) ''expecting void in other half'' r)"

definition convention_arg ::
  "arch \<Rightarrow> (nat \<Rightarrow> VMReg) \<Rightarrow> BasicType option \<Rightarrow> BasicType \<Rightarrow> BasicType list \<Rightarrow> conv \<Rightarrow> (VMRegPair \<times> conv) result" where
  "convention_arg arch stack2reg prev t rest st =
     (if t \<in> {T_BOOLEAN, T_CHAR, T_BYTE, T_SHORT, T_INT} then one_reg arch stack2reg st
      else if t \<in> {T_OBJECT, T_ARRAY, T_ADDRESS} then
        (case arch of PPC32 \<Rightarrow> one_reg arch stack2reg st | PPC64 \<Rightarrow> one_long_64 stack2reg st)
      else if t = T_LONG then
        void_follows rest (case arch of PPC32 \<Rightarrow> one_long_32 stack2reg st | PPC64 \<Rightarrow> one_long_64 stack2reg st)
      else if t = T_FLOAT then one_float arch stack2reg st
      else if t = T_DOUBLE then void_follows rest (one_double arch stack2reg st)
      else if t = T_VOID then
        asserted (prev = Some T_LONG \<or> prev = Some T_DOUBLE) ''expecting long or double in other half''
          (Inr (set_bad, st))
      else Inl ShouldNotReachHere)"

fun convention_loop ::
  "arch \<Rightarrow> (nat \<Rightarrow> VMReg) \<Rightarrow> BasicType option \<Rightarrow> BasicType list \<Rightarrow> conv \<Rightarrow> (VMRegPair list \<times> conv) result" where
  "convention_loop arch stack2reg prev [] st = Inr ([], st)"
| "convention_loop arch stack2reg prev (t # rest) st =
     bindR (convention_arg arch stack2reg prev t rest st) (\<lambda>(p, st).
     bindR (convention_loop arch stack2reg (Some t) rest st) (\<lambda>(ps, st). Inr (p # ps, st)))"

definition java_calling_convention ::
  "arch \<Rightarrow> (nat \<Rightarrow> VMReg) \<Rightarrow> BasicType list \<Rightarrow> (VMRegPair list \<times> nat) result" where
  "java_calling_convention arch stack2reg sig_bt =
     bindR (convention_loop arch stack2reg None sig_bt \<lparr>int_args = 0, fp_args = 0, stk_args = 0\<rparr>)
       (\<lambda>(regs, st). Inr (regs, stk_args st))"

section \<open>Places\<close>

text \<open>A signature the caller may pass: the halves of longs and doubles are in place.\<close>

fun well_formed :: "BasicType option \<Rightarrow> BasicType list \<Rightarrow> bool" where
  "well_formed prev [] \<longleftrightarrow> prev \<noteq> Some T_LONG \<and> prev \<noteq> Some T_DOUBLE"
| "well_formed prev (t # ts) \<longleftrightarrow>
     t \<notin> {T_CONFLICT, T_ILLEGAL} \<and> (t = T_VOID \<longleftrightarrow> prev = Some T_LONG \<or> prev = Some T_DOUBLE) \<and>
     well_formed (Some t) ts"

definition stack_numbering :: "(nat \<Rightarrow> VMReg) \<Rightarrow> nat \<Rightarrow> bool" where
  "stack_numbering stack2reg n \<longleftrightarrow> inj_on stack2reg {..n} \<and>
     (\<forall>k\<le>n. \<not> VMReg_is_Register (stack2reg k) \<and> \<not> VMReg_is_FloatRegister (stack2reg k))"

definition places :: "VMRegPair list \<Rightarrow> VMReg list" where
  "places ps = concat (map (\<lambda>p. case p of set1 v \<Rightarrow> [v] | set2 v \<Rightarrow> [v] | set_bad \<Rightarrow> []) ps)"

lemma nth_int_arg_eq: "i < 8 \<Longrightarrow> nth_int_arg i = Inr (VMReg (word_of_nat (3 + i)))"
proof -
  have "list_all (\<lambda>i. nth_int_arg i = Inr (VMReg (word_of_nat (3 + i)))) [0..<8]" by code_simp
  then show "i < 8 \<Longrightarrow> ?thesis" by (simp add: list_all_iff)
qed

lemma nth_fp_arg_eq: "i < fp_reg_max arch \<Longrightarrow> nth_fp_arg arch i = Inr (VMReg (word_of_nat (33 + i)))"
proof -
  have "list_all (\<lambda>i. nth_fp_arg PPC32 i = Inr (VMReg (word_of_nat (33 + i)))) [0..<8]"
    "list_all (\<lambda>i. nth_fp_arg PPC64 i = Inr (VMReg (word_of_nat (33 + i)))) [0..<13]" by code_simp+
  then show "i < fp_reg_max arch \<Longrightarrow> ?thesis" by (cases arch) (simp_all add: list_all_iff fp_reg_max_def)
qed

definition int_place :: "nat \<Rightarrow> VMReg" where "int_place i = VMReg (word_of_nat (3 + i))"
definition fp_place :: "nat \<Rightarrow> VMReg" where "fp_place i = VMReg (word_of_nat (33 + i))"

lemma places_apart:
  "inj_on int_place {..<8}" "inj_on fp_place {..<13}"
  "i < 8 \<Longrightarrow> VMReg_is_Register (int_place i) \<and> \<not> VMReg_is_FloatRegister (int_place i)"
  "i < 13 \<Longrightarrow> VMReg_is_FloatRegister (fp_place i) \<and> \<not> VMReg_is_Register (fp_place i)"
proof -
  have "distinct (map int_place [0..<8])" "distinct (map fp_place [0..<13])"
    "list_all (\<lambda>i. VMReg_is_Register (int_place i) \<and> \<not> VMReg_is_FloatRegister (int_place i)) [0..<8]"
    "list_all (\<lambda>i. VMReg_is_FloatRegister (fp_place i) \<and> \<not> VMReg_is_Register (fp_place i)) [0..<13]"
    by code_simp+
  note c = this
  show "inj_on int_place {..<8}" "inj_on fp_place {..<13}"
    using c(1,2) by (simp_all add: distinct_map atLeast0LessThan)
  show "VMReg_is_Register (int_place i) \<and> \<not> VMReg_is_FloatRegister (int_place i)" if "i < 8"
    using c(3) that by (simp add: list_all_iff)
  show "VMReg_is_FloatRegister (fp_place i) \<and> \<not> VMReg_is_Register (fp_place i)" if "i < 13"
    using c(4) that by (simp add: list_all_iff)
qed

text \<open>The places that are still free.\<close>

definition free_places :: "arch \<Rightarrow> (nat \<Rightarrow> VMReg) \<Rightarrow> nat \<Rightarrow> conv \<Rightarrow> VMReg set" where
  "free_places arch stack2reg n st =
     int_place ` {int_args st..<8} \<union> fp_place ` {fp_args st..<fp_reg_max arch} \<union>
     stack2reg ` {stk_args st<..n}"

lemma fp_reg_max_le: "fp_reg_max arch \<le> 13"
  by (cases arch) (simp_all add: fp_reg_max_def)

lemma take_int:
  assumes "stack_numbering s n" "i = int_args st" "i < 8"
  shows "int_place i \<in> free_places arch s n st" "int_place i \<notin> free_places arch s n (st\<lparr>int_args := Suc i\<rparr>)"
    "free_places arch s n (st\<lparr>int_args := Suc i\<rparr>) \<subseteq> free_places arch s n st"
proof -
  show "int_place i \<in> free_places arch s n st" using assms by (simp add: free_places_def)
  have "int_place i \<noteq> int_place j" if "Suc i \<le> j" "j < 8" for j
    using inj_onD [OF places_apart(1), of i j] that assms(3) by auto
  moreover have "int_place i \<noteq> fp_place j" if "j < fp_reg_max arch" for j
    using places_apart(3) [OF assms(3)] places_apart(4) [of j] that fp_reg_max_le [of arch] by auto
  moreover have "int_place i \<noteq> s k" if "k \<le> n" for k
    using places_apart(3) [OF assms(3)] assms(1) that by (auto simp: stack_numbering_def)
  ultimately show "int_place i \<notin> free_places arch s n (st\<lparr>int_args := Suc i\<rparr>)"
    by (simp add: free_places_def image_iff)
  show "free_places arch s n (st\<lparr>int_args := Suc i\<rparr>) \<subseteq> free_places arch s n st"
    using assms(2) by (auto simp: free_places_def)
qed

lemma take_fp:
  assumes "stack_numbering s n" "i = fp_args st" "i < fp_reg_max arch"
  shows "fp_place i \<in> free_places arch s n st" "fp_place i \<notin> free_places arch s n (st\<lparr>fp_args := Suc i\<rparr>)"
    "free_places arch s n (st\<lparr>fp_args := Suc i\<rparr>) \<subseteq> free_places arch s n st"
proof -
  have i: "i < 13" using assms(3) fp_reg_max_le [of arch] by simp
  show "fp_place i \<in> free_places arch s n st" using assms by (simp add: free_places_def)
  have "fp_place i \<noteq> fp_place j" if "Suc i \<le> j" "j < fp_reg_max arch" for j
    using inj_onD [OF places_apart(2), of i j] that i fp_reg_max_le [of arch] by auto
  moreover have "fp_place i \<noteq> int_place j" if "j < 8" for j
    using places_apart(3) [OF that] places_apart(4) [OF i] by auto
  moreover have "fp_place i \<noteq> s k" if "k \<le> n" for k
    using places_apart(4) [OF i] assms(1) that by (auto simp: stack_numbering_def)
  ultimately show "fp_place i \<notin> free_places arch s n (st\<lparr>fp_args := Suc i\<rparr>)"
    by (simp add: free_places_def image_iff)
  show "free_places arch s n (st\<lparr>fp_args := Suc i\<rparr>) \<subseteq> free_places arch s n st"
    using assms(2) by (auto simp: free_places_def)
qed

lemma take_stack:
  assumes "stack_numbering s n" "stk_args st < k" "k \<le> n"
  shows "s k \<in> free_places arch s n st" "s k \<notin> free_places arch s n (st\<lparr>stk_args := k\<rparr>)"
    "free_places arch s n (st\<lparr>stk_args := k\<rparr>) \<subseteq> free_places arch s n st"
proof -
  show "s k \<in> free_places arch s n st" using assms by (simp add: free_places_def)
  have "s k \<noteq> s j" if "k < j" "j \<le> n" for j
    using assms that by (auto simp: stack_numbering_def dest: inj_onD)
  moreover have "s k \<noteq> int_place j" if "j < 8" for j
    using places_apart(3) [OF that] assms(1,3) by (auto simp: stack_numbering_def)
  moreover have "s k \<noteq> fp_place j" if "j < fp_reg_max arch" for j
    using places_apart(4) [of j] that fp_reg_max_le [of arch] assms(1,3) by (auto simp: stack_numbering_def)
  ultimately show "s k \<notin> free_places arch s n (st\<lparr>stk_args := k\<rparr>)"
    by (simp add: free_places_def image_iff)
  show "free_places arch s n (st\<lparr>stk_args := k\<rparr>) \<subseteq> free_places arch s n st"
    using assms(2) by (auto simp: free_places_def)
qed

text \<open>One step takes a free place and leaves the others.\<close>

definition takes :: "arch \<Rightarrow> (nat \<Rightarrow> VMReg) \<Rightarrow> nat \<Rightarrow> conv \<Rightarrow> VMRegPair \<times> conv \<Rightarrow> bool" where
  "takes arch s n st q \<longleftrightarrow> (case q of (p, st') \<Rightarrow>
     set (places [p]) \<subseteq> free_places arch s n st - free_places arch s n st' \<and>
     free_places arch s n st' \<subseteq> free_places arch s n st \<and> stk_args st \<le> stk_args st' \<and> stk_args st' \<le> stk_args st + 3)"

lemma places_simps [simp]:
  "places [] = []" "places (p # ps) = (case p of set1 v \<Rightarrow> [v] | set2 v \<Rightarrow> [v] | set_bad \<Rightarrow> []) @ places ps"
  by (simp_all add: places_def)

lemma one_takes:
  assumes s: "stack_numbering s n" and b: "stk_args st + 3 \<le> n"
  shows "\<exists>q. one_reg arch s st = Inr q \<and> takes arch s n st q"
    "\<exists>q. one_long_64 s st = Inr q \<and> takes arch s n st q"
    "\<exists>q. one_float arch s st = Inr q \<and> takes arch s n st q"
    "\<exists>q. one_double arch s st = Inr q \<and> takes arch s n st q"
proof -
  have sl: "0 < slots_per_reg arch" "slots_per_reg arch \<le> 2"
    by (cases arch; simp add: slots_per_reg_def)+
  note i = take_int [OF s refl, of st arch] nth_int_arg_eq [of "int_args st", folded int_place_def]
  note f = take_fp [OF s refl, of st arch] nth_fp_arg_eq [of "fp_args st" arch, folded fp_place_def]
  note k = take_stack [OF s, of st _ arch]
  show "\<exists>q. one_reg arch s st = Inr q \<and> takes arch s n st q"
    using i k [of "stk_args st + slots_per_reg arch"] sl b
    by (auto simp: one_reg_def takes_def int_reg_max_def Let_def)
  show "\<exists>q. one_long_64 s st = Inr q \<and> takes arch s n st q"
    using i k [of "stk_args st + 2"] b
    by (auto simp: one_long_64_def takes_def int_reg_max_def Let_def)
  show "\<exists>q. one_float arch s st = Inr q \<and> takes arch s n st q"
    using f k [of "stk_args st + slots_per_reg arch"] sl b
    by (auto simp: one_float_def takes_def Let_def)
  show "\<exists>q. one_double arch s st = Inr q \<and> takes arch s n st q"
    using f k [of "stk_args st + 2"] k [of "stk_args st + 3"] b
    by (auto simp: one_double_def takes_def Let_def numeral_3_eq_3)
qed

lemma convention_arg_takes:
  assumes s: "stack_numbering s n" and b: "stk_args st + 3 \<le> n"
    and w: "well_formed prev (t # rest)" and a: "arch = PPC64 \<or> t \<noteq> T_LONG"
  shows "\<exists>q. convention_arg arch s prev t rest st = Inr q \<and> takes arch s n st q"
proof -
  have v: "void_follows rest r = r" if "t = T_LONG \<or> t = T_DOUBLE" for r :: "(VMRegPair \<times> conv) result"
    using w that by (cases rest) (auto simp: void_follows_def)
  note one = one_takes [OF s b, of arch]
  show ?thesis
    using w a one v by (cases t; cases arch) (auto simp: convention_arg_def takes_def)
qed

lemma convention_loop_places:
  assumes "stack_numbering s n" "well_formed prev ts" "arch = PPC64 \<or> T_LONG \<notin> set ts"
    "stk_args st + 3 * length ts \<le> n"
  shows "\<exists>ps st'. convention_loop arch s prev ts st = Inr (ps, st') \<and> length ps = length ts \<and>
    distinct (places ps) \<and> set (places ps) \<subseteq> free_places arch s n st \<and>
    stk_args st' \<le> stk_args st + 3 * length ts"
  using assms
proof (induction ts arbitrary: prev st)
  case (Cons t ts)
  obtain p st1 where q: "convention_arg arch s prev t ts st = Inr (p, st1)" "takes arch s n st (p, st1)"
    using convention_arg_takes [OF Cons.prems(1) _ Cons.prems(2), of st arch] Cons.prems(3,4) by auto
  then have t: "set (places [p]) \<subseteq> free_places arch s n st - free_places arch s n st1"
    "free_places arch s n st1 \<subseteq> free_places arch s n st" "stk_args st1 \<le> stk_args st + 3"
    by (simp_all add: takes_def)
  obtain ps st' where r: "convention_loop arch s (Some t) ts st1 = Inr (ps, st')" "length ps = length ts"
    "distinct (places ps)" "set (places ps) \<subseteq> free_places arch s n st1"
    "stk_args st' \<le> stk_args st1 + 3 * length ts"
    using Cons.IH [of "Some t" st1] Cons.prems t(3) by auto
  have "distinct (places [p])" by (cases p) simp_all
  then have "distinct (places (p # ps))" using r(3,4) t(1) by auto
  moreover have "set (places (p # ps)) \<subseteq> free_places arch s n st" using r(4) t(1,2) by auto
  ultimately show ?case using q(1) r t(3) by simp
qed simp

section \<open>Properties\<close>


definition slot_after_registers :: "nat \<Rightarrow> VMReg" where
  "slot_after_registers k = VMReg (word_of_nat (64 + k))"



text \<open>C1. Stack slots are numbered from the size after the argument instead of before it: the
  last argument's slot is the one numbered by the size returned, outside the area of that
  size; and after a double, which takes the slots \<open>2\<close> and \<open>3\<close>, the next word is put into
  slot \<open>3\<close>.\<close>

theorem stack_slots_misnumbered:
  "java_calling_convention arch stack2reg (replicate 8 T_INT @ [T_OBJECT]) =
     (case arch of
        PPC64 \<Rightarrow> Inr (map (\<lambda>i. set1 (int_place i)) [0..<8] @ [set2 (stack2reg 2)], 2)
      | PPC32 \<Rightarrow> Inr (map (\<lambda>i. set1 (int_place i)) [0..<8] @ [set1 (stack2reg 1)], 1)) \<and>
    java_calling_convention PPC32 stack2reg (replicate 8 T_FLOAT @ [T_DOUBLE, T_VOID, T_FLOAT]) =
      Inr (map (\<lambda>i. set1 (fp_place i)) [0..<8] @ [set2 (stack2reg 2), set_bad, set1 (stack2reg 3)], 3)"
proof -
  have r: "replicate 8 t = [t, t, t, t, t, t, t, t]" for t :: BasicType by (simp add: numeral_eq_Suc)
  have u: "[0..<8] = [0, 1, 2, 3, 4, 5, 6, 7]" by (simp add: upt_rec)
  have e: "i < 8 \<Longrightarrow> nth_int_arg i = Inr (int_place i)" "i < 8 \<Longrightarrow> nth_fp_arg PPC32 i = Inr (fp_place i)" for i
    using nth_int_arg_eq [of i] nth_fp_arg_eq [of i PPC32] by (simp_all add: int_place_def fp_place_def fp_reg_max_def)
  show ?thesis unfolding r u
    by (cases arch) (simp_all add: java_calling_convention_def convention_arg_def one_reg_def one_long_64_def
        one_float_def one_double_def void_follows_def e int_reg_max_def fp_reg_max_def slots_per_reg_def Let_def numeral_eq_Suc)
qed

end
