(* ===== verification/SignatureHandlers.thy ===== *)
theory SignatureHandlers
  imports VMCalls CallingConvention BytesAccess
begin

text \<open>
  The handlers that pass the arguments of a native method (\<^verbatim>\<open>interpreterRT_CPU.hpp\<close>,
  \<^verbatim>\<open>interpreterRT_CPU.cpp\<close>): \<^verbatim>\<open>SignatureHandlerGenerator\<close> emits code that moves them from
  the interpreter's locals to registers and stack, \<^verbatim>\<open>SlowSignatureHandler\<close> moves them itself
  into images of the registers and of the stack. The class \<^verbatim>\<open>NativeSignatureIterator\<close> calls
  \<^verbatim>\<open>pass_int\<close> and so on for each parameter; the calls, each with the \<^verbatim>\<open>offset()\<close> at the time, are
  the argument \<open>calls\<close>, and \<^verbatim>\<open>Interpreter::local_offset_in_bytes\<close> is the argument \<open>ofs\<close>.
\<close>

datatype jarg = J_INT | J_LONG | J_FLOAT | J_DOUBLE | J_OBJECT

definition gp_reg_start :: nat where "gp_reg_start = 4"
definition gp_reg_max :: nat where "gp_reg_max = 10"
definition fp_reg_start :: nat where "fp_reg_start = 1"
definition native_fp_reg_max :: "arch \<Rightarrow> nat" where
  "native_fp_reg_max arch = (case arch of PPC32 \<Rightarrow> 8 | PPC64 \<Rightarrow> 13)"

section \<open>The generator\<close>

record StackArgument =
  src_offset :: int
  dst_offset :: int
  arg_type :: BasicType

record generator =
  gen_gp_reg :: nat
  gen_fp_reg :: nat
  gen_st_arg :: nat
  gen_st_args :: "StackArgument list"

definition new_SignatureHandlerGenerator :: "arch \<Rightarrow> bool \<Rightarrow> generator" where
  "new_SignatureHandlerGenerator arch is_static =
     \<lparr>gen_gp_reg = (if is_static then gp_reg_start + 1 else gp_reg_start),
      gen_fp_reg = fp_reg_start,
      gen_st_arg = (case arch of PPC32 \<Rightarrow> 0 | PPC64 \<Rightarrow> if is_static then 2 else 1),
      gen_st_args = []\<rparr>"

definition wide_arg :: "BasicType \<Rightarrow> bool" where
  "wide_arg t \<longleftrightarrow> t = T_LONG \<or> t = T_FLOAT \<or> t = T_DOUBLE"

definition pass_on_stack :: "arch \<Rightarrow> Address result \<Rightarrow> BasicType \<Rightarrow> generator \<Rightarrow> generator result" where
  "pass_on_stack arch src t g =
     bindR src (\<lambda>src.
       let st = gen_st_arg g;
           st = (if arch = PPC32 \<and> odd st \<and> wide_arg t then st + 1 else st)
       in asserted (Address_base src = Rlocals) ''what?''
         (Inr (g\<lparr>gen_st_args := gen_st_args g @
             [\<lparr>src_offset = uint (Address_displacement src),
               dst_offset = (link_area_words arch + int st) * wordSize arch, arg_type = t\<rparr>],
           gen_st_arg := (if arch = PPC32 \<and> wide_arg t then st + 2 else st + 1)\<rparr>)))"

text \<open>The slots of the parameter area are counted for the arguments in registers, too, on PPC64.\<close>

definition count_slot :: "arch \<Rightarrow> generator \<Rightarrow> generator" where
  "count_slot arch g = (case arch of PPC32 \<Rightarrow> g | PPC64 \<Rightarrow> g\<lparr>gen_st_arg := gen_st_arg g + 1\<rparr>)"

type_synonym 'a generating = "generator \<times> 'a asm \<Rightarrow> (generator \<times> 'a asm) result"

definition emitting :: "'a emitter \<Rightarrow> generator \<Rightarrow> 'a asm \<Rightarrow> (generator \<times> 'a asm) result" where
  "emitting e g s = bindR (e s) (\<lambda>s. Inr (g, s))"

definition gen_pass_int :: "arch \<Rightarrow> (int \<Rightarrow> int) \<Rightarrow> int \<Rightarrow> 'a generating" where
  "gen_pass_int arch ofs n = (\<lambda>(g, s).
     let src = mk_Address Rlocals (ofs n)
     in if gen_gp_reg g \<le> gp_reg_max
        then emitting (masm_lwa arch (as_Register (word_of_nat (gen_gp_reg g))) src)
               (count_slot arch (g\<lparr>gen_gp_reg := gen_gp_reg g + 1\<rparr>)) s
        else bindR (pass_on_stack arch src T_INT g) (\<lambda>g. Inr (g, s)))"

definition gen_pass_long :: "arch \<Rightarrow> (int \<Rightarrow> int) \<Rightarrow> int \<Rightarrow> 'a generating" where
  "gen_pass_long arch ofs n = (\<lambda>(g, s). case arch of
     PPC32 \<Rightarrow>
       let srch = mk_Address Rlocals (ofs n); srcl = mk_Address Rlocals (ofs (n + 1))
       in if gen_gp_reg g < gp_reg_max
          then let r = (if even (gen_gp_reg g) then gen_gp_reg g + 1 else gen_gp_reg g)
               in emitting (seqR [asm_lwz (as_Register (word_of_nat r)) srcl,
                                  asm_lwz (as_Register (word_of_nat (r + 1))) srch])
                    (g\<lparr>gen_gp_reg := r + 2\<rparr>) s
          else bindR (pass_on_stack arch srcl T_LONG g) (\<lambda>g. Inr (g, s))
   | PPC64 \<Rightarrow>
       let src = mk_Address Rlocals (ofs (n + 1))
       in if gen_gp_reg g \<le> gp_reg_max
          then emitting (asm_ld (as_Register (word_of_nat (gen_gp_reg g))) src)
                 (g\<lparr>gen_gp_reg := gen_gp_reg g + 1, gen_st_arg := gen_st_arg g + 1\<rparr>) s
          else bindR (pass_on_stack arch src T_LONG g) (\<lambda>g. Inr (g, s)))"

definition gen_pass_float :: "arch \<Rightarrow> (int \<Rightarrow> int) \<Rightarrow> int \<Rightarrow> 'a generating" where
  "gen_pass_float arch ofs n = (\<lambda>(g, s).
     let src = mk_Address Rlocals (ofs n)
     in if gen_fp_reg g \<le> native_fp_reg_max arch
        then emitting (asm_lfs (as_FloatRegister (word_of_nat (gen_fp_reg g))) src)
               (count_slot arch (g\<lparr>gen_fp_reg := gen_fp_reg g + 1\<rparr>)) s
        else bindR (pass_on_stack arch src T_FLOAT g) (\<lambda>g. Inr (g, s)))"

definition gen_pass_double :: "arch \<Rightarrow> (int \<Rightarrow> int) \<Rightarrow> int \<Rightarrow> 'a generating" where
  "gen_pass_double arch ofs n = (\<lambda>(g, s).
     let src = mk_Address Rlocals (ofs (n + 1))
     in if gen_fp_reg g \<le> native_fp_reg_max arch
        then emitting (asm_lfd (as_FloatRegister (word_of_nat (gen_fp_reg g))) src)
               (count_slot arch (g\<lparr>gen_fp_reg := gen_fp_reg g + 1\<rparr>)) s
        else bindR (pass_on_stack arch src T_DOUBLE g) (\<lambda>g. Inr (g, s)))"

text \<open>A reference is passed as the address of the local that holds it, or null.\<close>

definition load_handle :: "arch \<Rightarrow> Register \<Rightarrow> Address result \<Rightarrow> 'w::len word emitter" where
  "load_handle arch dst src = with_label (\<lambda>null. seqR [
     masm_load_A arch dst src,
     masm_compare_i arch dst 0,
     asm_beq null,
     asm_la dst src,
     asm_bind null])"

definition gen_pass_object :: "arch \<Rightarrow> (int \<Rightarrow> int) \<Rightarrow> int \<Rightarrow> 'w::len word generating" where
  "gen_pass_object arch ofs n = (\<lambda>(g, s).
     let src = mk_Address Rlocals (ofs n)
     in if gen_gp_reg g \<le> gp_reg_max
        then emitting (load_handle arch (as_Register (word_of_nat (gen_gp_reg g))) src)
               (count_slot arch (g\<lparr>gen_gp_reg := gen_gp_reg g + 1\<rparr>)) s
        else bindR (pass_on_stack arch src T_OBJECT g) (\<lambda>g. Inr (g, s)))"

definition StackArgument_pass :: "arch \<Rightarrow> StackArgument \<Rightarrow> 'w::len word emitter" where
  "StackArgument_pass arch a =
     (let src = mk_Address Rlocals (src_offset a); dst = mk_Address r1 (dst_offset a)
      in case arg_type a of
           T_INT \<Rightarrow> seqR [masm_lwa arch r0 src, masm_store arch r0 dst]
         | T_LONG \<Rightarrow> (case arch of
             PPC32 \<Rightarrow> seqR [asm_lwz r0 src, asm_stw r0 dst,
               asm_lwz r0 (mk_Address Rlocals (src_offset a + wordSize arch)),
               asm_stw r0 (mk_Address r1 (dst_offset a + wordSize arch))]
           | PPC64 \<Rightarrow> seqR [asm_ld r0 src, asm_std r0 dst])
         | T_FLOAT \<Rightarrow> (case arch of
             PPC32 \<Rightarrow> seqR [asm_lfs f0 src, asm_stfd f0 dst]
           | PPC64 \<Rightarrow> seqR [asm_lwz r0 src, asm_stw r0 (mk_Address r1 (dst_offset a + wordSize arch))])
         | T_DOUBLE \<Rightarrow> seqR [asm_lfd f0 src, asm_stfd f0 dst]
         | T_OBJECT \<Rightarrow> with_label (\<lambda>null. seqR [
             masm_load_A arch r0 src,
             masm_compare_i arch r0 0,
             asm_beq null,
             asm_la r0 src,
             asm_bind null,
             masm_store arch r0 dst])
         | _ \<Rightarrow> (\<lambda>s. Inl ShouldNotReachHere))"

definition gen_call :: "arch \<Rightarrow> (int \<Rightarrow> int) \<Rightarrow> jarg \<times> int \<Rightarrow> 'w::len word generating" where
  "gen_call arch ofs = (\<lambda>(a, n). case a of
     J_INT \<Rightarrow> gen_pass_int arch ofs n
   | J_LONG \<Rightarrow> gen_pass_long arch ofs n
   | J_FLOAT \<Rightarrow> gen_pass_float arch ofs n
   | J_DOUBLE \<Rightarrow> gen_pass_double arch ofs n
   | J_OBJECT \<Rightarrow> gen_pass_object arch ofs n)"

fun gen_iterate :: "arch \<Rightarrow> (int \<Rightarrow> int) \<Rightarrow> (jarg \<times> int) list \<Rightarrow> 'w::len word generating" where
  "gen_iterate arch ofs [] gs = Inr gs"
| "gen_iterate arch ofs (c # cs) gs = bindR (gen_call arch ofs c gs) (gen_iterate arch ofs cs)"

text \<open>
  \<open>generate\<close>: \<open>stack_limit_offset\<close> is the offset of a field of the interpreter's state,
  \<open>result_handler\<close> the address of the routine for the type of the result.
\<close>

definition Rstate :: Register where "Rstate = r28"

definition generate_handler ::
  "arch \<Rightarrow> (int \<Rightarrow> int) \<Rightarrow> int \<Rightarrow> int \<Rightarrow> bool \<Rightarrow> (jarg \<times> int) list \<Rightarrow> 'w::len word emitter" where
  "generate_handler arch ofs stack_limit_offset result_handler is_static calls s =
     bindR (gen_iterate arch ofs calls (new_SignatureHandlerGenerator arch is_static, s)) (\<lambda>(g, s).
       let required_bytes = r11; available_bytes = r12
       in seqR [
         whenR (min_params arch < int (gen_st_arg g)) ([
           masm_load arch required_bytes (int (gen_st_arg g) * wordSize arch),
           masm_load_A arch available_bytes (mk_Address Rstate stack_limit_offset),
           asm_addi available_bytes available_bytes (word_of_int ((1 - link_area_words arch) * wordSize arch)),
           asm_sub available_bytes available_bytes r1,
           masm_maybe_extend_frame arch required_bytes available_bytes] @
           map (StackArgument_pass arch) (gen_st_args g)),
         masm_load arch r0 result_handler,
         asm_blr] s)"

section \<open>The slow handler\<close>

text \<open>
  The machine is big-endian; \<open>from\<close>, the pointers and the registers are addresses of memory.
\<close>

record 'p slow_handler =
  slow_from :: 'p
  slow_gp_regs :: 'p
  slow_fp_regs :: 'p
  slow_st_args :: 'p
  slow_gp_reg_max :: 'p
  slow_fp_reg_max :: 'p

definition words :: "arch \<Rightarrow> int \<Rightarrow> 'w::len word" where
  "words arch n = word_of_int (n * wordSize arch)"

definition new_SlowSignatureHandler ::
  "arch \<Rightarrow> bool \<Rightarrow> 'w::len word \<Rightarrow> 'w word \<Rightarrow> 'w word \<Rightarrow> 'w word \<Rightarrow> 'w word slow_handler" where
  "new_SlowSignatureHandler arch is_static from gp_regs fp_regs st_args =
     \<lparr>slow_from = from,
      slow_gp_regs = (if is_static then gp_regs + words arch 1 else gp_regs),
      slow_fp_regs = fp_regs,
      slow_st_args = (case arch of PPC32 \<Rightarrow> st_args
        | PPC64 \<Rightarrow> st_args + (if is_static then words arch 2 else words arch 1)),
      slow_gp_reg_max = gp_regs + words arch (int gp_reg_max - int gp_reg_start),
      slow_fp_reg_max = fp_regs + word_of_int ((int (native_fp_reg_max arch) - int fp_reg_start) * 8)\<rparr>"

definition load_intptr :: "arch \<Rightarrow> 'w::len mem \<Rightarrow> 'w word \<Rightarrow> 'w word" where
  "load_intptr arch m p = (case arch of PPC32 \<Rightarrow> ucast (load_u4 False m p) | PPC64 \<Rightarrow> ucast (load_u8 False m p))"

definition store_intptr :: "arch \<Rightarrow> 'w::len mem \<Rightarrow> 'w word \<Rightarrow> 'w word \<Rightarrow> 'w mem" where
  "store_intptr arch m p x = (case arch of PPC32 \<Rightarrow> store_u4 False m p (ucast x) | PPC64 \<Rightarrow> store_u8 False m p (ucast x))"

type_synonym 'w slow_state = "'w word slow_handler \<times> 'w mem"

text \<open>\<^verbatim>\<open>*_gp_regs++ = x\<close> and \<^verbatim>\<open>*_st_args++ = x\<close>, for a write of the given width.\<close>

definition slow_to_gp ::
  "arch \<Rightarrow> ('w::len mem \<Rightarrow> 'w word \<Rightarrow> 'w mem) \<Rightarrow> 'w slow_state \<Rightarrow> 'w slow_state" where
  "slow_to_gp arch write = (\<lambda>(h, m).
     (h\<lparr>slow_gp_regs := slow_gp_regs h + words arch 1\<rparr>, write m (slow_gp_regs h)))"

definition slow_to_st ::
  "arch \<Rightarrow> ('w::len mem \<Rightarrow> 'w word \<Rightarrow> 'w mem) \<Rightarrow> 'w slow_state \<Rightarrow> 'w slow_state" where
  "slow_to_st arch write = (\<lambda>(h, m).
     (h\<lparr>slow_st_args := slow_st_args h + words arch 1\<rparr>, write m (slow_st_args h)))"

definition slow_skip_slot :: "arch \<Rightarrow> 'w::len slow_state \<Rightarrow> 'w slow_state" where
  "slow_skip_slot arch = (\<lambda>(h, m). case arch of PPC32 \<Rightarrow> (h, m)
     | PPC64 \<Rightarrow> (h\<lparr>slow_st_args := slow_st_args h + words arch 1\<rparr>, m))"

definition slow_pass_int :: "arch \<Rightarrow> (int \<Rightarrow> int) \<Rightarrow> int \<Rightarrow> 'w::len slow_state \<Rightarrow> 'w slow_state result" where
  "slow_pass_int arch ofs n = (\<lambda>(h, m).
     let src = load_u4 False m (slow_from h + word_of_int (ofs n));
         write = (\<lambda>m p. store_u4 False m p src)
     in Inr (if slow_gp_regs h \<le> slow_gp_reg_max h then slow_skip_slot arch (slow_to_gp arch write (h, m))
             else slow_to_st arch write (h, m)))"

definition slow_pass_long :: "arch \<Rightarrow> (int \<Rightarrow> int) \<Rightarrow> int \<Rightarrow> 'w::len slow_state \<Rightarrow> 'w slow_state result" where
  "slow_pass_long arch ofs n = (\<lambda>(h, m). case arch of
     PPC32 \<Rightarrow>
       let srch = load_intptr arch m (slow_from h + word_of_int (ofs n));
           srcl = load_intptr arch m (slow_from h + word_of_int (ofs (n + 1)));
           write = (\<lambda>x m p. store_intptr arch m p x)
       in Inr (if slow_gp_regs h < slow_gp_reg_max h then
                 let h = (if even (sint (slow_gp_reg_max h - slow_gp_regs h) div wordSize arch)
                          then h\<lparr>slow_gp_regs := slow_gp_regs h + words arch 1\<rparr> else h)
                 in slow_to_gp arch (write srch) (slow_to_gp arch (write srcl) (h, m))
               else slow_to_st arch (write srch) (slow_to_st arch (write srcl) (h, m)))
   | PPC64 \<Rightarrow>
       let src = load_intptr arch m (slow_from h + word_of_int (ofs (n + 1)));
           write = (\<lambda>m p. store_intptr arch m p src)
       in Inr (if slow_gp_regs h \<le> slow_gp_reg_max h then slow_skip_slot arch (slow_to_gp arch write (h, m))
               else slow_to_st arch write (h, m)))"

definition slow_pass_float :: "arch \<Rightarrow> (int \<Rightarrow> int) \<Rightarrow> int \<Rightarrow> 'w::len slow_state \<Rightarrow> 'w slow_state result" where
  "slow_pass_float arch ofs n = (\<lambda>hm. Inl Unimplemented)"

definition slow_pass_double :: "arch \<Rightarrow> (int \<Rightarrow> int) \<Rightarrow> int \<Rightarrow> 'w::len slow_state \<Rightarrow> 'w slow_state result" where
  "slow_pass_double arch ofs n = (\<lambda>hm. Inl Unimplemented)"

definition slow_pass_object :: "arch \<Rightarrow> (int \<Rightarrow> int) \<Rightarrow> int \<Rightarrow> 'w::len slow_state \<Rightarrow> 'w slow_state result" where
  "slow_pass_object arch ofs n = (\<lambda>(h, m).
     let src = slow_from h + word_of_int (ofs n);
         src = (if load_intptr arch m src = 0 then 0 else src);
         write = (\<lambda>m p. store_intptr arch m p src)
     in Inr (if slow_gp_regs h \<le> slow_gp_reg_max h then slow_skip_slot arch (slow_to_gp arch write (h, m))
             else slow_to_st arch write (h, m)))"

definition slow_call :: "arch \<Rightarrow> (int \<Rightarrow> int) \<Rightarrow> jarg \<times> int \<Rightarrow> 'w::len slow_state \<Rightarrow> 'w slow_state result" where
  "slow_call arch ofs = (\<lambda>(a, n). case a of
     J_INT \<Rightarrow> slow_pass_int arch ofs n
   | J_LONG \<Rightarrow> slow_pass_long arch ofs n
   | J_FLOAT \<Rightarrow> slow_pass_float arch ofs n
   | J_DOUBLE \<Rightarrow> slow_pass_double arch ofs n
   | J_OBJECT \<Rightarrow> slow_pass_object arch ofs n)"

fun slow_iterate :: "arch \<Rightarrow> (int \<Rightarrow> int) \<Rightarrow> (jarg \<times> int) list \<Rightarrow> 'w::len slow_state \<Rightarrow> 'w slow_state result" where
  "slow_iterate arch ofs [] hm = Inr hm"
| "slow_iterate arch ofs (c # cs) hm = bindR (slow_call arch ofs c hm) (slow_iterate arch ofs cs)"

text \<open>
  \<^verbatim>\<open>InterpreterRuntime::slow_signature_handler\<close>: the images of the registers follow the
  parameter area, whose size depends on the number of parameter words of the method.
\<close>

definition slow_gp_area :: "arch \<Rightarrow> int \<Rightarrow> 'w::len word \<Rightarrow> 'w word" where
  "slow_gp_area arch size_of_parameters st_args = (case arch of
     PPC32 \<Rightarrow> st_args + words arch ((size_of_parameters - 3) * 3)
   | PPC64 \<Rightarrow> st_args + words arch (size_of_parameters + 2))"

definition slow_signature_handler ::
  "arch \<Rightarrow> (int \<Rightarrow> int) \<Rightarrow> 'w::len word \<Rightarrow> bool \<Rightarrow> bool \<Rightarrow> int \<Rightarrow> (jarg \<times> int) list \<Rightarrow> 'w word \<Rightarrow> 'w word \<Rightarrow>
    'w mem \<Rightarrow> ('w word \<times> 'w mem) result" where
  "slow_signature_handler arch ofs result_handler is_native is_static size_of_parameters calls from to m =
     asserted is_native ''sanity check''
    (let st_args = to;
         gp_regs = slow_gp_area arch size_of_parameters st_args;
         fp_regs = gp_regs + words arch (int gp_reg_max + 1 - int gp_reg_start)
     in bindR (slow_iterate arch ofs calls (new_SlowSignatureHandler arch is_static from gp_regs fp_regs st_args, m))
          (\<lambda>(h, m). Inr (result_handler, m)))"

end
