(* ===== verification/SignatureFacts.thy ===== *)
theory SignatureFacts
  imports SignatureHandlers
begin

text \<open>
  Properties of the signature handlers: how the counters of the generator and the pointers of
  the slow handler move together, where they part, and that the arguments on the stack do not
  overlap.
\<close>

section \<open>How the counters move\<close>

lemma pass_on_stack_Inr:
  assumes "pass_on_stack arch src t g = Inr g'"
  obtains a st where "st = (if arch = PPC32 \<and> odd (gen_st_arg g) \<and> wide_arg t then gen_st_arg g + 1 else gen_st_arg g)"
    "g' = g\<lparr>gen_st_args := gen_st_args g @ [a], gen_st_arg := (if arch = PPC32 \<and> wide_arg t then st + 2 else st + 1)\<rparr>"
    "dst_offset a = (link_area_words arch + int st) * wordSize arch" "arg_type a = t"
proof -
  obtain s where "src = Inr s" using assms by (cases src) (simp_all add: pass_on_stack_def)
  then have e: "pass_on_stack arch (Inr s) t g = Inr g'" using assms by simp
  define st where "st = (if arch = PPC32 \<and> odd (gen_st_arg g) \<and> wide_arg t then gen_st_arg g + 1 else gen_st_arg g)"
  show thesis
    using e unfolding pass_on_stack_def bindR_simps Let_def asserted_eq_Inr st_def [symmetric]
    by (elim conjE, intro that [OF st_def, of "\<lparr>src_offset = uint (Address_displacement s),
      dst_offset = (link_area_words arch + int st) * wordSize arch, arg_type = t\<rparr>"]) simp_all
qed

lemma emitting_Inr: "emitting e g s = Inr (g', s') \<longleftrightarrow> g' = g \<and> e s = Inr s'"
  by (auto simp: emitting_def bindR_eq_Inr)

definition narrow_call :: "arch \<Rightarrow> jarg \<Rightarrow> bool" where
  "narrow_call arch a \<longleftrightarrow> a = J_INT \<or> a = J_OBJECT \<or> a = J_LONG \<and> arch = PPC64"

lemma wide_arg_simps [simp]: "\<not> wide_arg T_INT" "\<not> wide_arg T_OBJECT" "wide_arg T_LONG"
  by (simp_all add: wide_arg_def)

lemma gen_narrow:
  assumes "narrow_call arch a" "gen_call arch ofs (a, n) (g, s) = Inr (g', s')"
  shows "gen_gp_reg g' = (if gen_gp_reg g \<le> 10 then gen_gp_reg g + 1 else gen_gp_reg g) \<and>
    gen_st_arg g' = (if gen_gp_reg g \<le> 10 \<and> arch = PPC32 then gen_st_arg g else gen_st_arg g + 1)"
  using assms unfolding narrow_call_def
  by (cases arch; cases "gen_gp_reg g \<le> 10")
    (auto simp: gen_call_def gen_pass_int_def gen_pass_object_def gen_pass_long_def Let_def emitting_Inr
      count_slot_def gp_reg_max_def bindR_eq_Inr elim!: pass_on_stack_Inr)

section \<open>The two handlers\<close>

text \<open>
  The slow handler's pointers point where the generator's counters say; \<open>base\<close> is the address of
  the register images, \<open>to\<close> that of the parameter area.
\<close>

definition same_place :: "arch \<Rightarrow> 'w::len word \<Rightarrow> 'w word \<Rightarrow> generator \<Rightarrow> 'w word slow_handler \<Rightarrow> bool" where
  "same_place arch base to g h \<longleftrightarrow> 4 \<le> gen_gp_reg g \<and> gen_gp_reg g \<le> 11 \<and>
     slow_gp_reg_max h = base + words arch 6 \<and>
     slow_gp_regs h = base + words arch (int (gen_gp_reg g) - 4) \<and>
     slow_st_args h = to + words arch (int (gen_st_arg g))"

lemma words_add: "p + words arch m + words arch n = p + words arch (m + n)"
  by (simp add: words_def add.assoc distrib_right)

lemma words_add0: "words arch m + words arch n = words arch (m + n)"
  by (simp add: words_def distrib_right)

lemma gp_regs_compare:
  fixes base :: "'w::len word"
  assumes s: "same_place arch base to g h" and b: "unat base + 64 \<le> 2 ^ LENGTH('w)"
  shows "slow_gp_regs h \<le> slow_gp_reg_max h \<longleftrightarrow> gen_gp_reg g \<le> 10"
    "slow_gp_regs h < slow_gp_reg_max h \<longleftrightarrow> gen_gp_reg g < 10"
proof -
  have u: "unat (base + words arch (int k)) = unat base + k * nat (wordSize arch)" if "k \<le> 7" for k
  proof -
    have e: "words arch (int k) = (word_of_nat (k * nat (wordSize arch)) :: 'w word)"
      by (cases arch) (simp_all add: words_def)
    have l: "k * nat (wordSize arch) \<le> 56" using that by (cases arch) simp_all
    then have "unat (word_of_nat (k * nat (wordSize arch)) :: 'w word) = k * nat (wordSize arch)"
      using b by (simp add: unat_of_nat del: of_nat_mult)
    then show ?thesis unfolding e using b l by (subst unat_add_lem [THEN iffD1]) simp_all
  qed
  obtain k where k: "gen_gp_reg g = k + 4" "k \<le> 7"
    using s that [of "gen_gp_reg g - 4"] by (auto simp: same_place_def)
  have "slow_gp_regs h = base + words arch (int k)" "slow_gp_reg_max h = base + words arch (int 6)"
    using s k by (simp_all add: same_place_def)
  then show "slow_gp_regs h \<le> slow_gp_reg_max h \<longleftrightarrow> gen_gp_reg g \<le> 10"
    "slow_gp_regs h < slow_gp_reg_max h \<longleftrightarrow> gen_gp_reg g < 10"
    using u [of k] u [of 6] k by (cases arch; simp add: word_le_nat_alt word_less_nat_alt)+
qed

lemma slow_narrow:
  assumes "narrow_call arch a" "slow_call arch ofs (a, n) (h, m) = Inr (h', m')"
  shows "h' = (if slow_gp_regs h \<le> slow_gp_reg_max h
    then h\<lparr>slow_gp_regs := slow_gp_regs h + words arch 1,
      slow_st_args := (case arch of PPC32 \<Rightarrow> slow_st_args h | PPC64 \<Rightarrow> slow_st_args h + words arch 1)\<rparr>
    else h\<lparr>slow_st_args := slow_st_args h + words arch 1\<rparr>)"
  using assms unfolding narrow_call_def
  by (cases arch) (auto simp: slow_call_def slow_pass_int_def slow_pass_object_def slow_pass_long_def Let_def
      slow_skip_slot_def slow_to_gp_def slow_to_st_def split: if_splits)

lemma same_place_step:
  fixes base :: "'w::len word"
  assumes s: "same_place arch base to g h" and b: "unat base + 64 \<le> 2 ^ LENGTH('w)" and a: "narrow_call arch a"
    and g: "gen_call arch ofs (a, n) (g, s) = Inr (g', s')" and h: "slow_call arch ofs' (a, n') (h, m) = Inr (h', m')"
  shows "same_place arch base to g' h'"
  using gen_narrow [OF a g] s unfolding slow_narrow [OF a h] gp_regs_compare(1) [OF s b]
  by (cases arch) (auto simp: same_place_def words_add0 algebra_simps)

lemma same_place_iterate:
  fixes base :: "'w::len word"
  assumes "same_place arch base to g h" "unat base + 64 \<le> 2 ^ LENGTH('w)" "\<forall>c\<in>set calls. narrow_call arch (fst c)"
    "gen_iterate arch ofs calls (g, s) = Inr (g', s')" "slow_iterate arch ofs calls (h, m) = Inr (h', m')"
  shows "same_place arch base to g' h'"
  using assms
proof (induction calls arbitrary: g s h m)
  case (Cons c cs)
  obtain a n where c: "c = (a, n)" by (cases c)
  obtain g1 s1 where g1: "gen_call arch ofs c (g, s) = Inr (g1, s1)" "gen_iterate arch ofs cs (g1, s1) = Inr (g', s')"
    using Cons.prems(4) by (auto simp: bindR_eq_Inr)
  obtain h1 m1 where h1: "slow_call arch ofs c (h, m) = Inr (h1, m1)" "slow_iterate arch ofs cs (h1, m1) = Inr (h', m')"
    using Cons.prems(5) by (auto simp: bindR_eq_Inr)
  have "same_place arch base to g1 h1"
    using same_place_step [OF Cons.prems(1,2) _ g1(1) [unfolded c] h1(1) [unfolded c]] Cons.prems(3) c by simp
  then show ?case using Cons.IH [OF _ Cons.prems(2) _ g1(2) h1(2)] Cons.prems(3) by simp
qed simp

lemma same_place_initially:
  "same_place arch base to (new_SignatureHandlerGenerator arch is_static)
     (new_SlowSignatureHandler arch is_static from base fp_regs to)"
  by (cases arch) (simp_all add: same_place_def new_SignatureHandlerGenerator_def new_SlowSignatureHandler_def
      gp_reg_start_def gp_reg_max_def words_def)

lemma slow_iterate_total:
  "\<forall>c\<in>set calls. narrow_call arch (fst c) \<Longrightarrow> \<exists>h' m'. slow_iterate arch ofs calls hm = Inr (h', m')"
proof (induction calls arbitrary: hm)
  case (Cons c cs)
  obtain a n h m where c: "c = (a, n)" "hm = (h, m)" by (cases c, cases hm)
  then have "narrow_call arch a" using Cons.prems by simp
  then have "\<exists>hm'. slow_call arch ofs c hm = Inr hm'"
    unfolding c narrow_call_def
    by (cases arch) (auto simp: slow_call_def slow_pass_int_def slow_pass_object_def slow_pass_long_def Let_def
        simp del: split_paired_Ex)
  then obtain hm' where "slow_call arch ofs c hm = Inr hm'" by (elim exE)
  then show ?case using Cons by simp
qed auto

section \<open>Properties\<close>


section \<open>Where the handlers part\<close>

text \<open>C39. On the 32-bit flavour the two part at the first long on the stack that starts at an odd
  slot: the generator skips a slot to align it, the slow handler does not.\<close>

theorem slow_handler_misaligns_longs:
  assumes "gen_gp_reg g = 11" "odd (gen_st_arg g)" "same_place PPC32 base to g h" "unat (base :: 'w::len word) + 64 \<le> 2 ^ LENGTH('w)"
    "gen_pass_long PPC32 ofs n (g, s) = Inr (g', s')" "slow_pass_long PPC32 ofs n (h, m) = Inr (h', m')"
  shows "gen_st_arg g' = gen_st_arg g + 3 \<and> slow_st_args h' = to + words PPC32 (int (gen_st_arg g) + 2) \<and>
    dst_offset (last (gen_st_args g')) = (link_area_words PPC32 + (int (gen_st_arg g) + 1)) * 4"
proof -
  have p: "pass_on_stack PPC32 (mk_Address Rlocals (ofs (n + 1))) T_LONG g = Inr g'"
    using assms(1,5) by (auto simp: gen_pass_long_def Let_def gp_reg_max_def bindR_eq_Inr)
  have "\<not> slow_gp_regs h < slow_gp_reg_max h"
    using gp_regs_compare(2) [OF assms(3,4)] assms(1) by simp
  then have "slow_st_args h' = slow_st_args h + words PPC32 1 + words PPC32 1"
    using assms(6) by (auto simp: slow_pass_long_def Let_def slow_to_st_def)
  then have "slow_st_args h' = to + words PPC32 (int (gen_st_arg g) + 2)"
    using assms(3) by (simp add: same_place_def words_add)
  moreover obtain a st where "st = (if PPC32 = PPC32 \<and> odd (gen_st_arg g) \<and> wide_arg T_LONG then gen_st_arg g + 1 else gen_st_arg g)"
    "g' = g\<lparr>gen_st_args := gen_st_args g @ [a], gen_st_arg := (if PPC32 = PPC32 \<and> wide_arg T_LONG then st + 2 else st + 1)\<rparr>"
    "dst_offset a = (link_area_words PPC32 + int st) * wordSize PPC32"
    by (rule pass_on_stack_Inr [OF p])
  ultimately show ?thesis using assms(2) by (simp add: add.commute)
qed

lemma load_u8_halves: "load_u8 False m p = push_bit 32 (ucast (load_u4 False m p)) OR ucast (load_u4 False m (p + 4))"
  by (simp add: load_u8_def)

text \<open>C38. On the 64-bit flavour, a big-endian machine, the slow handler writes an integer into the
  upper half of the register image, from which the register is loaded whole; the lower half,
  where the native method finds the integer, is not written.\<close>

theorem slow_handler_loses_ints:
  assumes "slow_pass_int PPC64 ofs n (h, m) = Inr (h', m')" "slow_gp_regs h \<le> slow_gp_reg_max h"
  shows "load_u8 False m' (slow_gp_regs (h :: 64 word slow_handler)) =
    push_bit 32 (ucast (load_u4 False m (slow_from h + word_of_int (ofs n)))) OR
    ucast (load_u4 False m (slow_gp_regs h + 4))"
proof -
  define v where "v = load_u4 False m (slow_from h + word_of_int (ofs n))"
  have m': "m' = write_bytes m (slow_gp_regs h) (to_be 4 v)"
    using assms by (simp add: slow_pass_int_def Let_def slow_skip_slot_def slow_to_gp_def v_def [symmetric]
        store_u4_eq order_def)
  have "load_u4 False m' (slow_gp_regs h) = v" unfolding m' load_u4_eq order_def
    using bytes_at_write [of "to_be 4 v" m "slow_gp_regs h"] by (simp add: be_bytes_to_be)
  moreover have "load_u4 False m' (slow_gp_regs h + 4) = load_u4 False m (slow_gp_regs h + 4)"
    unfolding m' load_u4_eq order_def
    by (simp add: bytes_at_simps write_bytes_apply add.assoc diff_add_eq)
  ultimately show ?thesis by (simp add: load_u8_halves v_def [symmetric])
qed

text \<open>C1. On the 32-bit flavour the area for the parameters is sized as if at least three were in
  registers: for a method with one or two parameter words the images of the registers start
  below the area, in the link area of the frame, and one of the first seven is at the word the
  parameter area starts at.\<close>

theorem slow_images_below_area:
  assumes "1 \<le> size_of_parameters" "size_of_parameters < 3"
  shows "\<exists>k\<in>{1..6}. slow_gp_area PPC32 size_of_parameters to + words PPC32 k = to"
  using assms by (intro bexI [of _ "(3 - size_of_parameters) * 3"]) (simp_all add: slow_gp_area_def words_def algebra_simps)

theorem slow_images_below_area_witness:
  "\<exists>k\<in>{1..6}. slow_gp_area PPC32 2 (0x1008 :: 32 word) + words PPC32 k = 0x1008"
  using slow_images_below_area [of 2 "0x1008 :: 32 word"] by simp


theorem slow_handler_misaligns_longs_witness:
  "\<exists>g' s' h' m'. gen_pass_long PPC32 (\<lambda>n. - 4 * n) 0
      (\<lparr>gen_gp_reg = 11, gen_fp_reg = 1, gen_st_arg = 1, gen_st_args = []\<rparr>, start_at (0 :: 32 word)) = Inr (g', s') \<and>
    slow_pass_long PPC32 (\<lambda>n. - 4 * n) 0
      (\<lparr>slow_from = 0x200, slow_gp_regs = 0x11c, slow_fp_regs = 0, slow_st_args = 0x84, slow_gp_reg_max = 0x118,
        slow_fp_reg_max = 0\<rparr>, \<lambda>a :: 32 word. 0) = Inr (h', m') \<and>
    gen_st_arg g' = 4 \<and> slow_st_args h' = 0x8c"
proof -
  let ?ofs = "\<lambda>n. - 4 * n :: int"
  let ?g = "\<lparr>gen_gp_reg = 11, gen_fp_reg = 1, gen_st_arg = 1, gen_st_args = []\<rparr>"
  let ?h = "\<lparr>slow_from = 0x200, slow_gp_regs = 0x11c, slow_fp_regs = 0, slow_st_args = 0x84, slow_gp_reg_max = 0x118,
        slow_fp_reg_max = 0 :: 32 word\<rparr>"
  have p: "same_place PPC32 0x100 0x80 ?g ?h" by (simp add: same_place_def words_def)
  have "\<not> isl (gen_pass_long PPC32 ?ofs 0 (?g, start_at (0 :: 32 word)))" by code_simp
  then obtain g' s' where g: "gen_pass_long PPC32 ?ofs 0 (?g, start_at (0 :: 32 word)) = Inr (g', s')"
    by (cases "gen_pass_long PPC32 ?ofs 0 (?g, start_at (0 :: 32 word))") auto
  obtain h' m' where h: "slow_pass_long PPC32 ?ofs 0 (?h, \<lambda>a :: 32 word. 0) = Inr (h', m')"
    by (cases "slow_pass_long PPC32 ?ofs 0 (?h, \<lambda>a :: 32 word. 0)") (auto simp: slow_pass_long_def Let_def)
  show ?thesis using slow_handler_misaligns_longs [OF _ _ p _ g h] g h by (auto simp: words_def)
qed

theorem slow_handler_loses_ints_witness:
  "\<exists>h' m'. slow_pass_int PPC64 (\<lambda>n. - 8 * n) 0
      (new_SlowSignatureHandler PPC64 False 0x200 0x100 0x180 (0x80 :: 64 word), \<lambda>a. ucast a) = Inr (h', m') \<and>
    load_u8 False m' 0x100 = 0x0001020304050607"
proof -
  let ?ofs = "\<lambda>n. - 8 * n :: int"
  let ?h = "new_SlowSignatureHandler PPC64 False 0x200 0x100 0x180 (0x80 :: 64 word)"
  have c: "\<forall>c\<in>set [(J_INT, 0)]. narrow_call PPC64 (fst c)" by (simp add: narrow_call_def)
  obtain h' m' where h: "slow_pass_int PPC64 ?ofs 0 (?h, \<lambda>a. ucast a) = Inr (h', m')"
    using slow_iterate_total [OF c, of ?ofs "(?h, \<lambda>a. ucast a)"] by (auto simp: slow_call_def bindR_eq_Inr)
  have p: "slow_gp_regs ?h = 0x100" "slow_gp_reg_max ?h = 0x130" "slow_from ?h = 0x200"
    by (simp_all add: new_SlowSignatureHandler_def words_def gp_reg_start_def gp_reg_max_def)
  have "load_u8 False m' 0x100 = push_bit 32 (ucast (load_u4 False (\<lambda>a :: 64 word. ucast a) 0x200)) OR
      ucast (load_u4 False (\<lambda>a :: 64 word. ucast a) 0x104)"
    using slow_handler_loses_ints [OF h] p by simp
  then show ?thesis using h by (intro exI [of _ h'] exI [of _ m']) (simp add: load_u4_def load_u2_def)
qed

section \<open>The arguments on the stack\<close>

definition arg_bytes :: "arch \<Rightarrow> BasicType \<Rightarrow> int" where
  "arg_bytes arch t = (if arch = PPC32 \<and> wide_arg t then 8 else wordSize arch)"

definition arg_in_area :: "arch \<Rightarrow> nat \<Rightarrow> StackArgument \<Rightarrow> bool" where
  "arg_in_area arch st a \<longleftrightarrow> link_area_words arch * wordSize arch \<le> dst_offset a \<and>
     dst_offset a + arg_bytes arch (arg_type a) \<le> (link_area_words arch + int st) * wordSize arch \<and>
     (dst_offset a - link_area_words arch * wordSize arch) mod arg_bytes arch (arg_type a) = 0 \<and>
     arg_type a \<in> {T_INT, T_LONG, T_FLOAT, T_DOUBLE, T_OBJECT}"

definition stack_args_ok :: "arch \<Rightarrow> generator \<Rightarrow> bool" where
  "stack_args_ok arch g \<longleftrightarrow> (\<forall>a\<in>set (gen_st_args g). arg_in_area arch (gen_st_arg g) a) \<and>
     sorted_wrt (\<lambda>a b. dst_offset a + arg_bytes arch (arg_type a) \<le> dst_offset b) (gen_st_args g)"

lemma arg_in_area_mono: "arg_in_area arch st a \<Longrightarrow> st \<le> st' \<Longrightarrow> arg_in_area arch st' a"
  unfolding arg_in_area_def by (cases arch) auto

lemma stack_args_ok_later:
  "stack_args_ok arch g \<Longrightarrow> gen_st_args g' = gen_st_args g \<Longrightarrow> gen_st_arg g \<le> gen_st_arg g' \<Longrightarrow> stack_args_ok arch g'"
  by (auto simp: stack_args_ok_def intro: arg_in_area_mono)

lemma stack_args_ok_pass:
  assumes ok: "stack_args_ok arch g" and p: "pass_on_stack arch src t g = Inr g'"
    and t: "t \<in> {T_INT, T_LONG, T_FLOAT, T_DOUBLE, T_OBJECT}"
  shows "stack_args_ok arch g'"
proof -
  obtain a st where st: "st = (if arch = PPC32 \<and> odd (gen_st_arg g) \<and> wide_arg t then gen_st_arg g + 1 else gen_st_arg g)"
    and g': "g' = g\<lparr>gen_st_args := gen_st_args g @ [a], gen_st_arg := (if arch = PPC32 \<and> wide_arg t then st + 2 else st + 1)\<rparr>"
    and a: "dst_offset a = (link_area_words arch + int st) * wordSize arch" "arg_type a = t"
    by (rule pass_on_stack_Inr [OF p])
  have m: "gen_st_arg g \<le> st" "st \<le> gen_st_arg g'" using st g' by auto
  have e: "arch = PPC32 \<and> wide_arg t \<Longrightarrow> even st" using st by auto
  have "arg_in_area arch (gen_st_arg g') a"
  proof (cases "arch = PPC32 \<and> wide_arg t")
    case True
    then obtain k where "st = 2 * k" using e by blast
    then show ?thesis using True t a g' by (simp add: arg_in_area_def arg_bytes_def algebra_simps)
  next
    case False
    then show ?thesis using t a g' by (cases arch) (auto simp: arg_in_area_def arg_bytes_def algebra_simps)
  qed
  moreover have "dst_offset b + arg_bytes arch (arg_type b) \<le> dst_offset a" if "b \<in> set (gen_st_args g)" for b
    using ok that arg_in_area_mono [of arch "gen_st_arg g" b st] m(1) unfolding a(1)
    by (auto simp: stack_args_ok_def arg_in_area_def)
  moreover have "arg_in_area arch (gen_st_arg g') b" if "b \<in> set (gen_st_args g)" for b
    using ok that arg_in_area_mono [of arch "gen_st_arg g" b "gen_st_arg g'"] m by (auto simp: stack_args_ok_def)
  ultimately show ?thesis using ok by (auto simp: stack_args_ok_def g' sorted_wrt_append)
qed

lemma stack_args_ok_call:
  assumes ok: "stack_args_ok arch g" and c: "gen_call arch ofs c (g, s) = Inr (g', s')"
  shows "stack_args_ok arch g'"
proof -
  have "(\<exists>src t. t \<in> {T_INT, T_LONG, T_FLOAT, T_DOUBLE, T_OBJECT} \<and> pass_on_stack arch src t g = Inr g') \<or>
      gen_st_args g' = gen_st_args g \<and> gen_st_arg g \<le> gen_st_arg g'"
  proof (cases c)
    case (Pair a n)
    then show ?thesis using c
      by (cases a; cases arch)
        (auto simp: gen_call_def gen_pass_int_def gen_pass_long_def gen_pass_float_def gen_pass_double_def
          gen_pass_object_def Let_def emitting_Inr bindR_eq_Inr count_slot_def split: if_splits)
  qed
  then show ?thesis using ok stack_args_ok_pass stack_args_ok_later by blast
qed



end
