(* ===== verification/InterpMasm.thy ===== *)
theory InterpMasm
  imports SignatureHandlers
begin

text \<open>
  The class \<^verbatim>\<open>InterpreterMacroAssembler\<close> (\<^verbatim>\<open>interp_masm_CPU.hpp\<close>, \<^verbatim>\<open>interp_masm_CPU.cpp\<close>) and
  the entries and handlers of \<^verbatim>\<open>interpreter_CPU.cpp\<close>: calls into the virtual machine with a
  Java frame anchor, object locking, the handler that calls \<^verbatim>\<open>slow_signature_handler\<close>, and the
  entries that are not implemented. A member \<^verbatim>\<open>InterpreterMacroAssembler::foo\<close> is
  \<open>imasm_foo\<close>.
\<close>

section \<open>What the interpreter's code knows of the virtual machine\<close>

text \<open>The fields of \<^verbatim>\<open>BytecodeInterpreter\<close> the generated code accesses with \<^verbatim>\<open>STATE(field)\<close>.\<close>

datatype state_field =
    S_locals | S_method | S_self_link | S_prev_link | S_stack_limit | S_stack | S_stack_base
  | S_monitor_base | S_thread | S_bcp | S_constants | S_msg | S_oop_temp | S_mdx | S_callee
  | S_callee_entry_point

record 'addr interp_externals = "'addr vm_externals" +
  last_Java_pc_offset :: int
  last_Java_sp_offset :: int
  obj_offset_in_bytes :: int
  lock_offset_in_bytes :: int
  displaced_header_offset_in_bytes :: int
  mark_offset_in_bytes :: int
  unlocked_value :: c_int
  UseHeavyMonitors :: bool
  UseBiasedLocking :: bool
  state_offset :: "state_field \<Rightarrow> int"
  size_of_parameters_offset :: int
  slow_signature_handler_entry :: 'addr
  InlineIntrinsics :: bool
  interp_masm_file :: int
  interpreter_file :: int

definition STATE :: "('addr, 'x) interp_externals_scheme \<Rightarrow> state_field \<Rightarrow> Address result" where
  "STATE vm field = mk_Address Rstate (state_offset vm field)"

section \<open>Calls into the virtual machine\<close>

definition imasm_set_last_Java_frame ::
  "arch \<Rightarrow> ('w::len word, 'x) interp_externals_scheme \<Rightarrow> Register \<Rightarrow> 'w word emitter" where
  "imasm_set_last_Java_frame arch vm lr_save =
     asserting (distinct [lr_save, r0]) ''registers must be different''
    (seqR [
       whenR (Register_is_valid lr_save) [asm_mflr lr_save],
       masm_mpclr,
       asm_mflr r0,
       masm_store arch r0 (mk_Address Rthread (last_Java_pc_offset vm)),
       masm_store arch r1 (mk_Address Rthread (last_Java_sp_offset vm)),
       whenR (Register_is_valid lr_save) [asm_mtlr lr_save]])"

definition imasm_reset_last_Java_frame ::
  "arch \<Rightarrow> ('w::len word, 'x) interp_externals_scheme \<Rightarrow> 'w word emitter" where
  "imasm_reset_last_Java_frame arch vm = seqR [
     masm_load arch r0 0,
     masm_store arch r0 (mk_Address Rthread (last_Java_sp_offset vm))]"

definition imasm_fixup_after_potential_safepoint ::
  "arch \<Rightarrow> ('w::len word, 'x) interp_externals_scheme \<Rightarrow> 'w word emitter" where
  "imasm_fixup_after_potential_safepoint arch vm = seqR [
     masm_load_A arch Rmethod (STATE vm S_method),
     masm_verify_oop vm Rmethod ''broken oop'']"

definition imasm_call_VM_base ::
  "arch \<Rightarrow> ('w::len word, 'x) interp_externals_scheme \<Rightarrow> Register \<Rightarrow> 'w word \<Rightarrow> c_int \<Rightarrow> 'w word emitter" where
  "imasm_call_VM_base arch vm oop_result entry_point flags = seqR [
     imasm_set_last_Java_frame arch vm (if flags AND CALL_VM_PRESERVE_LR \<noteq> 0 then r3 else noreg),
     call_VM_base arch vm oop_result entry_point flags,
     imasm_reset_last_Java_frame arch vm,
     imasm_fixup_after_potential_safepoint arch vm]"

definition imasm_call_VM_leaf_base :: "arch \<Rightarrow> 'w::len word \<Rightarrow> 'w word emitter" where
  "imasm_call_VM_leaf_base arch entry_point = call_VM_leaf_base arch entry_point"

text \<open>
  The inherited \<^verbatim>\<open>call_VM\<close> with one and with three arguments: the virtual \<^verbatim>\<open>call_VM_base\<close> is the
  interpreter's.
\<close>

definition imasm_call_VM_1 ::
  "arch \<Rightarrow> ('w::len word, 'x) interp_externals_scheme \<Rightarrow> Register \<Rightarrow> 'w word \<Rightarrow> Register \<Rightarrow> c_int \<Rightarrow>
    'w word emitter" where
  "imasm_call_VM_1 arch vm oop_result entry_point arg_1 flags = seqR [
     call_VM_pass_args arg_1 noreg noreg,
     imasm_call_VM_base arch vm oop_result entry_point flags]"

definition imasm_call_VM_3 ::
  "arch \<Rightarrow> ('w::len word, 'x) interp_externals_scheme \<Rightarrow> Register \<Rightarrow> 'w word \<Rightarrow> Register \<Rightarrow> Register \<Rightarrow>
    Register \<Rightarrow> c_int \<Rightarrow> 'w word emitter" where
  "imasm_call_VM_3 arch vm oop_result entry_point arg_1 arg_2 arg_3 flags = seqR [
     call_VM_pass_args arg_1 arg_2 arg_3,
     imasm_call_VM_base arch vm oop_result entry_point flags]"

section \<open>Object locking\<close>

definition imasm_lock_object ::
  "arch \<Rightarrow> ('w::len word, 'x) interp_externals_scheme \<Rightarrow> Register \<Rightarrow> 'w word emitter" where
  "imasm_lock_object arch vm entry =
     asserting (\<not> UseHeavyMonitors vm) ''not supported''
    (asserting (\<not> UseBiasedLocking vm) ''not supported''
    (let lockee = r3; mark = r4; displaced = r5
     in asserting (distinct [entry, lockee, mark, displaced]) ''registers must be different''
       (with_label (\<lambda>done. seqR [
          masm_load_A arch lockee (mk_Address entry (obj_offset_in_bytes vm)),
          asm_la mark (mk_Address lockee (mark_offset_in_bytes vm)),
          masm_load_A arch displaced (mk_Address mark 0),
          asm_ori displaced displaced (unlocked_value vm),
          masm_store arch displaced
            (mk_Address entry (lock_offset_in_bytes vm + displaced_header_offset_in_bytes vm)),
          masm_cmpxchg arch entry mark displaced,
          asm_beq done,
          masm_unimplemented arch vm (interp_masm_file vm) 124,
          asm_bind done]))))"

definition imasm_unlock_object ::
  "arch \<Rightarrow> ('w::len word, 'x) interp_externals_scheme \<Rightarrow> Register \<Rightarrow> 'w word emitter" where
  "imasm_unlock_object arch vm entry =
     asserting (\<not> UseHeavyMonitors vm) ''not supported''
    (asserting (\<not> UseBiasedLocking vm) ''not supported''
    (let lockee = r3; mark = r4; lock = r5; header = r6
     in asserting (distinct [entry, lockee, mark, lock, header]) ''registers must be different''
       (with_label (\<lambda>unlock. with_label (\<lambda>done. seqR [
          masm_load_A arch lockee (mk_Address entry (obj_offset_in_bytes vm)),
          asm_la mark (mk_Address lockee (mark_offset_in_bytes vm)),
          masm_compare_i arch lockee 0,
          asm_bne unlock,
          masm_unimplemented arch vm (interp_masm_file vm) 154,
          asm_bind unlock,
          asm_la lock (mk_Address entry (lock_offset_in_bytes vm)),
          masm_load_A arch header (mk_Address lock (displaced_header_offset_in_bytes vm)),
          masm_load arch r0 0,
          masm_load_A arch r0 (mk_Address entry (obj_offset_in_bytes vm)),
          masm_compare_i arch header 0,
          asm_beq done,
          masm_cmpxchg arch header mark lock,
          asm_beq done,
          masm_unimplemented arch vm (interp_masm_file vm) 176,
          asm_bind done])))))"

section \<open>Handlers and entries\<close>

definition generate_slow_signature_handler ::
  "arch \<Rightarrow> ('w::len word, 'x) interp_externals_scheme \<Rightarrow> 'w word asm \<Rightarrow> ('w word \<times> 'w word asm) result" where
  "generate_slow_signature_handler arch vm s =
     (let start = pc s;
          param_words_addr = mk_Address Rmethod (size_of_parameters_offset vm);
          required_bytes = r11; available_bytes = r12; register_images = r14; src = r11;
          gp_words = int (gp_reg_max + 1 - gp_reg_start);
          fp_regs = int (native_fp_reg_max arch + 1 - fp_reg_start)
      in bindR (seqR (
           [asm_lhz required_bytes param_words_addr] @
           (case arch of
              PPC32 \<Rightarrow> [asm_subi required_bytes required_bytes 3,
                masm_shift_left arch r0 required_bytes 1,
                asm_add required_bytes required_bytes r0]
            | PPC64 \<Rightarrow> [asm_addi required_bytes required_bytes 2]) @
           [masm_shift_left arch required_bytes required_bytes (word_of_int (LogBytesPerWord arch)),
            asm_mr register_images required_bytes,
            asm_addi required_bytes required_bytes (word_of_int (gp_words * wordSize arch + fp_regs * 8)),
            masm_load_A arch available_bytes (STATE vm S_stack_limit),
            asm_addi available_bytes available_bytes (word_of_int ((1 - link_area_words arch) * wordSize arch)),
            asm_sub available_bytes available_bytes r1,
            masm_maybe_extend_frame arch required_bytes available_bytes,
            asm_la r6 (mk_Address r1 (link_area_words arch * wordSize arch)),
            imasm_call_VM_3 arch vm noreg (slow_signature_handler_entry vm) Rmethod Rlocals r6 CALL_VM_PRESERVE_LR,
            asm_addi src r1 (word_of_int (link_area_words arch * wordSize arch)),
            asm_add src src register_images] @
           map (\<lambda>i. masm_load_A arch (as_Register (word_of_int i))
               (mk_Address src ((i - int gp_reg_start) * wordSize arch)))
             [int gp_reg_start..int gp_reg_max] @
           map (\<lambda>i. asm_lfd (as_FloatRegister (word_of_int i))
               (mk_Address src (gp_words * wordSize arch + (i - int fp_reg_start) * 8)))
             [int fp_reg_start..int (native_fp_reg_max arch)] @
           [asm_mr r0 r3,
            asm_blr]) s) (\<lambda>s. Inr (start, s)))"

text \<open>The kinds of methods the interpreter has an entry for.\<close>

datatype MethodKind =
    zerolocals | zerolocals_synchronized | native | native_synchronized | empty | accessor | abstract
  | java_lang_math_sin | java_lang_math_cos | java_lang_math_tan | java_lang_math_abs
  | java_lang_math_sqrt | java_lang_math_log | java_lang_math_log10 | number_of_method_entries

text \<open>The line that is reported for each of the mathematical functions.\<close>

fun math_line :: "MethodKind \<Rightarrow> int option" where
  "math_line java_lang_math_sin = Some 133"
| "math_line java_lang_math_cos = Some 137"
| "math_line java_lang_math_tan = Some 141"
| "math_line java_lang_math_abs = Some 145"
| "math_line java_lang_math_log = Some 149"
| "math_line java_lang_math_log10 = Some 153"
| "math_line java_lang_math_sqrt = Some 157"
| "math_line kind = None"

text \<open>The address 0 is \<^verbatim>\<open>NULL\<close>: no entry.\<close>

definition generate_math_entry ::
  "arch \<Rightarrow> ('w::len word, 'x) interp_externals_scheme \<Rightarrow> MethodKind \<Rightarrow> 'w word asm \<Rightarrow>
    ('w word \<times> 'w word asm) result" where
  "generate_math_entry arch vm kind s =
     (if \<not> InlineIntrinsics vm then Inr (0, s)
      else case math_line kind of
        Some line \<Rightarrow> bindR (masm_unimplemented arch vm (interpreter_file vm) line s) (\<lambda>t. Inr (pc s, t))
      | None \<Rightarrow> Inl ShouldNotReachHere)"

definition generate_abstract_entry ::
  "arch \<Rightarrow> ('w::len word, 'x) interp_externals_scheme \<Rightarrow> 'w word asm \<Rightarrow> ('w word \<times> 'w word asm) result" where
  "generate_abstract_entry arch vm = generate_unimplemented_entry arch vm (interpreter_file vm) 172"

end
