(* ===== verification/StubGenerator.thy ===== *)
theory StubGenerator
  imports InterpMasm
begin

text \<open>
  The stubs of \<^verbatim>\<open>stubGenerator_CPU.cpp\<close>: the stub through which C++ calls Java methods, the
  stubs that copy arrays, and those that are not implemented. The static members of
  \<^verbatim>\<open>StubRoutines\<close> and \<^verbatim>\<open>frame\<close> the generator sets are the record \<open>StubRoutines\<close>.
\<close>

section \<open>The routines\<close>

datatype stub =
    forward_exception_entry | call_stub_entry | catch_exception_entry
  | atomic_xchg_entry | atomic_xchg_ptr_entry | atomic_cmpxchg_entry | atomic_cmpxchg_ptr_entry
  | atomic_cmpxchg_long_entry | atomic_add_entry | atomic_add_ptr_entry | fence_entry
  | handler_for_unsafe_access_entry
  | throw_AbstractMethodError_entry | throw_ArithmeticException_entry
  | throw_NullPointerException_entry | throw_NullPointerException_at_call_entry
  | throw_StackOverflowError_entry | verify_oop_subroutine_entry
  | jbyte_disjoint_arraycopy | jbyte_arraycopy | jshort_disjoint_arraycopy | jshort_arraycopy
  | jint_disjoint_arraycopy | jint_arraycopy | jlong_disjoint_arraycopy | jlong_arraycopy
  | oop_disjoint_arraycopy | oop_arraycopy
  | checkcast_arraycopy | unsafe_arraycopy | generic_arraycopy
  | arrayof_jbyte_disjoint_arraycopy | arrayof_jbyte_arraycopy
  | arrayof_jshort_disjoint_arraycopy | arrayof_jshort_arraycopy
  | arrayof_jint_disjoint_arraycopy | arrayof_jint_arraycopy
  | arrayof_jlong_disjoint_arraycopy | arrayof_jlong_arraycopy
  | arrayof_oop_disjoint_arraycopy | arrayof_oop_arraycopy

record 'a StubRoutines =
  stub_entry :: "stub \<Rightarrow> 'a option"
  call_stub_return_address :: "'a option"
  call_stub_base_size_static :: int
  call_wrapper_offset_static :: int

type_synonym 'a stub_state = "'a StubRoutines \<times> 'a asm"

record 'addr stub_externals = "'addr interp_externals" +
  TaggedStackInterpreter :: bool
  BasicType_number :: "BasicType \<Rightarrow> c_int"
  stubGenerator_file :: int

definition call_stub_base_size :: "'a StubRoutines \<Rightarrow> int result" where
  "call_stub_base_size g = asserted (call_stub_base_size_static g \<noteq> 0) ''call_stub_base_size not set''
     (Inr (call_stub_base_size_static g))"

definition set_call_stub_base_size :: "int \<Rightarrow> 'a StubRoutines \<Rightarrow> 'a StubRoutines result" where
  "set_call_stub_base_size new_size g = asserted (call_stub_base_size_static g = 0) ''call_stub_base_size already set''
     (Inr (g\<lparr>call_stub_base_size_static := new_size\<rparr>))"

definition call_wrapper_offset :: "'a StubRoutines \<Rightarrow> int result" where
  "call_wrapper_offset g = asserted (call_wrapper_offset_static g \<noteq> 0) ''call_wrapper_offset not set''
     (Inr (call_wrapper_offset_static g))"

definition set_call_wrapper_offset :: "int \<Rightarrow> 'a StubRoutines \<Rightarrow> 'a StubRoutines result" where
  "set_call_wrapper_offset ofs g = asserted (call_wrapper_offset_static g = 0) ''call_wrapper_offset already set''
     (Inr (g\<lparr>call_wrapper_offset_static := ofs\<rparr>))"

definition returns_to_call_stub :: "'a StubRoutines \<Rightarrow> 'a \<Rightarrow> bool" where
  "returns_to_call_stub g return_pc \<longleftrightarrow> Some return_pc = call_stub_return_address g"

section \<open>The call stub\<close>

text \<open>The frame whose size is computed: three condition register fields, all general registers.\<close>

fun get_cr_fields :: "nat \<Rightarrow> StackFrame \<Rightarrow> StackFrame result" where
  "get_cr_fields 0 f = Inr f"
| "get_cr_fields (Suc n) f = bindR (get_cr_field f) (\<lambda>(_, f). get_cr_fields n f)"

fun take_registers :: "nat \<Rightarrow> StackFrame \<Rightarrow> StackFrame result" where
  "take_registers 0 f = Inr f"
| "take_registers (Suc n) f = bindR (get_register f) (\<lambda>(_, f). take_registers n f)"

definition call_stub_frame :: "StackFrame result" where
  "call_stub_frame = bindR (get_cr_fields (nat max_crfs) (new_StackFrame 0)) (take_registers (nat max_gprs))"

text \<open>
  A block of the debug build: unless the condition holds, stop with a report.
\<close>

definition call_stub_check :: "arch \<Rightarrow> ('w::len word, 'x) vm_externals_scheme \<Rightarrow> int \<Rightarrow> int \<Rightarrow> 'w word emitter list \<Rightarrow> 'w word emitter" where
  "call_stub_check arch vm file line comparison = with_label (\<lambda>label. seqR (comparison @ [
     asm_beq label,
     with_frame arch (new_StackFrame 0) (\<lambda>_. masm_should_not_reach_here arch vm file line),
     asm_blr,
     asm_bind label]))"

text \<open>
  Offsets in words from the address of the first local variable, \<open>r11\<close>: of the call wrapper,
  of the first general register, and of the end of the frame.
\<close>

definition initial_offset :: int where "initial_offset = 1"

definition registers_offset :: "arch \<Rightarrow> int" where
  "registers_offset arch = initial_offset + 3 + (case arch of PPC32 \<Rightarrow> 1 | PPC64 \<Rightarrow> 0)"

definition final_offset :: "arch \<Rightarrow> int" where
  "final_offset arch = registers_offset arch + 18"

text \<open>
  From the size of the frame to the last register saved. \<open>r9\<close> holds the number of
  parameters, later their size; \<open>r11\<close> the size of the frame, later the address of the first
  local variable; \<open>r12\<close> the padding.
\<close>

definition call_stub_frame_code :: "arch \<Rightarrow> int \<Rightarrow> int \<Rightarrow> 'a emitter list" where
  "call_stub_frame_code arch base_size locals_start =
     (let call_wrapper = r3; result = r4; result_type = r5; parameter_words = r9;
          parameter_bytes = parameter_words; frame_size = r11; padding = r12; locals = frame_size;
          at = (\<lambda>n. mk_Address locals (n * wordSize arch))
      in [masm_shift_left arch parameter_bytes parameter_words (word_of_int (LogBytesPerWord arch)),
          asm_addi frame_size parameter_bytes (word_of_int base_size),
          masm_calc_padding_for_alignment padding frame_size (word_of_int StackAlignmentInBytes),
          asm_add frame_size frame_size padding,
          asm_mflr r0,
          masm_store arch r0 (mk_Address r1 (lr_save_offset arch * wordSize arch)),
          asm_neg r0 frame_size,
          masm_store_update_indexed arch r1 r1 r0] @
         (case cr_save_offset arch of None \<Rightarrow> []
          | Some ofs \<Rightarrow> [asm_mfcr r0, masm_store arch r0 (mk_Address r1 (ofs * wordSize arch))]) @
         [asm_addi locals r1 (word_of_int (locals_start - wordSize arch)),
          asm_add locals locals padding,
          asm_add locals locals parameter_bytes,
          masm_store arch call_wrapper (at initial_offset),
          masm_store arch result (at (initial_offset + 1)),
          masm_store arch result_type (at (initial_offset + 2))] @
         (case arch of PPC32 \<Rightarrow> [asm_mfcr r0, masm_store arch r0 (at (initial_offset + 3))] | PPC64 \<Rightarrow> []) @
         map (\<lambda>i. masm_store arch (as_Register (word_of_int i)) (at (registers_offset arch + (i - 14)))) [14..31])"

text \<open>The loop that copies the parameters, downwards from the first local variable.\<close>

definition call_stub_copy_step :: "arch \<Rightarrow> 'a emitter list" where
  "call_stub_copy_step arch =
     (let src = r8; dst = r12
      in [masm_load_A arch r0 (mk_Address src 0),
          masm_store arch r0 (mk_Address dst 0),
          asm_addi src src (word_of_int (wordSize arch)),
          asm_subi dst dst (word_of_int (wordSize arch))])"

definition call_stub_copy :: "arch \<Rightarrow> 'w::len word emitter" where
  "call_stub_copy arch =
     (let parameter_bytes = r9; locals = r11; dst = r12
      in with_label (\<lambda>loop. with_label (\<lambda>done. seqR ([
          masm_compare_i arch parameter_bytes 0,
          asm_ble done,
          asm_mr dst locals,
          masm_shift_right arch r0 parameter_bytes (word_of_int (LogBytesPerWord arch)),
          asm_mtctr r0,
          asm_bind loop] @
          call_stub_copy_step arch @
          [asm_bdnz loop,
          asm_bind done]))))"

text \<open>The registers are loaded back, relative to the end of the frame.\<close>

definition call_stub_restore_code :: "arch \<Rightarrow> 'a emitter list" where
  "call_stub_restore_code arch =
     (let locals = r11; at = (\<lambda>n. mk_Address locals (n * wordSize arch))
      in (case arch of PPC32 \<Rightarrow> [masm_load_A arch r0 (at (initial_offset + 3)), asm_mtcr r0] | PPC64 \<Rightarrow> []) @
         map (\<lambda>i. masm_load_A arch (as_Register (word_of_int i)) (at (registers_offset arch + (i - 14)))) [14..31] @
         (case cr_save_offset arch of None \<Rightarrow> []
          | Some ofs \<Rightarrow> [masm_load_A arch r0 (mk_Address r1 (ofs * wordSize arch)), asm_mtcr r0]))"

definition call_stub_unwind_code :: "arch \<Rightarrow> 'a emitter list" where
  "call_stub_unwind_code arch = [
     masm_load_A arch r1 (mk_Address r1 (back_chain_offset * wordSize arch)),
     masm_load_A arch r0 (mk_Address r1 (lr_save_offset arch * wordSize arch)),
     asm_mtlr r0,
     asm_blr]"

text \<open>What follows the return from the Java method, up to the label \<open>exit\<close>.\<close>

definition call_stub_result_code :: "arch \<Rightarrow> ('w::len word, 'x) stub_externals_scheme \<Rightarrow> nat \<Rightarrow> 'w word emitter" where
  "call_stub_result_code arch vm exit =
     (let locals = r11; result_addr = r6; result_type = r5;
          at = (\<lambda>n. mk_Address locals (n * wordSize arch))
      in with_label (\<lambda>is_int. with_label (\<lambda>is_long. with_label (\<lambda>is_object. seqR ([
          masm_load_A arch result_addr (at (initial_offset + 1)),
          masm_load_A arch result_type (at (initial_offset + 2)),
          masm_compare_i arch result_type (BasicType_number vm T_INT),
          asm_beq is_int,
          masm_compare_i arch result_type (BasicType_number vm T_LONG),
          asm_beq is_long,
          masm_compare_i arch result_type (BasicType_number vm T_OBJECT),
          asm_beq is_object,
          masm_should_not_reach_here arch vm (stubGenerator_file vm) 319,
          asm_bind is_int,
          asm_stw r3 (mk_Address result_addr 0),
          asm_b_label exit,
          asm_bind is_long] @
          (case arch of PPC32 \<Rightarrow> [masm_store arch r4 (mk_Address result_addr (wordSize arch))] | PPC64 \<Rightarrow> []) @
          [masm_store arch r3 (mk_Address result_addr 0),
          asm_b_label exit,
          asm_bind is_object,
          masm_store arch r3 (mk_Address result_addr 0)])))))"

definition generate_call_stub ::
  "arch \<Rightarrow> ('w::len word, 'x) stub_externals_scheme \<Rightarrow> 'w word stub_state \<Rightarrow> ('w word \<times> 'w word stub_state) result" where
  "generate_call_stub arch vm = (\<lambda>(g, s).
     let method = r6; entry_point = r7; thread = r10; locals = r11; start = pc s;
         check = call_stub_check arch vm (stubGenerator_file vm)
     in asserted (\<not> TaggedStackInterpreter vm) ''not supported''
       (bindR (seqR [
          masm_enter arch,
          check 157 [masm_load_A arch r0 (mk_Address thread (pending_exception_offset vm)),
                     masm_compare_i arch r0 0]] s) (\<lambda>s.
        bindR call_stub_frame (\<lambda>frame.
        bindR (set_call_stub_base_size (unaligned_size arch frame + 3 * wordSize arch) g) (\<lambda>g.
        bindR (call_stub_base_size g) (\<lambda>base_size.
        bindR (seqR (call_stub_frame_code arch base_size (start_of_locals arch frame)) s) (\<lambda>s.
        bindR (set_call_wrapper_offset ((final_offset arch - initial_offset) * wordSize arch) g) (\<lambda>g.
        bindR (seqR [
          check 237 [masm_load_A arch r3 (mk_Address r1 0),
                     asm_subi r3 r3 (word_of_int (final_offset arch * wordSize arch)),
                     masm_compare arch r3 locals],
          call_stub_copy arch,
          asm_mr Rmethod method,
          asm_mr Rlocals locals,
          asm_mr Rthread thread,
          asm_mtctr entry_point,
          asm_bctrl] s) (\<lambda>s.
        let g = g\<lparr>call_stub_return_address := Some (pc s)\<rparr>
        in bindR (seqR [
          masm_load_A arch locals (mk_Address r1 0),
          asm_subi locals locals (word_of_int (final_offset arch * wordSize arch)),
          check 289 [masm_compare arch Rlocals locals],
          with_label (\<lambda>exit. seqR ([
            masm_load_A arch r0 (mk_Address Rthread (pending_exception_offset vm)),
            masm_compare_i arch r0 0,
            asm_bne exit,
            call_stub_result_code arch vm exit,
            asm_bind exit] @
            call_stub_restore_code arch @
            call_stub_unwind_code arch))] s) (\<lambda>s. Inr (start, (g, s))))))))))))"

section \<open>The other stubs\<close>

definition generate_arraycopy_stub ::
  "arch \<Rightarrow> ('w::len word, 'x) stub_externals_scheme \<Rightarrow> int \<Rightarrow> 'w word asm \<Rightarrow> ('w word \<times> 'w word asm) result" where
  "generate_arraycopy_stub arch vm line s =
     (let start = pc s; count = r5
      in bindR (seqR [
           masm_enter arch,
           masm_compare_i arch count 0,
           asm_beqlr,
           masm_unimplemented arch vm (stubGenerator_file vm) line,
           asm_blr] s) (\<lambda>s. Inr (start, s)))"

definition UnimplementedStub ::
  "arch \<Rightarrow> ('w::len word, 'x) stub_externals_scheme \<Rightarrow> int \<Rightarrow> 'w word asm \<Rightarrow> ('w word \<times> 'w word asm) result" where
  "UnimplementedStub arch vm line = generate_unimplemented_stub arch vm (stubGenerator_file vm) line"

text \<open>\<^verbatim>\<open>StubRoutines::_name = generate()\<close>, and \<^verbatim>\<open>StubRoutines::_name = StubRoutines::_other\<close>.\<close>

definition set_stub ::
  "stub \<Rightarrow> ('a asm \<Rightarrow> ('a \<times> 'a asm) result) \<Rightarrow> 'a stub_state \<Rightarrow> 'a stub_state result" where
  "set_stub name gen = (\<lambda>(g, s). bindR (gen s) (\<lambda>(a, s).
     Inr (g\<lparr>stub_entry := (stub_entry g)(name := Some a)\<rparr>, s)))"

definition alias_stub :: "stub \<Rightarrow> stub \<Rightarrow> 'a stub_state \<Rightarrow> 'a stub_state result" where
  "alias_stub name other = (\<lambda>(g, s). Inr (g\<lparr>stub_entry := (stub_entry g)(name := stub_entry g other)\<rparr>, s))"

definition generate_arraycopy_stubs ::
  "arch \<Rightarrow> ('w::len word, 'x) stub_externals_scheme \<Rightarrow> 'w word stub_state \<Rightarrow> 'w word stub_state result" where
  "generate_arraycopy_stubs arch vm =
     (let copy = generate_arraycopy_stub arch vm; unimplemented = UnimplementedStub arch vm
      in seqR [
        set_stub jbyte_disjoint_arraycopy (copy 391),
        set_stub jbyte_arraycopy (copy 393),
        set_stub jshort_disjoint_arraycopy (copy 396),
        set_stub jshort_arraycopy (copy 398),
        set_stub jint_disjoint_arraycopy (copy 401),
        set_stub jint_arraycopy (copy 403),
        set_stub jlong_disjoint_arraycopy (copy 406),
        set_stub jlong_arraycopy (copy 408),
        set_stub oop_disjoint_arraycopy (unimplemented 410),
        set_stub oop_arraycopy (unimplemented 411),
        set_stub checkcast_arraycopy (unimplemented 413),
        set_stub unsafe_arraycopy (unimplemented 414),
        set_stub generic_arraycopy (unimplemented 415),
        alias_stub arrayof_jbyte_disjoint_arraycopy jbyte_disjoint_arraycopy,
        alias_stub arrayof_jbyte_arraycopy jbyte_arraycopy,
        alias_stub arrayof_jshort_disjoint_arraycopy jshort_disjoint_arraycopy,
        alias_stub arrayof_jshort_arraycopy jshort_arraycopy,
        alias_stub arrayof_jint_disjoint_arraycopy jint_disjoint_arraycopy,
        alias_stub arrayof_jint_arraycopy jint_arraycopy,
        alias_stub arrayof_jlong_disjoint_arraycopy jlong_disjoint_arraycopy,
        alias_stub arrayof_jlong_arraycopy jlong_arraycopy,
        alias_stub arrayof_oop_disjoint_arraycopy oop_disjoint_arraycopy,
        alias_stub arrayof_oop_arraycopy oop_arraycopy])"

definition set_call_stub ::
  "arch \<Rightarrow> ('w::len word, 'x) stub_externals_scheme \<Rightarrow> 'w word stub_state \<Rightarrow> 'w word stub_state result" where
  "set_call_stub arch vm st = bindR (generate_call_stub arch vm st) (\<lambda>(a, (g, s)).
     Inr (g\<lparr>stub_entry := (stub_entry g)(call_stub_entry := Some a)\<rparr>, s))"

definition generate_initial ::
  "arch \<Rightarrow> ('w::len word, 'x) stub_externals_scheme \<Rightarrow> 'w word stub_state \<Rightarrow> 'w word stub_state result" where
  "generate_initial arch vm =
     (let unimplemented = UnimplementedStub arch vm
      in seqR [
        set_stub forward_exception_entry (unimplemented 455),
        set_call_stub arch vm,
        set_stub catch_exception_entry (unimplemented 462),
        set_stub atomic_xchg_entry (unimplemented 465),
        set_stub atomic_xchg_ptr_entry (unimplemented 466),
        set_stub atomic_cmpxchg_entry (unimplemented 467),
        set_stub atomic_cmpxchg_ptr_entry (unimplemented 468),
        set_stub atomic_cmpxchg_long_entry (unimplemented 469),
        set_stub atomic_add_entry (unimplemented 470),
        set_stub atomic_add_ptr_entry (unimplemented 471),
        set_stub fence_entry (unimplemented 472),
        set_stub handler_for_unsafe_access_entry (unimplemented 476)])"

definition generate_all ::
  "arch \<Rightarrow> ('w::len word, 'x) stub_externals_scheme \<Rightarrow> 'w word stub_state \<Rightarrow> 'w word stub_state result" where
  "generate_all arch vm =
     (let unimplemented = UnimplementedStub arch vm
      in seqR [
        set_stub throw_AbstractMethodError_entry (unimplemented 487),
        set_stub throw_ArithmeticException_entry (unimplemented 490),
        set_stub throw_NullPointerException_entry (unimplemented 493),
        set_stub throw_NullPointerException_at_call_entry (unimplemented 496),
        set_stub throw_StackOverflowError_entry (unimplemented 499),
        set_stub verify_oop_subroutine_entry (unimplemented 503),
        generate_arraycopy_stubs arch vm])"

definition StubGenerator_generate ::
  "arch \<Rightarrow> ('w::len word, 'x) stub_externals_scheme \<Rightarrow> bool \<Rightarrow> 'w word stub_state \<Rightarrow> 'w word stub_state result" where
  "StubGenerator_generate arch vm all = (if all then generate_all arch vm else generate_initial arch vm)"

end
