(* ===== verification/CppInterpreter.thy ===== *)
theory CppInterpreter
  imports StubGenerator
begin

text \<open>
  The frame manager of the C++ interpreter (\<^verbatim>\<open>cppInterpreter_CPU.cpp\<close>): the routines that move
  results between the native calling convention and the expression stack, the entries of empty,
  accessor, native and ordinary methods, and the construction and removal of interpreter frames.
\<close>

section \<open>What the frame manager knows of the virtual machine\<close>

record 'addr cpp_externals = "'addr stub_externals" +
  number_of_result_handlers :: int
  RecursiveInterpreterActivation :: 'addr
  interpreter_code_contains :: "'addr \<Rightarrow> bool"
  UseFastEmptyMethods :: bool
  UseFastAccessorMethods :: bool
  safepoint_state_address :: int
  safepoint_not_synchronized :: c_int
  const_offset :: int
  codes_offset :: int
  cache_offset_in_bytes :: int
  cache_base_offset :: int
  cache_entry_log2 :: c_int
  indices_offset :: int
  f2_offset :: int
  flags_offset :: int
  tosBits :: c_int
  bytecode_aload_0 :: c_int
  bytecode_getfield :: c_int
  tos_state :: "BasicType \<Rightarrow> c_int"
  printf_entry :: 'addr
  unknown_type_literal :: int
  bad_message_literal :: int
  access_flags_offset :: int
  max_stack_offset :: int
  size_of_locals_offset :: int
  signature_handler_offset :: int
  native_function_offset :: int
  result_index_offset :: int
  jni_environment_offset :: int
  thread_state_offset :: int
  suspend_flags_offset :: int
  active_handles_offset :: int
  handle_top_offset_in_bytes :: int
  acc_NATIVE :: c_int
  acc_ABSTRACT :: c_int
  acc_SYNCHRONIZED :: c_int
  acc_STATIC :: c_int
  thread_in_Java :: c_int
  thread_in_native :: c_int
  thread_in_native_trans :: c_int
  os_is_MP :: bool
  UseMembar :: bool
  prepare_native_call_entry :: 'addr
  check_special_condition_entry :: 'addr
  object_result_handler :: int
  can_post_interpreter_events :: bool
  interpreter_run :: 'addr
  interpreter_runWithChecks :: 'addr
  msg_call_method :: c_int
  msg_return_from_method :: c_int
  msg_more_monitors :: c_int
  msg_throwing_exception :: c_int
  msg_method_resume :: int
  msg_method_entry :: int
  msg_got_monitors :: int
  sizeof_BytecodeInterpreter :: int
  monitor_words :: int
  thread_index :: int
  pthread_getspecific_entry :: 'addr
  tosca_to_stack_array :: int
  stack_to_stack_array :: int
  stack_to_native_abi_array :: int
  cppInterpreter_file :: int

definition Rmonitor :: Register where "Rmonitor = r27"
definition CRsync :: ConditionRegister where "CRsync = cr2"
definition CRstatic :: ConditionRegister where "CRstatic = cr3"

definition slop_factor :: "arch \<Rightarrow> int" where "slop_factor arch = 2 * wordSize arch"

text \<open>The cached entries.\<close>

record 'a entry_cache =
  normal_entry :: "'a option"
  native_entry :: "'a option"

definition RecursiveInterpreterActivation_body :: "unit result" where
  "RecursiveInterpreterActivation_body = Inl ShouldNotReachHere"

fun type_index :: "BasicType \<Rightarrow> int option" where
  "type_index T_BOOLEAN = Some 0"
| "type_index T_CHAR = Some 1"
| "type_index T_BYTE = Some 2"
| "type_index T_SHORT = Some 3"
| "type_index T_INT = Some 4"
| "type_index T_LONG = Some 5"
| "type_index T_VOID = Some 6"
| "type_index T_FLOAT = Some 7"
| "type_index T_DOUBLE = Some 8"
| "type_index T_OBJECT = Some 9"
| "type_index T_ARRAY = Some 9"
| "type_index t = None"

definition BasicType_as_index :: "('w::len word, 'x) cpp_externals_scheme \<Rightarrow> BasicType \<Rightarrow> int result" where
  "BasicType_as_index vm t = (case type_index t of
     None \<Rightarrow> Inl ShouldNotReachHere
   | Some i \<Rightarrow> asserted (0 \<le> i \<and> i < number_of_result_handlers vm) ''index out of bounds'' (Inr i))"

definition interpreter_contains :: "('w::len word, 'x) cpp_externals_scheme \<Rightarrow> 'w word \<Rightarrow> bool" where
  "interpreter_contains vm a \<longleftrightarrow> a = RecursiveInterpreterActivation vm \<or> interpreter_code_contains vm a"

definition from_here :: "'w::len word emitter \<Rightarrow> 'w word asm \<Rightarrow> ('w word \<times> 'w word asm) result" where
  "from_here e s = (let start = pc s in bindR (e s) (\<lambda>s. Inr (start, s)))"

section \<open>Results\<close>

definition result_handler_code ::
  "arch \<Rightarrow> ('w::len word, 'x) cpp_externals_scheme \<Rightarrow> BasicType \<Rightarrow> 'w word emitter" where
  "result_handler_code arch vm type = (case type of
     T_VOID \<Rightarrow> seqR []
   | T_BOOLEAN \<Rightarrow> with_label (\<lambda>zero. seqR [
       masm_compare_i arch r3 0,
       asm_beq zero,
       masm_load arch r3 1,
       asm_bind zero])
   | T_CHAR \<Rightarrow> asm_andi_rc r3 r3 0xffff
   | T_BYTE \<Rightarrow> asm_extsb r3 r3
   | T_SHORT \<Rightarrow> asm_extsh r3 r3
   | T_INT \<Rightarrow> whenR (arch = PPC64) [asm_extsw r3 r3]
   | T_LONG \<Rightarrow> seqR []
   | T_FLOAT \<Rightarrow> seqR []
   | T_DOUBLE \<Rightarrow> seqR []
   | T_OBJECT \<Rightarrow> seqR [
       masm_load_A arch r3 (STATE vm S_oop_temp),
       masm_verify_oop vm r3 ''broken oop'']
   | _ \<Rightarrow> (\<lambda>s. Inl ShouldNotReachHere))"

definition generate_result_handler_for ::
  "arch \<Rightarrow> ('w::len word, 'x) cpp_externals_scheme \<Rightarrow> BasicType \<Rightarrow> 'w word asm \<Rightarrow> ('w word \<times> 'w word asm) result" where
  "generate_result_handler_for arch vm type = from_here (seqR [result_handler_code arch vm type, asm_blr])"

definition tosca_to_stack_code ::
  "arch \<Rightarrow> ('w::len word, 'x) cpp_externals_scheme \<Rightarrow> BasicType \<Rightarrow> 'w word emitter" where
  "tosca_to_stack_code arch vm type =
     (let at = mk_Address Rlocals; W = wordSize arch;
          pop = (\<lambda>n. asm_subi Rlocals Rlocals (word_of_int (W * n)));
          word = seqR [asm_stw r3 (at 0), pop 1]
      in case type of
           T_VOID \<Rightarrow> seqR []
         | T_BOOLEAN \<Rightarrow> word | T_CHAR \<Rightarrow> word | T_BYTE \<Rightarrow> word | T_SHORT \<Rightarrow> word | T_INT \<Rightarrow> word
         | T_LONG \<Rightarrow> seqR [
             masm_store arch r3 (at (- W)),
             whenR (arch = PPC32) [masm_store arch r4 (at 0)],
             pop 2]
         | T_FLOAT \<Rightarrow> seqR [asm_stfs f1 (at 0), pop 1]
         | T_DOUBLE \<Rightarrow> seqR [asm_stfd f1 (at (- W)), pop 2]
         | T_OBJECT \<Rightarrow> seqR [masm_verify_oop vm r3 ''broken oop'', masm_store arch r3 (at 0), pop 1]
         | _ \<Rightarrow> (\<lambda>s. Inl ShouldNotReachHere))"

definition generate_tosca_to_stack_converter ::
  "arch \<Rightarrow> ('w::len word, 'x) cpp_externals_scheme \<Rightarrow> BasicType \<Rightarrow> 'w word asm \<Rightarrow> ('w word \<times> 'w word asm) result" where
  "generate_tosca_to_stack_converter arch vm type = from_here (seqR [tosca_to_stack_code arch vm type, asm_blr])"

definition stack_to_stack_code ::
  "arch \<Rightarrow> ('w::len word, 'x) cpp_externals_scheme \<Rightarrow> BasicType \<Rightarrow> 'w word emitter" where
  "stack_to_stack_code arch vm type =
     (let stack = r3; at = mk_Address Rlocals; W = wordSize arch;
          pop = (\<lambda>n. asm_subi Rlocals Rlocals (word_of_int (W * n)));
          load_stack = masm_load_A arch stack (STATE vm S_stack);
          word = seqR [load_stack, asm_lwz r0 (mk_Address stack W), asm_stw r0 (at 0), pop 1];
          two_words = seqR [
            load_stack,
            masm_load_A arch r0 (mk_Address stack W),
            masm_store arch r0 (at (- W)),
            whenR (arch = PPC32) [masm_load_A arch r0 (mk_Address stack (W * 2)), masm_store arch r0 (at 0)],
            pop 2]
      in case type of
           T_VOID \<Rightarrow> seqR []
         | T_BOOLEAN \<Rightarrow> word | T_CHAR \<Rightarrow> word | T_BYTE \<Rightarrow> word | T_SHORT \<Rightarrow> word | T_INT \<Rightarrow> word
         | T_FLOAT \<Rightarrow> word
         | T_LONG \<Rightarrow> two_words
         | T_DOUBLE \<Rightarrow> two_words
         | T_OBJECT \<Rightarrow> seqR [
             load_stack,
             masm_load_A arch r0 (mk_Address stack W),
             masm_verify_oop vm r0 ''broken oop'',
             masm_store arch r0 (at 0),
             pop 1]
         | _ \<Rightarrow> (\<lambda>s. Inl ShouldNotReachHere))"

definition generate_stack_to_stack_converter ::
  "arch \<Rightarrow> ('w::len word, 'x) cpp_externals_scheme \<Rightarrow> BasicType \<Rightarrow> 'w word asm \<Rightarrow> ('w word \<times> 'w word asm) result" where
  "generate_stack_to_stack_converter arch vm type = from_here (seqR [stack_to_stack_code arch vm type, asm_blr])"

definition stack_to_native_abi_code ::
  "arch \<Rightarrow> ('w::len word, 'x) cpp_externals_scheme \<Rightarrow> BasicType \<Rightarrow> 'w word emitter" where
  "stack_to_native_abi_code arch vm type =
     (let stack = r5; W = wordSize arch; at = mk_Address stack;
          load_stack = masm_load_A arch stack (STATE vm S_stack);
          word = seqR [load_stack, masm_lwa arch r3 (at W)]
      in case type of
           T_VOID \<Rightarrow> seqR []
         | T_BOOLEAN \<Rightarrow> word | T_CHAR \<Rightarrow> word | T_BYTE \<Rightarrow> word | T_SHORT \<Rightarrow> word | T_INT \<Rightarrow> word
         | T_LONG \<Rightarrow> seqR [
             load_stack,
             masm_load_A arch r3 (at W),
             whenR (arch = PPC32) [masm_load_A arch r4 (at (W * 2))]]
         | T_FLOAT \<Rightarrow> seqR [load_stack, asm_lfs f1 (at W)]
         | T_DOUBLE \<Rightarrow> seqR [load_stack, asm_lfd f1 (at W)]
         | T_OBJECT \<Rightarrow> seqR [load_stack, masm_load_A arch r3 (at W), masm_verify_oop vm r3 ''broken oop'']
         | _ \<Rightarrow> (\<lambda>s. Inl ShouldNotReachHere))"

definition generate_stack_to_native_abi_converter ::
  "arch \<Rightarrow> ('w::len word, 'x) cpp_externals_scheme \<Rightarrow> BasicType \<Rightarrow> 'w word asm \<Rightarrow> ('w word \<times> 'w word asm) result" where
  "generate_stack_to_native_abi_converter arch vm type =
     from_here (seqR [stack_to_native_abi_code arch vm type, asm_blr])"

definition generate_convert_result ::
  "arch \<Rightarrow> ('w::len word, 'x) cpp_externals_scheme \<Rightarrow> int \<Rightarrow> 'w word emitter" where
  "generate_convert_result arch vm converter_array = seqR [
     masm_load arch r5 converter_array,
     asm_lwz r0 (mk_Address Rmethod (result_index_offset vm)),
     masm_shift_left arch r0 r0 (word_of_int (LogBytesPerWord arch)),
     masm_load_indexed arch r0 r5 r0,
     asm_mtctr r0,
     asm_bctrl]"

section \<open>Entries that need no frame\<close>

text \<open>A block of the debug build: a comparison and a branch around a report.\<close>

definition debug_check ::
  "arch \<Rightarrow> ('w::len word, 'x) cpp_externals_scheme \<Rightarrow> int \<Rightarrow> (nat \<Rightarrow> 'w word emitter) \<Rightarrow> 'w word emitter list \<Rightarrow>
    'w word emitter" where
  "debug_check arch vm line br comparison = with_label (\<lambda>ok. seqR (comparison @ [
     br ok,
     masm_should_not_reach_here arch vm (cppInterpreter_file vm) line,
     asm_bind ok]))"

text \<open>Branch to the slow path if a safepoint is in progress.\<close>

definition safepoint_check ::
  "arch \<Rightarrow> ('w::len word, 'x) cpp_externals_scheme \<Rightarrow> nat \<Rightarrow> 'w word emitter" where
  "safepoint_check arch vm slow_path = seqR [
     masm_load arch r3 (safepoint_state_address vm),
     masm_load_A arch r0 (mk_Address r3 0),
     masm_compare_i arch r0 (safepoint_not_synchronized vm),
     asm_bne slow_path]"

text \<open>\<open>slow_path\<close> is the static label \<^verbatim>\<open>fast_accessor_slow_entry_path\<close>; the address 0 is \<^verbatim>\<open>NULL\<close>.\<close>

definition generate_empty_entry ::
  "arch \<Rightarrow> ('w::len word, 'x) cpp_externals_scheme \<Rightarrow> nat \<Rightarrow> 'w word asm \<Rightarrow> ('w word \<times> 'w word asm) result" where
  "generate_empty_entry arch vm slow_path s =
     (if \<not> UseFastEmptyMethods vm then Inr (0, s)
      else from_here (seqR [safepoint_check arch vm slow_path, asm_blr]) s)"

definition accessor_load_code :: "arch \<Rightarrow> ('w::len word, 'x) cpp_externals_scheme \<Rightarrow> 'w word emitter" where
  "accessor_load_code arch vm =
     (let object = r4; ofs = r7; type = r8
      in with_label (\<lambda>is_object. with_label (\<lambda>is_int. with_label (\<lambda>is_byte.
         with_label (\<lambda>is_short. with_label (\<lambda>is_char. seqR [
           masm_compare_i arch type (tos_state vm T_OBJECT),
           asm_beq is_object,
           masm_compare_i arch type (tos_state vm T_INT),
           asm_beq is_int,
           masm_compare_i arch type (tos_state vm T_BYTE),
           asm_beq is_byte,
           masm_compare_i arch type (tos_state vm T_SHORT),
           asm_beq is_short,
           masm_compare_i arch type (tos_state vm T_CHAR),
           asm_beq is_char,
           masm_load arch r3 (unknown_type_literal vm),
           asm_mr r4 type,
           masm_call arch (printf_entry vm),
           masm_should_not_reach_here arch vm (cppInterpreter_file vm) 458,
           asm_bind is_object,
           masm_load_indexed arch r3 object ofs,
           asm_blr,
           asm_bind is_int,
           masm_lwax arch r3 object ofs,
           asm_blr,
           asm_bind is_byte,
           masm_lbax r3 object ofs,
           asm_blr,
           asm_bind is_short,
           masm_lhax r3 object ofs,
           asm_blr,
           asm_bind is_char,
           asm_lhzx r3 object ofs,
           asm_blr]))))))"

definition generate_accessor_entry ::
  "arch \<Rightarrow> ('w::len word, 'x) cpp_externals_scheme \<Rightarrow> nat \<Rightarrow> 'w word asm \<Rightarrow> ('w word \<times> 'w word asm) result" where
  "generate_accessor_entry arch vm slow_path s =
     (if \<not> UseFastAccessorMethods vm then Inr (0, s)
      else let object = r4; index = r5; entry = r6; ofs = r7; type = r8
      in from_here (seqR [
           safepoint_check arch vm slow_path,
           masm_load_A arch object (mk_Address Rlocals 0),
           masm_compare_i arch object 0,
           asm_beq slow_path,
           masm_load_A arch index (mk_Address Rmethod (const_offset vm)),
           asm_lwz index (mk_Address index (codes_offset vm)),
           debug_check arch vm 408 asm_beq [
             masm_shift_right arch r0 index 16,
             masm_compare_i arch r0 (push_bit 8 (bytecode_aload_0 vm) OR bytecode_getfield vm)],
           asm_andi_rc index index 0xffff,
           masm_load_A arch entry (mk_Address Rmethod (constants_offset vm)),
           masm_load_A arch entry (mk_Address entry (cache_offset_in_bytes vm)),
           asm_la entry (mk_Address entry (cache_base_offset vm)),
           masm_shift_left arch r0 index (cache_entry_log2 vm + word_of_int (LogBytesPerWord arch)),
           asm_add entry entry r0,
           masm_load_A arch r0 (mk_Address entry (indices_offset vm)),
           masm_shift_right arch r0 r0 16,
           asm_andi_rc r0 r0 0xff,
           masm_compare_i arch r0 (bytecode_getfield vm),
           asm_bne slow_path,
           masm_load_A arch ofs (mk_Address entry (f2_offset vm)),
           masm_load_A arch type (mk_Address entry (flags_offset vm)),
           masm_shift_right arch type type (tosBits vm),
           accessor_load_code arch vm]) s)"

section \<open>Interpreter frames\<close>

text \<open>
  \<^verbatim>\<open>generate_adjust_callers_stack\<close>: extend the frame of the caller for the local variables that
  are not parameters, and zero them.
\<close>

definition generate_adjust_callers_stack ::
  "arch \<Rightarrow> ('w::len word, 'x) cpp_externals_scheme \<Rightarrow> 'w word emitter" where
  "generate_adjust_callers_stack arch vm =
     (let frame_header_size = unaligned_size arch (new_StackFrame 0) + slop_factor arch;
          param_words = r3; local_words = r4; required_bytes = r5; available_bytes = r6; dst = r7
      in with_label (\<lambda>loop. with_label (\<lambda>done. seqR [
           asm_lhz param_words (mk_Address Rmethod (size_of_parameters_offset vm)),
           asm_lhz local_words (mk_Address Rmethod (size_of_locals_offset vm)),
           masm_compare arch param_words local_words,
           asm_beq done,
           masm_shift_left arch required_bytes local_words (word_of_int (LogBytesPerWord arch)),
           asm_sub available_bytes Rlocals r1,
           asm_subi available_bytes available_bytes (word_of_int frame_header_size),
           masm_maybe_extend_frame arch required_bytes available_bytes,
           masm_shift_left arch dst param_words (word_of_int (LogBytesPerWord arch)),
           asm_sub dst Rlocals dst,
           asm_sub r0 local_words param_words,
           asm_mtctr r0,
           masm_load arch r0 0,
           asm_bind loop,
           masm_store arch r0 (mk_Address dst 0),
           asm_subi dst dst (word_of_int (wordSize arch)),
           asm_bdnz loop,
           asm_bind done])))"

text \<open>
  \<^verbatim>\<open>generate_compute_interpreter_state\<close>. The blocks between its branches have names of their
  own: the flags of the method, the size of the frame, the frame and the addresses in it, the
  fields of the interpreter state.
\<close>

definition basic_frame_size :: "arch \<Rightarrow> ('w::len word, 'x) cpp_externals_scheme \<Rightarrow> int" where
  "basic_frame_size arch vm =
     unaligned_size arch (new_StackFrame 0) + sizeof_BytecodeInterpreter vm + slop_factor arch"

definition monitor_size :: "arch \<Rightarrow> ('w::len word, 'x) cpp_externals_scheme \<Rightarrow> int" where
  "monitor_size arch vm = monitor_words vm * wordSize arch"

definition interp_flags_code ::
  "arch \<Rightarrow> ('w::len word, 'x) cpp_externals_scheme \<Rightarrow> 'w word emitter list" where
  "interp_flags_code arch vm =
     (let access_flags = r3 in [
        asm_lwz access_flags (mk_Address Rmethod (access_flags_offset vm)),
        asm_andi_rc r0 access_flags (acc_SYNCHRONIZED vm),
        masm_compare_cr_i arch CRsync r0 (acc_SYNCHRONIZED vm),
        asm_andi_rc r0 access_flags (acc_STATIC vm),
        masm_compare_cr_i arch CRstatic r0 (acc_STATIC vm)])"

definition interp_stack_size_code ::
  "arch \<Rightarrow> ('w::len word, 'x) cpp_externals_scheme \<Rightarrow> bool \<Rightarrow> 'w word emitter list" where
  "interp_stack_size_code arch vm is_native =
     (let stack_size = r3; frame_size = r4
      in if is_native then [masm_load arch frame_size (basic_frame_size arch vm)]
         else [asm_lhz stack_size (mk_Address Rmethod (max_stack_offset vm)),
               masm_shift_left arch stack_size stack_size (word_of_int (LogBytesPerWord arch)),
               asm_addi frame_size stack_size (word_of_int (basic_frame_size arch vm))])"

definition interp_frame_code :: "arch \<Rightarrow> bool \<Rightarrow> 'a emitter list" where
  "interp_frame_code arch is_native =
     (let stack_size = r3; frame_size = r4; padding = r5; stack_limit = r6; stack = r7;
          stack_base = Rmonitor; monitor_base = r8
      in [masm_calc_padding_for_alignment padding frame_size (word_of_int StackAlignmentInBytes),
          asm_add frame_size frame_size padding,
          asm_mflr r0,
          masm_store arch r0 (mk_Address r1 (lr_save_offset arch * wordSize arch)),
          asm_neg r0 frame_size,
          masm_store_update_indexed arch r1 r1 r0,
          asm_addi stack_limit r1
            (word_of_int (start_of_locals arch (new_StackFrame 0) + slop_factor arch - wordSize arch)),
          asm_add stack_limit stack_limit padding,
          (if is_native then asm_mr stack stack_limit else asm_add stack stack_limit stack_size),
          asm_addi stack_base stack (word_of_int (wordSize arch)),
          asm_mr monitor_base stack_base])"

definition interp_fields_code ::
  "arch \<Rightarrow> ('w::len word, 'x) cpp_externals_scheme \<Rightarrow> 'w word emitter list" where
  "interp_fields_code arch vm =
     (let stack_limit = r6; stack = r7; stack_base = Rmonitor; monitor_base = r8 in [
        asm_mr r0 Rstate,
        asm_mr Rstate monitor_base,
        masm_store arch Rlocals (STATE vm S_locals),
        masm_store arch Rmethod (STATE vm S_method),
        masm_store arch Rstate (STATE vm S_self_link),
        masm_store arch r0 (STATE vm S_prev_link),
        masm_store arch stack_limit (STATE vm S_stack_limit),
        masm_store arch stack (STATE vm S_stack),
        masm_store arch stack_base (STATE vm S_stack_base),
        masm_store arch monitor_base (STATE vm S_monitor_base),
        masm_store arch Rthread (STATE vm S_thread)])"

definition interp_other_fields_code ::
  "arch \<Rightarrow> ('w::len word, 'x) cpp_externals_scheme \<Rightarrow> bool \<Rightarrow> 'w word emitter list" where
  "interp_other_fields_code arch vm is_native =
     [debug_check arch vm 1167 asm_beq [
        masm_load arch r3 (thread_index vm),
        masm_call arch (pthread_getspecific_entry vm),
        masm_compare arch Rthread r3]] @
     (if is_native then [] else [
        masm_load_A arch r3 (mk_Address Rmethod (const_offset vm)),
        asm_addi r3 r3 (word_of_int (codes_offset vm)),
        masm_store arch r3 (STATE vm S_bcp)]) @
     [masm_load_A arch r3 (mk_Address Rmethod (constants_offset vm)),
      masm_load_A arch r3 (mk_Address r3 (cache_offset_in_bytes vm)),
      masm_store arch r3 (STATE vm S_constants),
      masm_load arch r3 (msg_method_entry vm),
      asm_stw r3 (STATE vm S_msg),
      masm_load arch r3 0] @
     (if is_native then [masm_store arch r3 (STATE vm S_bcp)] else []) @
     [masm_store arch r3 (STATE vm S_oop_temp),
      masm_store arch r3 (STATE vm S_mdx),
      masm_store arch r3 (STATE vm S_callee)]"

definition generate_compute_interpreter_state ::
  "arch \<Rightarrow> ('w::len word, 'x) cpp_externals_scheme \<Rightarrow> bool \<Rightarrow> 'w word emitter" where
  "generate_compute_interpreter_state arch vm is_native =
     (let frame_size = r4; monitor_base = r8 in
      with_label (\<lambda>not_synchronized_1. with_label (\<lambda>not_synchronized_2. with_label (\<lambda>not_synchronized_3.
      with_label (\<lambda>not_static. with_label (\<lambda>init_monitor. seqR (
        interp_flags_code arch vm @
        interp_stack_size_code arch vm is_native @
        [asm_bne_cr CRsync not_synchronized_1,
         asm_addi frame_size frame_size (word_of_int (monitor_size arch vm)),
         asm_bind not_synchronized_1] @
        interp_frame_code arch is_native @
        [asm_bne_cr CRsync not_synchronized_2,
         asm_addi monitor_base monitor_base (word_of_int (monitor_size arch vm)),
         asm_bind not_synchronized_2] @
        interp_fields_code arch vm @
        interp_other_fields_code arch vm is_native @
        [asm_bne_cr CRsync not_synchronized_3,
         asm_bne_cr CRstatic not_static,
         masm_get_mirror_handle arch vm r3,
         asm_b_label init_monitor,
         asm_bind not_static,
         masm_load_A arch r3 (mk_Address Rlocals 0),
         asm_bind init_monitor,
         masm_store arch r3 (mk_Address Rmonitor (obj_offset_in_bytes vm)),
         asm_bind not_synchronized_3])))))))"

text \<open>Make room for another monitor between the expression stack and the monitors.\<close>

definition move_pointer :: "arch \<Rightarrow> ('w::len word, 'x) cpp_externals_scheme \<Rightarrow> state_field \<Rightarrow> 'w word emitter list" where
  "move_pointer arch vm field =
     (let tmp = r3 in [
        masm_load_A arch tmp (STATE vm field),
        asm_subi tmp tmp (word_of_int (monitor_size arch vm)),
        masm_store arch tmp (STATE vm field)])"

definition generate_more_monitors ::
  "arch \<Rightarrow> ('w::len word, 'x) cpp_externals_scheme \<Rightarrow> 'w word emitter" where
  "generate_more_monitors arch vm =
     (let frame_header_size = unaligned_size arch (new_StackFrame 0) + slop_factor arch;
          required_bytes = r3; available_bytes = r4; src = r3; end' = r4; dst = r5; tmp = r3
      in with_label (\<lambda>loop_start. with_label (\<lambda>loop_test. seqR ([
           masm_load arch required_bytes (frame_header_size + monitor_size arch vm),
           masm_load_A arch available_bytes (STATE vm S_stack_limit),
           asm_addi available_bytes available_bytes (word_of_int (wordSize arch)),
           asm_sub available_bytes available_bytes r1,
           masm_maybe_extend_frame arch required_bytes available_bytes,
           masm_load_A arch src (STATE vm S_stack),
           asm_addi src src (word_of_int (wordSize arch)),
           masm_load_A arch end' (STATE vm S_stack_base),
           asm_subi dst src (word_of_int (monitor_size arch vm)),
           asm_b_label loop_test,
           asm_bind loop_start,
           masm_load_A arch r0 (mk_Address src 0),
           masm_store arch r0 (mk_Address dst 0),
           asm_addi src src (word_of_int (wordSize arch)),
           asm_addi dst dst (word_of_int (wordSize arch)),
           asm_bind loop_test,
           masm_compare arch src end',
           asm_blt loop_start] @
           move_pointer arch vm S_stack_limit @
           move_pointer arch vm S_stack @
           move_pointer arch vm S_stack_base @
           [masm_load arch r0 0,
           masm_store arch r0 (mk_Address tmp (obj_offset_in_bytes vm))]))))"

definition generate_unwind_interpreter_state ::
  "arch \<Rightarrow> ('w::len word, 'x) cpp_externals_scheme \<Rightarrow> 'w word emitter" where
  "generate_unwind_interpreter_state arch vm = seqR [
     masm_load_A arch Rstate (STATE vm S_prev_link),
     masm_load_A arch r1 (mk_Address r1 (back_chain_offset * wordSize arch)),
     masm_load_A arch r0 (mk_Address r1 (lr_save_offset arch * wordSize arch)),
     asm_mtlr r0]"

text \<open>
  \<^verbatim>\<open>size_top_interpreter_activation\<close>: the words an interpreted method takes on the stack.
  \<^verbatim>\<open>round_to\<close> of the shared code is an argument.
\<close>

definition size_top_interpreter_activation ::
  "arch \<Rightarrow> ('w::len word, 'x) cpp_externals_scheme \<Rightarrow> 'a StubRoutines \<Rightarrow> (int \<Rightarrow> int \<Rightarrow> int) \<Rightarrow>
    int \<Rightarrow> int \<Rightarrow> bool \<Rightarrow> int result" where
  "size_top_interpreter_activation arch vm g round_to max_locals max_stack is_synchronized =
     bindR (call_stub_base_size g) (\<lambda>base.
     let call_stub_frame = round_to (base + max_locals * wordSize arch) StackAlignmentInBytes;
         interpreter_frame = round_to (unaligned_size arch (new_StackFrame 0) + slop_factor arch +
           max_stack * wordSize arch + (if is_synchronized then monitor_words vm * wordSize arch else 0) +
           sizeof_BytecodeInterpreter vm) StackAlignmentInBytes
     in Inr ((call_stub_frame + interpreter_frame) div wordSize arch))"

end
