(* ===== verification/FrameManager.thy ===== *)
theory FrameManager
  imports CppInterpreter
begin

text \<open>
  The entries of native and of ordinary methods (\<^verbatim>\<open>generate_native_entry\<close>,
  \<^verbatim>\<open>generate_normal_entry\<close>, \<^verbatim>\<open>generate_method_entry\<close> of \<^verbatim>\<open>cppInterpreter_CPU.cpp\<close>). The
  entries of native methods and of ordinary methods are generated once and then kept in the static variables
  \<^verbatim>\<open>native_entry\<close> and \<^verbatim>\<open>normal_entry\<close>, the record \<open>entry_cache\<close>.
\<close>

section \<open>Native methods\<close>

text \<open>Lock, find the handler and the function, and pass the arguments.\<close>

definition native_prepare_code ::
  "arch \<Rightarrow> ('w::len word, 'x) cpp_externals_scheme \<Rightarrow> nat \<Rightarrow> 'w word emitter" where
  "native_prepare_code arch vm return_to_caller =
     (let handler = r14; function = r15;
          signature_handler_addr = mk_Address Rmethod (signature_handler_offset vm);
          native_function_addr = mk_Address Rmethod (native_function_offset vm)
      in with_label (\<lambda>not_synchronized_1. with_label (\<lambda>got_signature_handler. with_label (\<lambda>got_function. seqR [
           asm_bne_cr CRsync not_synchronized_1,
           imasm_lock_object arch vm Rmonitor,
           asm_bind not_synchronized_1,
           masm_load_A arch handler signature_handler_addr,
           masm_compare_i arch handler 0,
           asm_bne got_signature_handler,
           imasm_call_VM_1 arch vm noreg (prepare_native_call_entry vm) Rmethod CALL_VM_NO_EXCEPTION_CHECKS,
           masm_load_A arch r0 (mk_Address Rthread (pending_exception_offset vm)),
           masm_compare_i arch r0 0,
           asm_bne return_to_caller,
           masm_load_A arch handler signature_handler_addr,
           asm_bind got_signature_handler,
           masm_load_A arch function native_function_addr,
           debug_check arch vm 561 asm_bne [masm_compare_i arch function 0],
           asm_mtctr handler,
           asm_bctrl,
           asm_mr handler r0]))))"

text \<open>The call itself, with the thread in the state for native code, and the way back.\<close>

definition native_call_code ::
  "arch \<Rightarrow> ('w::len word, 'x) cpp_externals_scheme \<Rightarrow> 'w word emitter" where
  "native_call_code arch vm =
     (let function = r15; r3_save = r16; r4_save = r17; f1_save = f14;
          thread_state_addr = mk_Address Rthread (thread_state_offset vm)
      in with_label (\<lambda>not_static. with_label (\<lambda>block. with_label (\<lambda>no_block. seqR ([
           asm_la r3 (mk_Address Rthread (jni_environment_offset vm)),
           asm_bne_cr CRstatic not_static,
           masm_get_mirror_handle arch vm r4,
           masm_store arch r4 (STATE vm S_oop_temp),
           asm_la r4 (STATE vm S_oop_temp),
           asm_bind not_static,
           imasm_set_last_Java_frame arch vm noreg,
           debug_check arch vm 596 asm_beq [
             asm_lwz r0 thread_state_addr,
             masm_compare_i arch r0 (thread_in_Java vm)],
           masm_load arch r0 (sint (thread_in_native vm)),
           asm_stw r0 thread_state_addr,
           masm_call_reg arch function,
           imasm_fixup_after_potential_safepoint arch vm,
           asm_mr r3_save r3,
           whenR (arch = PPC32) [asm_mr r4_save r4],
           asm_fmr f1_save f1,
           masm_load arch r0 (sint (thread_in_native_trans vm)),
           asm_stw r0 thread_state_addr,
           whenR (os_is_MP vm) [
             if UseMembar vm then asm_sync else masm_serialize_memory arch vm r3 r4],
           masm_load arch r3 (safepoint_state_address vm),
           asm_lwz r0 (mk_Address r3 0),
           masm_compare_i arch r0 (safepoint_not_synchronized vm),
           asm_bne block,
           asm_lwz r0 (mk_Address Rthread (suspend_flags_offset vm)),
           masm_compare_i arch r0 0,
           asm_beq no_block,
           asm_bind block,
           imasm_call_VM_leaf_base arch (check_special_condition_entry vm),
           imasm_fixup_after_potential_safepoint arch vm,
           asm_bind no_block,
           masm_load arch r0 (sint (thread_in_Java vm)),
           asm_stw r0 thread_state_addr,
           imasm_reset_last_Java_frame arch vm])))))"

text \<open>Unbox the result, unlock, and hand the result to its handler.\<close>

definition native_result_code ::
  "arch \<Rightarrow> ('w::len word, 'x) cpp_externals_scheme \<Rightarrow> nat \<Rightarrow> 'w word emitter" where
  "native_result_code arch vm return_to_caller =
     (let handler = r14; r3_save = r16; r4_save = r17; f1_save = f14
      in with_label (\<lambda>non_oop. with_label (\<lambda>store_oop. with_label (\<lambda>not_synchronized_2. seqR [
           masm_load arch r0 (object_result_handler vm),
           masm_compare arch r0 handler,
           asm_bne non_oop,
           masm_compare_i arch r3_save 0,
           asm_beq store_oop,
           masm_load_A arch r3_save (mk_Address r3_save 0),
           asm_bind store_oop,
           masm_store arch r3_save (STATE vm S_oop_temp),
           asm_bind non_oop,
           masm_load_A arch r3 (mk_Address Rthread (active_handles_offset vm)),
           masm_load arch r0 0,
           asm_stw r0 (mk_Address r3 (handle_top_offset_in_bytes vm)),
           masm_load_A arch r0 (mk_Address Rthread (pending_exception_offset vm)),
           masm_compare_i arch r0 0,
           asm_bne return_to_caller,
           asm_bne_cr CRsync not_synchronized_2,
           imasm_unlock_object arch vm Rmonitor,
           asm_bind not_synchronized_2,
           asm_mr r3 r3_save,
           whenR (arch = PPC32) [asm_mr r4 r4_save],
           asm_fmr f1 f1_save,
           asm_mtctr handler,
           asm_bctrl]))))"

definition native_entry_code :: "arch \<Rightarrow> ('w::len word, 'x) cpp_externals_scheme \<Rightarrow> 'w word emitter" where
  "native_entry_code arch vm = seqR [
    masm_load arch Rstate 0,
    generate_compute_interpreter_state arch vm True,
    debug_check arch vm 514 asm_beq [
      asm_lwz r0 (mk_Address Rmethod (access_flags_offset vm)),
      asm_andi_rc r0 r0 (acc_NATIVE vm OR acc_ABSTRACT vm),
      masm_compare_i arch r0 (acc_NATIVE vm)],
    with_label (\<lambda>return_to_caller. seqR [
      native_prepare_code arch vm return_to_caller,
      native_call_code arch vm,
      native_result_code arch vm return_to_caller,
      asm_bind return_to_caller,
      generate_unwind_interpreter_state arch vm,
      asm_blr])]"

definition generate_native_entry ::
  "arch \<Rightarrow> ('w::len word, 'x) cpp_externals_scheme \<Rightarrow> bool \<Rightarrow> 'w word entry_cache \<times> 'w word asm \<Rightarrow>
    ('w word \<times> 'w word entry_cache \<times> 'w word asm) result" where
  "generate_native_entry arch vm synchronized = (\<lambda>(c, s).
     let handler = r14; function = r15
     in asserted (distinct [Rmethod, Rlocals, Rthread, Rstate, Rmonitor, handler, function])
          ''registers must be different''
       (case native_entry c of
          Some a \<Rightarrow> Inr (a, c, s)
        | None \<Rightarrow> bindR (from_here (native_entry_code arch vm) s)
            (\<lambda>(start, s). Inr (start, c\<lparr>native_entry := Some start\<rparr>, s))))"

section \<open>Ordinary methods\<close>

text \<open>Calling the interpreter and reading its message.\<close>

definition call_interpreter_code ::
  "arch \<Rightarrow> ('w::len word, 'x) cpp_externals_scheme \<Rightarrow> nat \<Rightarrow> nat \<Rightarrow> nat \<Rightarrow> nat \<Rightarrow> 'w word emitter list" where
  "call_interpreter_code arch vm call_method return_from_method more_monitors throwing_exception = [
     imasm_set_last_Java_frame arch vm noreg,
     asm_mr r3 Rstate,
     masm_call arch (if can_post_interpreter_events vm then interpreter_runWithChecks vm else interpreter_run vm),
     imasm_fixup_after_potential_safepoint arch vm,
     imasm_reset_last_Java_frame arch vm,
     asm_lwz r4 (STATE vm S_msg),
     masm_compare_i arch r4 (msg_call_method vm),
     asm_beq call_method,
     masm_compare_i arch r4 (msg_return_from_method vm),
     asm_beq return_from_method,
     masm_compare_i arch r4 (msg_more_monitors vm),
     asm_beq more_monitors,
     masm_compare_i arch r4 (msg_throwing_exception vm),
     asm_beq throwing_exception,
     masm_load arch r3 (bad_message_literal vm),
     masm_call arch (printf_entry vm),
     masm_should_not_reach_here arch vm (cppInterpreter_file vm) 840]"

text \<open>The message \<^verbatim>\<open>call_method\<close>; \<open>start\<close> is the address of this entry.\<close>

definition call_method_code ::
  "arch \<Rightarrow> ('w::len word, 'x) cpp_externals_scheme \<Rightarrow> 'w word \<Rightarrow> nat \<Rightarrow> nat \<Rightarrow> nat \<Rightarrow> nat \<Rightarrow> 'w word emitter list" where
  "call_method_code arch vm start re_dispatch call_non_interpreted_method return_with_exception resume_interpreter = [
     masm_load_A arch Rmethod (STATE vm S_callee),
     masm_verify_oop vm Rmethod ''broken oop'',
     masm_load_A arch Rlocals (STATE vm S_stack),
     asm_lhz r0 (mk_Address Rmethod (size_of_parameters_offset vm)),
     masm_shift_left arch r0 r0 (word_of_int (LogBytesPerWord arch)),
     asm_add Rlocals Rlocals r0,
     masm_load_A arch r0 (STATE vm S_callee_entry_point),
     masm_load arch r3 (sint start),
     masm_compare arch r0 r3,
     asm_bne call_non_interpreted_method,
     masm_load arch r0 (sint (RecursiveInterpreterActivation vm)),
     asm_mtlr r0,
     asm_b_label re_dispatch,
     asm_bind call_non_interpreted_method,
     asm_mtctr r0,
     asm_bctrl,
     masm_load_A arch Rstate (mk_Address r1 (back_chain_offset * wordSize arch)),
     asm_subi Rstate Rstate (word_of_int (sizeof_BytecodeInterpreter vm)),
     masm_load_A arch r0 (mk_Address Rthread (pending_exception_offset vm)),
     masm_compare_i arch r0 0,
     asm_bne return_with_exception,
     generate_convert_result arch vm (tosca_to_stack_array vm),
     asm_b_label resume_interpreter]"

text \<open>The message \<^verbatim>\<open>return_from_method\<close>, and resuming the interpreter.\<close>

definition return_from_method_code ::
  "arch \<Rightarrow> ('w::len word, 'x) cpp_externals_scheme \<Rightarrow> nat \<Rightarrow> nat \<Rightarrow> nat \<Rightarrow> 'w word emitter list" where
  "return_from_method_code arch vm return_to_initial_caller resume_interpreter call_interpreter = [
     masm_load_A arch r0 (STATE vm S_prev_link),
     masm_compare_i arch r0 0,
     asm_beq return_to_initial_caller,
     generate_convert_result arch vm (stack_to_stack_array vm),
     generate_unwind_interpreter_state arch vm,
     asm_bind resume_interpreter,
     masm_store arch Rlocals (STATE vm S_stack),
     masm_load_A arch Rlocals (STATE vm S_locals),
     masm_load_A arch Rmethod (STATE vm S_method),
     masm_verify_oop vm Rmethod ''broken oop'',
     masm_load arch r0 (msg_method_resume vm),
     asm_stw r0 (STATE vm S_msg),
     asm_b_label call_interpreter,
     asm_bind return_to_initial_caller,
     generate_convert_result arch vm (stack_to_native_abi_array vm),
     generate_unwind_interpreter_state arch vm,
     asm_blr]"

definition normal_entry_code ::
  "arch \<Rightarrow> ('w::len word, 'x) cpp_externals_scheme \<Rightarrow> 'w word \<Rightarrow> nat \<Rightarrow> 'w word emitter" where
  "normal_entry_code arch vm start slow_path =
     with_label (\<lambda>re_dispatch. with_label (\<lambda>call_interpreter. with_label (\<lambda>call_method.
     with_label (\<lambda>call_non_interpreted_method. with_label (\<lambda>return_with_exception.
     with_label (\<lambda>return_from_method. with_label (\<lambda>resume_interpreter.
     with_label (\<lambda>return_to_initial_caller. with_label (\<lambda>more_monitors.
     with_label (\<lambda>throwing_exception. seqR ([
       asm_bind slow_path,
       masm_load arch Rstate 0,
       asm_bind re_dispatch,
       generate_adjust_callers_stack arch vm,
       generate_compute_interpreter_state arch vm False,
       asm_bind call_interpreter] @
       call_interpreter_code arch vm call_method return_from_method more_monitors throwing_exception @
       [asm_bind call_method] @
       call_method_code arch vm start re_dispatch call_non_interpreted_method return_with_exception resume_interpreter @
       [asm_bind return_from_method] @
       return_from_method_code arch vm return_to_initial_caller resume_interpreter call_interpreter @
       [asm_bind more_monitors,
       generate_more_monitors arch vm,
       masm_load arch r0 (msg_got_monitors vm),
       asm_stw r0 (STATE vm S_msg),
       asm_b_label call_interpreter,
       asm_bind throwing_exception,
       debug_check arch vm 929 asm_bne [
         masm_load_A arch r0 (mk_Address Rthread (pending_exception_offset vm)),
         masm_compare_i arch r0 0],
       generate_unwind_interpreter_state arch vm,
       asm_bind return_with_exception,
       masm_compare_i arch Rstate 0,
       asm_bne resume_interpreter,
       asm_blr])))))))))))"

definition generate_normal_entry ::
  "arch \<Rightarrow> ('w::len word, 'x) cpp_externals_scheme \<Rightarrow> nat \<Rightarrow> bool \<Rightarrow> 'w word entry_cache \<times> 'w word asm \<Rightarrow>
    ('w word \<times> 'w word entry_cache \<times> 'w word asm) result" where
  "generate_normal_entry arch vm slow_path synchronized = (\<lambda>(c, s).
     asserted (distinct [Rmethod, Rlocals, Rthread, Rstate, Rmonitor]) ''registers must be different''
       (case normal_entry c of
          Some a \<Rightarrow> Inr (a, c, s)
        | None \<Rightarrow> (let start = pc s in bindR (normal_entry_code arch vm start slow_path s)
            (\<lambda>s. Inr (start, c\<lparr>normal_entry := Some start\<rparr>, s)))))"

section \<open>The entry of a kind of method\<close>

definition keeping_cache ::
  "('a asm \<Rightarrow> ('a \<times> 'a asm) result) \<Rightarrow> 'a entry_cache \<times> 'a asm \<Rightarrow> ('a \<times> 'a entry_cache \<times> 'a asm) result" where
  "keeping_cache gen = (\<lambda>(c, s). bindR (gen s) (\<lambda>(a, s). Inr (a, c, s)))"

definition special_entry ::
  "arch \<Rightarrow> ('w::len word, 'x) cpp_externals_scheme \<Rightarrow> nat \<Rightarrow> MethodKind \<Rightarrow> 'w word entry_cache \<times> 'w word asm \<Rightarrow>
    ('w word \<times> 'w word entry_cache \<times> 'w word asm) result" where
  "special_entry arch vm slow_path kind = (case kind of
     zerolocals \<Rightarrow> (\<lambda>(c, s). Inr (0, c, s))
   | zerolocals_synchronized \<Rightarrow> (\<lambda>(c, s). Inr (0, c, s))
   | native \<Rightarrow> generate_native_entry arch vm False
   | native_synchronized \<Rightarrow> generate_native_entry arch vm False
   | empty \<Rightarrow> keeping_cache (generate_empty_entry arch vm slow_path)
   | accessor \<Rightarrow> keeping_cache (generate_accessor_entry arch vm slow_path)
   | abstract \<Rightarrow> keeping_cache (generate_abstract_entry arch vm)
   | number_of_method_entries \<Rightarrow> (\<lambda>_. Inl ShouldNotReachHere)
   | _ \<Rightarrow> keeping_cache (generate_math_entry arch vm kind))"

definition generate_method_entry ::
  "arch \<Rightarrow> ('w::len word, 'x) cpp_externals_scheme \<Rightarrow> nat \<Rightarrow> MethodKind \<Rightarrow> 'w word entry_cache \<times> 'w word asm \<Rightarrow>
    ('w word \<times> 'w word entry_cache \<times> 'w word asm) result" where
  "generate_method_entry arch vm slow_path kind st =
     bindR (special_entry arch vm slow_path kind st) (\<lambda>(entry_point, st).
       if entry_point \<noteq> 0 then Inr (entry_point, st)
       else generate_normal_entry arch vm slow_path False st)"

end
