(* ===== verification/RuntimeFrames.thy ===== *)
theory RuntimeFrames
  imports CppInterpreter
begin

text \<open>
  Walking the stack: the class \<^verbatim>\<open>frame\<close> (\<^verbatim>\<open>frame_CPU.hpp\<close>, \<^verbatim>\<open>frame_CPU.inline.hpp\<close>,
  \<^verbatim>\<open>frame_CPU.cpp\<close>), the anchor that marks the last Java frame of a thread
  (\<^verbatim>\<open>javaFrameAnchor_CPU.hpp\<close>, \<^verbatim>\<open>thread_linux_CPU.hpp\<close>), and the stacks and signals of
  \<^verbatim>\<open>os_linux_CPU.cpp\<close>. The memory is the one of \<open>BytesAccess\<close>, big-endian.
\<close>

section \<open>Frames\<close>

datatype deopt_state = deopt_unknown | not_deoptimized | is_deoptimized

record ('p, 'b) frame =
  frame_sp :: 'p
  frame_pc :: 'p
  frame_cb :: "'b option"
  frame_deopt :: deopt_state

text \<open>The code cache is shared code.\<close>

record ('p, 'b) code_cache =
  find_blob :: "'p \<Rightarrow> 'b option"
  is_nmethod :: "'b \<Rightarrow> bool"
  is_deopt_pc :: "'b \<Rightarrow> 'p \<Rightarrow> bool"
  get_original_pc :: "'b \<Rightarrow> ('p, 'b) frame \<Rightarrow> 'p"

definition empty_frame :: "('w::len word, 'b) frame" where
  "empty_frame = \<lparr>frame_sp = 0, frame_pc = 0, frame_cb = None, frame_deopt = deopt_unknown\<rparr>"

definition frame_of_sp_pc ::
  "('w::len word, 'b) code_cache \<Rightarrow> 'w word \<Rightarrow> 'w word \<Rightarrow> ('w word, 'b) frame result" where
  "frame_of_sp_pc cc p a =
     asserted (a \<noteq> 0) ''no pc?''
    (let f = \<lparr>frame_sp = p, frame_pc = a, frame_cb = find_blob cc a, frame_deopt = deopt_unknown\<rparr>
     in Inr (case find_blob cc a of
          Some b \<Rightarrow> (if is_nmethod cc b \<and> is_deopt_pc cc b a
            then f\<lparr>frame_pc := get_original_pc cc b f, frame_deopt := is_deoptimized\<rparr>
            else f\<lparr>frame_deopt := not_deoptimized\<rparr>)
        | None \<Rightarrow> f\<lparr>frame_deopt := not_deoptimized\<rparr>))"

definition frame_of_sp ::
  "arch \<Rightarrow> ('w::len word, 'b) code_cache \<Rightarrow> 'w mem \<Rightarrow> 'w word \<Rightarrow> ('w word, 'b) frame result" where
  "frame_of_sp arch cc m p = frame_of_sp_pc cc p (load_intptr arch m (p + words arch (lr_save_offset arch)))"

definition frame_fp :: "('w::len word, 'b) frame \<Rightarrow> 'w word" where
  "frame_fp f = frame_sp f"

definition sender_sp :: "arch \<Rightarrow> 'w::len mem \<Rightarrow> ('w word, 'b) frame \<Rightarrow> 'w word" where
  "sender_sp arch m f = load_intptr arch m (frame_sp f)"

definition frame_link :: "arch \<Rightarrow> 'w::len mem \<Rightarrow> ('w word, 'b) frame \<Rightarrow> 'w word" where
  "frame_link arch m f = sender_sp arch m f"

definition frame_id :: "('w::len word, 'b) frame \<Rightarrow> 'w word" where
  "frame_id f = frame_sp f"

definition get_interpreterState ::
  "arch \<Rightarrow> ('w::len word, 'x) cpp_externals_scheme \<Rightarrow> 'w mem \<Rightarrow> ('w word, 'b) frame \<Rightarrow> 'w word" where
  "get_interpreterState arch vm m f = sender_sp arch m f - word_of_int (sizeof_BytecodeInterpreter vm)"

definition is_interpreted_frame ::
  "('w::len word, 'x) cpp_externals_scheme \<Rightarrow> ('w word, 'b) frame \<Rightarrow> bool" where
  "is_interpreted_frame vm f = interpreter_contains vm (frame_pc f)"

text \<open>
  \<^verbatim>\<open>interpreter_frame_locals_addr\<close>, \<^verbatim>\<open>interpreter_frame_bcx_addr\<close> and so on: the address of a
  field of the interpreter state.
\<close>

definition interpreter_frame_field_addr ::
  "arch \<Rightarrow> ('w::len word, 'x) cpp_externals_scheme \<Rightarrow> 'w mem \<Rightarrow> state_field \<Rightarrow> ('w word, 'b) frame \<Rightarrow> 'w word result" where
  "interpreter_frame_field_addr arch vm m field f =
     asserted (is_interpreted_frame vm f) ''must be interpreted''
       (Inr (get_interpreterState arch vm m f + word_of_int (state_offset vm field)))"

definition state_value ::
  "arch \<Rightarrow> ('w::len word, 'x) cpp_externals_scheme \<Rightarrow> 'w mem \<Rightarrow> state_field \<Rightarrow> ('w word, 'b) frame \<Rightarrow> 'w word" where
  "state_value arch vm m field f =
     load_intptr arch m (get_interpreterState arch vm m f + word_of_int (state_offset vm field))"

definition interpreter_frame_tos_address ::
  "arch \<Rightarrow> ('w::len word, 'x) cpp_externals_scheme \<Rightarrow> 'w mem \<Rightarrow> ('w word, 'b) frame \<Rightarrow> 'w word result" where
  "interpreter_frame_tos_address arch vm m f =
     asserted (is_interpreted_frame vm f) ''must be interpreted''
       (Inr (state_value arch vm m S_stack f + words arch 1))"

text \<open>\<^verbatim>\<open>Interpreter::expr_offset_in_bytes\<close> is shared code; C++ division rounds towards zero.\<close>

definition interpreter_frame_tos_at ::
  "arch \<Rightarrow> ('w::len word, 'x) cpp_externals_scheme \<Rightarrow> (int \<Rightarrow> int) \<Rightarrow> 'w mem \<Rightarrow> ('w word, 'b) frame \<Rightarrow> int \<Rightarrow>
    'w word result" where
  "interpreter_frame_tos_at arch vm expr_offset_in_bytes m f n =
     bindR (interpreter_frame_tos_address arch vm m f) (\<lambda>a.
       Inr (a + words arch (expr_offset_in_bytes n sdiv wordSize arch)))"

definition interpreter_frame_monitor_begin ::
  "arch \<Rightarrow> ('w::len word, 'x) cpp_externals_scheme \<Rightarrow> 'w mem \<Rightarrow> ('w word, 'b) frame \<Rightarrow> 'w word" where
  "interpreter_frame_monitor_begin arch vm m f = state_value arch vm m S_monitor_base f"

definition interpreter_frame_monitor_end ::
  "arch \<Rightarrow> ('w::len word, 'x) cpp_externals_scheme \<Rightarrow> 'w mem \<Rightarrow> ('w word, 'b) frame \<Rightarrow> 'w word" where
  "interpreter_frame_monitor_end arch vm m f = state_value arch vm m S_stack_base f"

definition interpreter_frame_expression_stack ::
  "arch \<Rightarrow> ('w::len word, 'x) cpp_externals_scheme \<Rightarrow> 'w mem \<Rightarrow> ('w word, 'b) frame \<Rightarrow> 'w word" where
  "interpreter_frame_expression_stack arch vm m f = interpreter_frame_monitor_end arch vm m f - words arch 1"

definition interpreter_frame_expression_stack_direction :: int where
  "interpreter_frame_expression_stack_direction = - 1"

section \<open>Senders\<close>

record 'p JavaFrameAnchor =
  last_Java_sp :: 'p
  last_Java_pc :: 'p

record RegisterMap =
  include_argument_oops :: bool

text \<open>
  \<^verbatim>\<open>is_entry_frame\<close>, \<^verbatim>\<open>entry_frame_is_first\<close>, \<^verbatim>\<open>RegisterMap::clear\<close> and the anchor inside a
  \<^verbatim>\<open>JavaCallWrapper\<close> are shared code.
\<close>

record ('p, 'b) walker =
  is_entry_frame :: "('p, 'b) frame \<Rightarrow> bool"
  entry_frame_is_first :: "('p, 'b) frame \<Rightarrow> bool"
  wrapper_anchor :: "'p \<Rightarrow> 'p JavaFrameAnchor"
  map_clear :: "RegisterMap \<Rightarrow> RegisterMap"

definition entry_frame_call_wrapper ::
  "arch \<Rightarrow> 'w::len word StubRoutines \<Rightarrow> ('w word, 'b) walker \<Rightarrow> 'w mem \<Rightarrow> ('w word, 'b) frame \<Rightarrow> 'w word result" where
  "entry_frame_call_wrapper arch g k m f =
     asserted (is_entry_frame k f) ''must be an entry frame''
    (bindR (call_wrapper_offset g) (\<lambda>ofs.
       Inr (load_intptr arch m (sender_sp arch m f - word_of_int ofs))))"

definition sender_for_entry_frame ::
  "arch \<Rightarrow> 'w::len word StubRoutines \<Rightarrow> ('w word, 'b) walker \<Rightarrow> ('w word, 'b) code_cache \<Rightarrow> 'w mem \<Rightarrow>
    ('w word, 'b) frame \<Rightarrow> RegisterMap option \<Rightarrow> (('w word, 'b) frame \<times> RegisterMap) result" where
  "sender_for_entry_frame arch g k cc m f mp = (case mp of
     None \<Rightarrow> Inl (AssertFailed ''map must be set'')
   | Some mp \<Rightarrow>
       bindR (entry_frame_call_wrapper arch g k m f) (\<lambda>w.
       let jfa = wrapper_anchor k w; mp = map_clear k mp
       in asserted (\<not> entry_frame_is_first k f) ''next Java fp must be non zero''
         (asserted (frame_sp f < last_Java_sp jfa) ''must be above this frame on stack''
         (asserted (include_argument_oops mp) ''should be set by clear''
         (bindR (frame_of_sp_pc cc (last_Java_sp jfa) (last_Java_pc jfa)) (\<lambda>r. Inr (r, mp)))))))"

definition sender_for_interpreter_frame ::
  "arch \<Rightarrow> ('w::len word, 'b) code_cache \<Rightarrow> 'w mem \<Rightarrow> ('w word, 'b) frame \<Rightarrow> ('w word, 'b) frame result" where
  "sender_for_interpreter_frame arch cc m f = frame_of_sp arch cc m (sender_sp arch m f)"

definition frame_sender ::
  "arch \<Rightarrow> ('w::len word, 'x) cpp_externals_scheme \<Rightarrow> 'w word StubRoutines \<Rightarrow> ('w word, 'b) walker \<Rightarrow>
    ('w word, 'b) code_cache \<Rightarrow> 'w mem \<Rightarrow> ('w word, 'b) frame \<Rightarrow> RegisterMap \<Rightarrow>
    (('w word, 'b) frame \<times> RegisterMap) result" where
  "frame_sender arch vm g k cc m f mp =
     (let mp = mp\<lparr>include_argument_oops := False\<rparr>
      in if is_entry_frame k f then sender_for_entry_frame arch g k cc m f (Some mp)
         else if is_interpreted_frame vm f
         then bindR (sender_for_interpreter_frame arch cc m f) (\<lambda>r. Inr (r, mp))
         else Inl Unimplemented)"

section \<open>The anchor of the last Java frame\<close>

text \<open>
  The profiler may look at the anchor between any two of its stores, so an operation is the
  list of its stores.
\<close>

datatype 'p anchor_store = Store_sp 'p | Store_pc 'p

fun do_store :: "'p anchor_store \<Rightarrow> 'p JavaFrameAnchor \<Rightarrow> 'p JavaFrameAnchor" where
  "do_store (Store_sp x) a = a\<lparr>last_Java_sp := x\<rparr>"
| "do_store (Store_pc x) a = a\<lparr>last_Java_pc := x\<rparr>"

definition anchor_clear :: "'w::len word anchor_store list" where
  "anchor_clear = [Store_sp 0, Store_pc 0]"

definition anchor_copy :: "'w::len word JavaFrameAnchor \<Rightarrow> 'w word JavaFrameAnchor \<Rightarrow> 'w word anchor_store list" where
  "anchor_copy src a =
     (if last_Java_sp a \<noteq> last_Java_sp src then [Store_sp 0] else []) @
     [Store_pc (last_Java_pc src), Store_sp (last_Java_sp src)]"

definition anchor_walkable :: "'w::len word JavaFrameAnchor \<Rightarrow> bool" where
  "anchor_walkable a = True"

definition pd_initialize :: "'w::len word JavaFrameAnchor \<Rightarrow> 'w word JavaFrameAnchor" where
  "pd_initialize a = fold do_store anchor_clear a"

definition pd_last_frame ::
  "arch \<Rightarrow> ('w::len word, 'b) code_cache \<Rightarrow> 'w mem \<Rightarrow> bool \<Rightarrow> 'w word JavaFrameAnchor \<Rightarrow> ('w word, 'b) frame result" where
  "pd_last_frame arch cc m has_last_Java_frame a =
     asserted has_last_Java_frame ''must have last_Java_sp() when suspended''
       (if last_Java_pc a \<noteq> 0 then frame_of_sp_pc cc (last_Java_sp a) (last_Java_pc a)
        else frame_of_sp arch cc m (last_Java_sp a))"

section \<open>The operating system layer\<close>

definition os_get_sender_for_C_frame ::
  "arch \<Rightarrow> ('w::len word, 'b) code_cache \<Rightarrow> 'w mem \<Rightarrow> ('w word, 'b) frame \<Rightarrow> ('w word, 'b) frame result" where
  "os_get_sender_for_C_frame arch cc m f = frame_of_sp arch cc m (sender_sp arch m f)"

text \<open>\<^verbatim>\<open>current_stack_pointer\<close> returns the word register 1 points at: the caller's frame.\<close>

definition os_current_stack_pointer :: "arch \<Rightarrow> 'w::len mem \<Rightarrow> 'w word \<Rightarrow> 'w word" where
  "os_current_stack_pointer arch m reg1 = load_intptr arch m reg1"

definition os_current_frame ::
  "arch \<Rightarrow> ('w::len word, 'b) code_cache \<Rightarrow> 'w mem \<Rightarrow> 'w word \<Rightarrow> ('w word, 'b) frame result" where
  "os_current_frame arch cc m reg1 =
     bindR (frame_of_sp arch cc m (os_current_stack_pointer arch m reg1)) (os_get_sender_for_C_frame arch cc m)"

definition os_non_memory_address_word :: "'w::len word" where
  "os_non_memory_address_word = - 1"

datatype ThreadType = vm_thread | cgc_thread | pgc_thread | java_thread | compiler_thread | watcher_thread | os_thread

definition default_stack_size :: "arch \<Rightarrow> ThreadType \<Rightarrow> nat" where
  "default_stack_size arch thr_type = (case arch of
     PPC64 \<Rightarrow> if thr_type = compiler_thread then 4 * 1048576 else 1 * 1048576
   | PPC32 \<Rightarrow> if thr_type = compiler_thread then 2 * 1048576 else 512 * 1024)"

definition default_guard_size :: "nat \<Rightarrow> ThreadType \<Rightarrow> nat" where
  "default_guard_size page_size thr_type = (if thr_type = java_thread then 0 else page_size)"

text \<open>
  \<^verbatim>\<open>current_stack_region\<close>; the thread library is a parameter: the error number of
  \<^verbatim>\<open>pthread_getattr_np\<close> and what \<^verbatim>\<open>pthread_attr_getstack\<close> returns.
\<close>

record 'p pthread =
  is_initial_thread :: bool
  initial_thread_stack_bottom :: 'p
  initial_thread_stack_size :: 'p
  getattr_errno :: int
  errno_ENOMEM :: int
  attr_getstack :: "('p \<times> 'p) option"

definition current_stack_region :: "'w::len word pthread \<Rightarrow> 'w word \<Rightarrow> ('w word \<times> 'w word) result" where
  "current_stack_region th stack_pointer =
     bindR (if is_initial_thread th
            then Inr (initial_thread_stack_bottom th, initial_thread_stack_size th)
            else if getattr_errno th \<noteq> 0
            then (if getattr_errno th = errno_ENOMEM th then Inl (FatalError ''out of memory: pthread_getattr_np'')
                  else Inl (FatalError ''pthread_getattr_np failed''))
            else (case attr_getstack th of
                None \<Rightarrow> Inl (FatalError ''Can not locate current stack attributes!'')
              | Some r \<Rightarrow> Inr r)) (\<lambda>(bottom, bytes).
       asserted (bottom \<le> stack_pointer \<and> stack_pointer < bottom + bytes) ''just checking'' (Inr (bottom, bytes)))"

definition current_stack_base :: "'w::len word pthread \<Rightarrow> 'w word \<Rightarrow> 'w word result" where
  "current_stack_base th stack_pointer =
     bindR (current_stack_region th stack_pointer) (\<lambda>(bottom, bytes). Inr (bottom + bytes))"

definition current_stack_size :: "'w::len word pthread \<Rightarrow> 'w word \<Rightarrow> 'w word result" where
  "current_stack_size th stack_pointer =
     bindR (current_stack_region th stack_pointer) (\<lambda>(bottom, bytes). Inr bytes)"

text \<open>
  The signal handler. \<open>None\<close> as \<open>info\<close> is a null pointer; the effects are the calls into shared
  code in their order.
\<close>

datatype signal = SIGPIPE | SIGXFSZ | SIGSEGV | other_signal int

datatype thread_kind = java_kind | vm_kind | other_kind

datatype signal_effect = call_chained_handler | print_warning | block_on_serialize_page_trap

record 'p signal_externals =
  chained_handler_accepts :: bool
  print_ignored :: bool
  signal_handlers_are_installed :: bool
  is_memory_serialize_page :: "'p \<Rightarrow> bool"

definition JVM_handle_linux_signal ::
  "'p signal_externals \<Rightarrow> thread_kind option \<Rightarrow> signal \<Rightarrow> 'p option \<Rightarrow> (signal_effect list \<times> bool) result" where
  "JVM_handle_linux_signal sx t sig info =
     (if sig = SIGPIPE \<or> sig = SIGXFSZ then
        (if chained_handler_accepts sx then Inr ([call_chained_handler], True)
         else Inr ([call_chained_handler] @ (if print_ignored sx then [print_warning] else []), True))
      else
        let is_java = signal_handlers_are_installed sx \<and> t = Some java_kind
        in if is_java \<and> sig = SIGSEGV \<and> (case info of None \<Rightarrow> False | Some a \<Rightarrow> is_memory_serialize_page sx a)
           then Inr ([block_on_serialize_page_trap], True)
           else Inl (FatalError ''caught unhandled signal''))"

text \<open>C11. Whoever looks at an anchor between two stores of \<^verbatim>\<open>clear\<close> or \<^verbatim>\<open>copy\<close> sees no frame, the old frame,
  or the new one, never the stack pointer of one with the program counter of the other.\<close>

theorem anchor_always_valid:
  fixes a src :: "'w::len word JavaFrameAnchor"
  shows "(let b = fold do_store (take n (anchor_copy src a)) a in last_Java_sp b = 0 \<or> b = a \<or> b = src) \<and>
    (let b = fold do_store (take n anchor_clear) a in last_Java_sp b = 0 \<or> b = a)"
proof -
  have "n = 0 \<or> n = 1 \<or> n = 2 \<or> 3 \<le> n" by linarith
  then show ?thesis
    by (cases a; cases src) (auto simp: anchor_copy_def anchor_clear_def Let_def take_Cons' numeral_eq_Suc)
qed

end
