(* ===== verification/JavaArguments.thy ===== *)
theory JavaArguments
  imports StubGenerator
begin

text \<open>
  Arguments on their way from C++ to Java: \<^verbatim>\<open>JNITypes\<close> (\<^verbatim>\<open>jniTypes_CPU.hpp\<close>) writes them into
  an array of words, the call stub copies the array downwards, and the interpreter reads its
  locals and its expression stack with the macros of \<^verbatim>\<open>bytecodeInterpreter_CPU.hpp\<close>. The
  machine is big-endian; floating point values are their bits. An array is the address \<open>to\<close> of
  its first word and the position \<open>pos\<close> in words, which the operations return advanced.
\<close>

section \<open>JNITypes\<close>

definition slot :: "arch \<Rightarrow> 'w::len word \<Rightarrow> int \<Rightarrow> 'w word" where
  "slot arch to i = to + words arch i"

text \<open>The two halves of a 64-bit value in memory, \<^verbatim>\<open>from[0]\<close> and \<^verbatim>\<open>from[1]\<close>.\<close>

definition halves :: "u8 \<Rightarrow> u4 \<times> u4" where
  "halves x = (ucast (drop_bit 32 x), ucast x)"

definition put_int2 :: "arch \<Rightarrow> u4 \<times> u4 \<Rightarrow> 'w::len word \<Rightarrow> int \<times> 'w mem \<Rightarrow> int \<times> 'w mem" where
  "put_int2 arch = (\<lambda>(x0, x1) to (pos, m). let a = slot arch to pos
     in (pos + 2, store_u4 False (store_u4 False m a x0) (a + 4) x1))"

definition put_int2r :: "arch \<Rightarrow> u4 \<times> u4 \<Rightarrow> 'w::len word \<Rightarrow> int \<times> 'w mem \<Rightarrow> int \<times> 'w mem" where
  "put_int2r arch = (\<lambda>(x0, x1) to (pos, m). let a = slot arch to pos
     in (pos + 2, store_u4 False (store_u4 False m a x1) (a + 4) x0))"

definition put_int :: "arch \<Rightarrow> u4 \<Rightarrow> 'w::len word \<Rightarrow> int \<times> 'w mem \<Rightarrow> int \<times> 'w mem" where
  "put_int arch x to = (\<lambda>(pos, m). (pos + 1, store_u4 False m (slot arch to pos) x))"

definition put_long :: "arch \<Rightarrow> u8 \<Rightarrow> 'w::len word \<Rightarrow> int \<times> 'w mem \<Rightarrow> int \<times> 'w mem" where
  "put_long arch x to = (\<lambda>(pos, m). case arch of
     PPC64 \<Rightarrow> (pos + 2, store_u8 False m (slot arch to (1 + pos)) x)
   | PPC32 \<Rightarrow> put_int2r arch (halves x) to (pos, m))"

definition put_obj :: "arch \<Rightarrow> 'w word \<Rightarrow> 'w::len word \<Rightarrow> int \<times> 'w mem \<Rightarrow> int \<times> 'w mem" where
  "put_obj arch x to = (\<lambda>(pos, m). (pos + 1, store_intptr arch m (slot arch to pos) x))"

definition put_float :: "arch \<Rightarrow> u4 \<Rightarrow> 'w::len word \<Rightarrow> int \<times> 'w mem \<Rightarrow> int \<times> 'w mem" where
  "put_float arch x to = (\<lambda>(pos, m). (pos + 1, store_u4 False m (slot arch to pos) x))"

definition put_double :: "arch \<Rightarrow> u8 \<Rightarrow> 'w::len word \<Rightarrow> int \<times> 'w mem \<Rightarrow> int \<times> 'w mem" where
  "put_double arch x to = (\<lambda>(pos, m). case arch of
     PPC64 \<Rightarrow> (pos + 2, store_u8 False m (slot arch to (1 + pos)) x)
   | PPC32 \<Rightarrow> put_int2r arch (halves x) to (pos, m))"

definition get_int :: "'w::len mem \<Rightarrow> 'w word \<Rightarrow> u4" where
  "get_int m from = load_u4 False m from"

definition get_long :: "arch \<Rightarrow> 'w::len mem \<Rightarrow> 'w word \<Rightarrow> u8" where
  "get_long arch m from = (case arch of
     PPC64 \<Rightarrow> load_u8 False m from
   | PPC32 \<Rightarrow> push_bit 32 (scast (load_u4 False m from)) OR ucast (load_u4 False m (from + 4)))"

definition get_obj :: "arch \<Rightarrow> 'w::len mem \<Rightarrow> 'w word \<Rightarrow> 'w word" where
  "get_obj arch m from = load_intptr arch m from"

definition get_float :: "'w::len mem \<Rightarrow> 'w word \<Rightarrow> u4" where
  "get_float m from = load_u4 False m from"

definition get_double :: "arch \<Rightarrow> 'w::len mem \<Rightarrow> 'w word \<Rightarrow> u8" where
  "get_double arch m from = (case arch of
     PPC64 \<Rightarrow> load_u8 False m from
   | PPC32 \<Rightarrow> push_bit 32 (scast (load_u4 False m from)) OR ucast (load_u4 False m (from + 4)))"

section \<open>The interpreter's accesses\<close>

text \<open>\<open>base\<close> is \<^verbatim>\<open>topOfStack\<close> or \<^verbatim>\<open>locals\<close>; the stack and the locals grow downwards.\<close>

definition below :: "arch \<Rightarrow> 'w::len word \<Rightarrow> int \<Rightarrow> 'w word" where
  "below arch base n = base + words arch (- n)"

definition GET_STACK_SLOT :: "arch \<Rightarrow> 'w::len mem \<Rightarrow> 'w word \<Rightarrow> int \<Rightarrow> 'w word" where
  "GET_STACK_SLOT arch m tos n = load_intptr arch m (below arch tos n)"

definition STACK_INT :: "arch \<Rightarrow> 'w::len mem \<Rightarrow> 'w word \<Rightarrow> int \<Rightarrow> u4" where
  "STACK_INT arch m tos n = load_u4 False m (below arch tos n)"

definition STACK_OBJECT :: "arch \<Rightarrow> 'w::len mem \<Rightarrow> 'w word \<Rightarrow> int \<Rightarrow> 'w word" where
  "STACK_OBJECT arch m tos n = load_intptr arch m (below arch tos n)"

definition STACK_LONG :: "arch \<Rightarrow> 'w::len mem \<Rightarrow> 'w word \<Rightarrow> int \<Rightarrow> u8" where
  "STACK_LONG arch m tos n = load_u8 False m (below arch tos n)"

definition SET_STACK_SLOT :: "arch \<Rightarrow> 'w::len mem \<Rightarrow> 'w word \<Rightarrow> 'w word \<Rightarrow> int \<Rightarrow> 'w mem" where
  "SET_STACK_SLOT arch m tos x n = store_intptr arch m (below arch tos n) x"

definition SET_STACK_INT :: "arch \<Rightarrow> 'w::len mem \<Rightarrow> 'w word \<Rightarrow> u4 \<Rightarrow> int \<Rightarrow> 'w mem" where
  "SET_STACK_INT arch m tos x n = store_u4 False m (below arch tos n) x"

definition SET_STACK_OBJECT :: "arch \<Rightarrow> 'w::len mem \<Rightarrow> 'w word \<Rightarrow> 'w word \<Rightarrow> int \<Rightarrow> 'w mem" where
  "SET_STACK_OBJECT arch m tos x n = store_intptr arch m (below arch tos n) x"

definition SET_STACK_LONG :: "arch \<Rightarrow> 'w::len mem \<Rightarrow> 'w word \<Rightarrow> u8 \<Rightarrow> int \<Rightarrow> 'w mem" where
  "SET_STACK_LONG arch m tos x n = store_u8 False m (below arch tos n) x"

definition LOCALS_SLOT :: "arch \<Rightarrow> 'w::len word \<Rightarrow> int \<Rightarrow> 'w word" where
  "LOCALS_SLOT arch vars n = below arch vars n"

definition LOCALS_INT :: "arch \<Rightarrow> 'w::len mem \<Rightarrow> 'w word \<Rightarrow> int \<Rightarrow> u4" where
  "LOCALS_INT arch m vars n = load_u4 False m (below arch vars n)"

definition LOCALS_FLOAT :: "arch \<Rightarrow> 'w::len mem \<Rightarrow> 'w word \<Rightarrow> int \<Rightarrow> u4" where
  "LOCALS_FLOAT arch m vars n = load_u4 False m (below arch vars n)"

definition LOCALS_OBJECT :: "arch \<Rightarrow> 'w::len mem \<Rightarrow> 'w word \<Rightarrow> int \<Rightarrow> 'w word" where
  "LOCALS_OBJECT arch m vars n = load_intptr arch m (below arch vars n)"

definition LOCALS_LONG :: "arch \<Rightarrow> 'w::len mem \<Rightarrow> 'w word \<Rightarrow> int \<Rightarrow> u8" where
  "LOCALS_LONG arch m vars n = load_u8 False m (below arch vars (n + 1))"

definition LOCALS_DOUBLE :: "arch \<Rightarrow> 'w::len mem \<Rightarrow> 'w word \<Rightarrow> int \<Rightarrow> u8" where
  "LOCALS_DOUBLE arch m vars n = load_u8 False m (below arch vars (n + 1))"

definition SET_LOCALS_INT :: "arch \<Rightarrow> 'w::len mem \<Rightarrow> 'w word \<Rightarrow> u4 \<Rightarrow> int \<Rightarrow> 'w mem" where
  "SET_LOCALS_INT arch m vars x n = store_u4 False m (below arch vars n) x"

definition SET_LOCALS_OBJECT :: "arch \<Rightarrow> 'w::len mem \<Rightarrow> 'w word \<Rightarrow> 'w word \<Rightarrow> int \<Rightarrow> 'w mem" where
  "SET_LOCALS_OBJECT arch m vars x n = store_intptr arch m (below arch vars n) x"

definition SET_LOCALS_LONG :: "arch \<Rightarrow> 'w::len mem \<Rightarrow> 'w word \<Rightarrow> u8 \<Rightarrow> int \<Rightarrow> 'w mem" where
  "SET_LOCALS_LONG arch m vars x n = store_u8 False m (below arch vars (n + 1)) x"

end
