(* ===== verification/SharedStubs.thy ===== *)
theory SharedStubs
  imports VMCalls
begin

text \<open>
  Stubs of the shared runtime that are not implemented (\<^verbatim>\<open>sharedRuntime_CPU.cpp\<close>), and the stub
  that flushes the instruction cache (\<^verbatim>\<open>icache_CPU.hpp\<close>, \<^verbatim>\<open>icache_CPU.cpp\<close>).
\<close>

section \<open>Stubs of the shared runtime\<close>

text \<open>
  Each is generated into a code buffer of its own, whose address is an argument, and copied by
  \<^verbatim>\<open>RuntimeStub::new_runtime_stub\<close> or \<^verbatim>\<open>SafepointBlob::create\<close>.
\<close>

record 'a code_stub =
  stub_name :: string
  stub_code :: "'a asm"
  stub_frame_complete :: nat
  stub_frame_size :: int

definition unimplemented_code ::
  "arch \<Rightarrow> ('w::len word, 'x) vm_externals_scheme \<Rightarrow> int \<Rightarrow> int \<Rightarrow> 'w word emitter" where
  "unimplemented_code arch vm file line = seqR [
     masm_enter arch,
     with_frame arch (new_StackFrame 0) (\<lambda>_. masm_unimplemented arch vm file line),
     asm_blr]"

definition generate_unimplemented_runtime_stub ::
  "arch \<Rightarrow> ('w::len word, 'x) vm_externals_scheme \<Rightarrow> 'w word \<Rightarrow> int \<Rightarrow> int \<Rightarrow> string \<Rightarrow> 'w word code_stub result" where
  "generate_unimplemented_runtime_stub arch vm buffer file line name =
     bindR (unimplemented_code arch vm file line (start_at buffer)) (\<lambda>s.
       Inr \<lparr>stub_name = name, stub_code = s, stub_frame_complete = offset s, stub_frame_size = 0\<rparr>)"

definition generate_unimplemented_safepoint_blob ::
  "arch \<Rightarrow> ('w::len word, 'x) vm_externals_scheme \<Rightarrow> 'w word \<Rightarrow> int \<Rightarrow> int \<Rightarrow> 'w word code_stub result" where
  "generate_unimplemented_safepoint_blob arch vm buffer file line =
     bindR (unimplemented_code arch vm file line (start_at buffer)) (\<lambda>s.
       Inr \<lparr>stub_name = ''handler_blob'', stub_code = s, stub_frame_complete = 0, stub_frame_size = 0\<rparr>)"

record 'a shared_runtime =
  wrong_method_blob :: "'a code_stub"
  ic_miss_blob :: "'a code_stub"
  resolve_opt_virtual_call_blob :: "'a code_stub"
  resolve_virtual_call_blob :: "'a code_stub"
  resolve_static_call_blob :: "'a code_stub"
  polling_page_safepoint_handler_blob :: "'a code_stub"
  polling_page_return_handler_blob :: "'a code_stub"

definition generate_stubs ::
  "arch \<Rightarrow> ('w::len word, 'x) vm_externals_scheme \<Rightarrow> (nat \<Rightarrow> 'w word) \<Rightarrow> int \<Rightarrow> 'w word shared_runtime result" where
  "generate_stubs arch vm buffer file =
     (let stub = generate_unimplemented_runtime_stub arch vm; blob = generate_unimplemented_safepoint_blob arch vm
      in bindR (stub (buffer 0) file 251 ''wrong_method_stub'') (\<lambda>a.
         bindR (stub (buffer 1) file 254 ''ic_miss_stub'') (\<lambda>b.
         bindR (stub (buffer 2) file 257 ''resolve_opt_virtual_call'') (\<lambda>c.
         bindR (stub (buffer 3) file 260 ''resolve_virtual_call'') (\<lambda>d.
         bindR (stub (buffer 4) file 263 ''resolve_static_call'') (\<lambda>e.
         bindR (blob (buffer 5) file 267) (\<lambda>f.
         bindR (blob (buffer 6) file 269) (\<lambda>g.
           Inr \<lparr>wrong_method_blob = a, ic_miss_blob = b, resolve_opt_virtual_call_blob = c,
             resolve_virtual_call_blob = d, resolve_static_call_blob = e,
             polling_page_safepoint_handler_blob = f, polling_page_return_handler_blob = g\<rparr>))))))))"

definition generate_i2c2i_adapters ::
  "arch \<Rightarrow> ('w::len word, 'x) vm_externals_scheme \<Rightarrow> int \<Rightarrow> 'w word asm \<Rightarrow>
    (('w word \<times> 'w word \<times> 'w word) \<times> 'w word asm) result" where
  "generate_i2c2i_adapters arch vm file s =
     bindR (generate_unimplemented_stub arch vm file 166 s) (\<lambda>(i2c, s).
     bindR (generate_unimplemented_stub arch vm file 167 s) (\<lambda>(c2i, s).
     bindR (generate_unimplemented_stub arch vm file 168 s) (\<lambda>(c2i_unverified, s).
       Inr ((i2c, c2i, c2i_unverified), s))))"

section \<open>The size of a cache block\<close>

text \<open>
  A page of \<open>pagesize\<close> bytes is filled with ones, the machine zeroes its first cache block
  (\<open>dcbz\<close>, which maps the page before to the page after), and the zeroes are counted up to a
  sentinel at the end of the page. \<open>memalign_error\<close> is the result of \<^verbatim>\<open>posix_memalign\<close>.
\<close>

fun count_zeroes :: "8 word list \<Rightarrow> nat \<Rightarrow> int result" where
  "count_zeroes [] n = Inl UndefinedBehaviour"
| "count_zeroes (b # bs) n = (if b = 0 then count_zeroes bs (Suc n) else Inr (int n))"

definition get_cache_block_size :: "nat \<Rightarrow> int \<Rightarrow> (8 word list \<Rightarrow> 8 word list) \<Rightarrow> int result" where
  "get_cache_block_size pagesize memalign_error dcbz =
     (if memalign_error \<noteq> 0 then Inr (- 1)
      else let page = dcbz (replicate pagesize 0xff)
      in case page of
           [] \<Rightarrow> Inl UndefinedBehaviour
         | b # _ \<Rightarrow> if b \<noteq> 0 then Inr (- 1) else count_zeroes (page[pagesize - 1 := 0xff]) 0)"

section \<open>The flush stub\<close>

definition icache_stub_size :: "arch \<Rightarrow> nat" where
  "icache_stub_size arch = (case arch of PPC32 \<Rightarrow> 64 | PPC64 \<Rightarrow> 80)"

definition icache_line_size :: int where "icache_line_size = 32"

definition icache_log2_line_size :: nat where "icache_log2_line_size = 5"

text \<open>One round of a loop, without the branch at its end.\<close>

definition flush_step :: "(Register \<Rightarrow> Register \<Rightarrow> 'a emitter) \<Rightarrow> 'a emitter list" where
  "flush_step instruction =
     (let addr = r12 in [instruction (as_Register 0) addr, asm_addi addr addr (word_of_int icache_line_size)])"

definition flush_loop :: "(Register \<Rightarrow> Register \<Rightarrow> 'w::len word emitter) \<Rightarrow> nat \<Rightarrow> 'w word emitter list" where
  "flush_loop instruction loop =
     (let start_addr = r3; lines = r4; addr = r12
      in [asm_mr addr start_addr,
          asm_mtctr lines,
          asm_bind loop] @
          flush_step instruction @
          [asm_bdnz loop])"

definition generate_icache_flush ::
  "arch \<Rightarrow> int \<Rightarrow> 'w::len word asm \<Rightarrow> ('w word \<times> 'w word asm) result" where
  "generate_icache_flush arch cache_block_size s =
     (if \<not> icache_line_size \<le> cache_block_size then Inl (GuaranteeFailed ''line_size too large'')
      else asserted (icache_line_size = 2 ^ icache_log2_line_size) ''doh''
     (let start = pc s; lines = r4; magic = r5
      in bindR (seqR [
           masm_enter arch,
           with_label (\<lambda>loop1. with_label (\<lambda>loop2. seqR (
             [masm_compare_i arch lines 0,
              asm_blelr] @
             flush_loop asm_dcbf loop1 @
             [asm_sync] @
             flush_loop asm_icbi loop2 @
             [asm_isync,
              asm_mr r3 magic,
              asm_blr])))] s) (\<lambda>s.
         asserted (pc s - start = word_of_nat (icache_stub_size arch)) ''wrong stub size'' (Inr (start, s)))))"

end
