(* ===== verification/Locking.thy ===== *)
theory Locking
  imports Prelude
begin

text \<open>
  The protocol of \<^verbatim>\<open>lock_object\<close> and \<^verbatim>\<open>unlock_object\<close> (\<^verbatim>\<open>interp_masm_CPU.cpp\<close>) between threads:
  a step relation whose rules are the accesses to memory that the generated code makes, one by
  one, for one object. The compare-and-exchange is the loop of \<^verbatim>\<open>cmpxchg_\<close>
  (\<^verbatim>\<open>assembler_CPU.cpp\<close>): load and reserve, compare, store conditional, again if the
  reservation was lost. What stops with \<^verbatim>\<open>unimplemented\<close> is the state \<open>Stuck\<close>.
\<close>

section \<open>The steps\<close>

text \<open>
  Where a thread is. \<open>L_\<close> is in \<^verbatim>\<open>lock_object\<close>, with the register \<^verbatim>\<open>displaced\<close>; \<open>U_\<close> in
  \<^verbatim>\<open>unlock_object\<close>, with the register \<^verbatim>\<open>header\<close>.
\<close>

datatype 'p position =
    Outside
  | L_store 'p
  | L_reserve 'p
  | L_conditional 'p
  | Locked
  | U_reserve 'p
  | U_conditional 'p
  | Stuck

record ('i, 'p) lock_state =
  mark_word :: 'p
  displaced_header :: "'i \<Rightarrow> 'p"
  reservation :: "'i \<Rightarrow> bool"
  position :: "'i \<Rightarrow> 'p position"

definition goes :: "('i, 'p) lock_state \<Rightarrow> 'i \<Rightarrow> 'p position \<Rightarrow> ('i, 'p) lock_state" where
  "goes s i p = s\<lparr>position := (position s)(i := p)\<rparr>"

definition reserves :: "('i, 'p) lock_state \<Rightarrow> 'i \<Rightarrow> bool \<Rightarrow> ('i, 'p) lock_state" where
  "reserves s i b = s\<lparr>reservation := (reservation s)(i := b)\<rparr>"

text \<open>A successful conditional store ends all reservations.\<close>

definition exchanges :: "('i, 'p) lock_state \<Rightarrow> 'p \<Rightarrow> ('i, 'p) lock_state" where
  "exchanges s x = s\<lparr>mark_word := x, reservation := (\<lambda>_. False)\<rparr>"

text \<open>
  \<open>unlocked\<close> is \<^verbatim>\<open>markOopDesc::unlocked_value\<close>, \<open>entry i\<close> the address of the monitor thread \<open>i\<close>
  uses, \<open>lock_ofs\<close> is \<^verbatim>\<open>BasicObjectLock::lock_offset_in_bytes()\<close>.
\<close>

inductive lock_step ::
  "'w::len word \<Rightarrow> ('i \<Rightarrow> 'w word) \<Rightarrow> 'w word \<Rightarrow> ('i, 'w word) lock_state \<Rightarrow> ('i, 'w word) lock_state \<Rightarrow> bool"
  for unlocked :: "'w::len word" and entry :: "'i \<Rightarrow> 'w word" and lock_ofs :: "'w word" where
  lock_load: "position s i = Outside \<Longrightarrow>
    lock_step unlocked entry lock_ofs s (goes s i (L_store (mark_word s OR unlocked)))"
| lock_store: "position s i = L_store d \<Longrightarrow>
    lock_step unlocked entry lock_ofs s
      (goes (s\<lparr>displaced_header := (displaced_header s)(i := d)\<rparr>) i (L_reserve d))"
| lock_reserve: "position s i = L_reserve d \<Longrightarrow> mark_word s = d \<Longrightarrow>
    lock_step unlocked entry lock_ofs s (goes (reserves s i True) i (L_conditional d))"
| lock_contended: "position s i = L_reserve d \<Longrightarrow> mark_word s \<noteq> d \<Longrightarrow>
    lock_step unlocked entry lock_ofs s (goes (reserves s i True) i Stuck)"
| lock_exchange: "position s i = L_conditional d \<Longrightarrow> reservation s i \<Longrightarrow>
    lock_step unlocked entry lock_ofs s (goes (exchanges s (entry i)) i Locked)"
| lock_again: "position s i = L_conditional d \<Longrightarrow> \<not> reservation s i \<Longrightarrow>
    lock_step unlocked entry lock_ofs s (goes s i (L_reserve d))"
| unlock_recursive: "position s i = Locked \<Longrightarrow> displaced_header s i = 0 \<Longrightarrow>
    lock_step unlocked entry lock_ofs s (goes s i Outside)"
| unlock_load: "position s i = Locked \<Longrightarrow> displaced_header s i \<noteq> 0 \<Longrightarrow>
    lock_step unlocked entry lock_ofs s (goes s i (U_reserve (displaced_header s i)))"
| unlock_reserve: "position s i = U_reserve h \<Longrightarrow> mark_word s = entry i + lock_ofs \<Longrightarrow>
    lock_step unlocked entry lock_ofs s (goes (reserves s i True) i (U_conditional h))"
| unlock_fails: "position s i = U_reserve h \<Longrightarrow> mark_word s \<noteq> entry i + lock_ofs \<Longrightarrow>
    lock_step unlocked entry lock_ofs s (goes (reserves s i True) i Stuck)"
| unlock_exchange: "position s i = U_conditional h \<Longrightarrow> reservation s i \<Longrightarrow>
    lock_step unlocked entry lock_ofs s (goes (exchanges s h) i Outside)"
| unlock_again: "position s i = U_conditional h \<Longrightarrow> \<not> reservation s i \<Longrightarrow>
    lock_step unlocked entry lock_ofs s (goes s i (U_reserve h))"
| reservation_lost: "lock_step unlocked entry lock_ofs s (reserves s i False)"

definition lock_initial :: "'p \<Rightarrow> ('i, 'p) lock_state \<Rightarrow> bool" where
  "lock_initial h s \<longleftrightarrow> mark_word s = h \<and> (\<forall>i. position s i = Outside \<and> \<not> reservation s i)"

lemmas lock_updates [simp] = goes_def reserves_def exchanges_def

section \<open>The invariant\<close>

fun holds :: "'p position \<Rightarrow> bool" where
  "holds Locked = True"
| "holds (U_reserve h) = True"
| "holds (U_conditional h) = True"
| "holds _ = False"

text \<open>What a position says of the registers, given the header of the unlocked object.\<close>

fun position_ok :: "'w::len word \<Rightarrow> 'w word \<Rightarrow> ('i, 'w word) lock_state \<Rightarrow> 'i \<Rightarrow> 'w word position \<Rightarrow> bool" where
  "position_ok u h s i (L_store d) \<longleftrightarrow> d AND u = u"
| "position_ok u h s i (L_reserve d) \<longleftrightarrow> d AND u = u \<and> displaced_header s i = d"
| "position_ok u h s i (L_conditional d) \<longleftrightarrow> d AND u = u \<and> displaced_header s i = d \<and> (reservation s i \<longrightarrow> mark_word s = d)"
| "position_ok u h s i Locked \<longleftrightarrow> displaced_header s i = h \<and> h AND u = u"
| "position_ok u h s i (U_reserve x) \<longleftrightarrow> x = h"
| "position_ok u h s i (U_conditional x) \<longleftrightarrow> x = h"
| "position_ok u h s i _ \<longleftrightarrow> True"

text \<open>The mark word is the header if no thread holds the lock, else the address of the one holder's monitor.\<close>

definition one_holder :: "('i \<Rightarrow> 'p) \<Rightarrow> 'p \<Rightarrow> ('i, 'p) lock_state \<Rightarrow> bool" where
  "one_holder entry h s \<longleftrightarrow>
     (mark_word s = h \<and> (\<forall>i. \<not> holds (position s i))) \<or>
     (\<exists>i. mark_word s = entry i \<and> (\<forall>j. holds (position s j) \<longleftrightarrow> j = i))"

definition lock_invariant ::
  "'w::len word \<Rightarrow> ('i \<Rightarrow> 'w word) \<Rightarrow> 'w word \<Rightarrow> ('i, 'w word) lock_state \<Rightarrow> bool" where
  "lock_invariant u entry h s \<longleftrightarrow> one_holder entry h s \<and> (\<forall>i. position_ok u h s i (position s i))"

text \<open>Monitors are aligned so that their addresses do not have the bits of an unlocked object.\<close>

definition monitors_ok :: "'w::len word \<Rightarrow> ('i \<Rightarrow> 'w word) \<Rightarrow> bool" where
  "monitors_ok u entry \<longleftrightarrow> u \<noteq> 0 \<and> (\<forall>i. entry i AND u = 0)"

lemma one_holder_free:
  assumes "one_holder entry h s" "monitors_ok u entry" "mark_word s AND u = u"
  shows "mark_word s = h" "\<not> holds (position s i)"
  using assms by (auto simp: one_holder_def monitors_ok_def)

lemma one_holder_held:
  assumes "one_holder entry h s" "holds (position s i)"
  shows "mark_word s = entry i" "holds (position s j) \<longleftrightarrow> j = i"
  using assms by (auto simp: one_holder_def)

lemma lock_invariantD:
  assumes "lock_invariant u entry h s"
  shows "one_holder entry h s" "position_ok u h s i (position s i)"
  using assms by (simp_all add: lock_invariant_def)

lemma one_holder_move:
  assumes "one_holder entry h s" "mark_word t = mark_word s" "\<And>j. holds (position t j) \<longleftrightarrow> holds (position s j)"
  shows "one_holder entry h t"
  using assms by (simp add: one_holder_def)

text \<open>A step that leaves the mark word and the header fields of the other threads alone.\<close>

lemma position_ok_other:
  assumes "position_ok u h s j p" "mark_word t = mark_word s"
    "displaced_header t j = displaced_header s j" "reservation t j \<longrightarrow> reservation s j"
  shows "position_ok u h t j p"
  using assms by (cases p) auto

text \<open>After an exchange no reservation is left.\<close>

lemma position_ok_exchanged:
  assumes "position_ok u h s j p" "displaced_header t j = displaced_header s j" "\<not> reservation t j"
  shows "position_ok u h t j p"
  using assms by (cases p) auto

lemma lock_invariant_move:
  assumes inv: "lock_invariant u entry h s" and m: "mark_word t = mark_word s"
    and p: "\<And>j. j \<noteq> i \<Longrightarrow> position t j = position s j \<and> displaced_header t j = displaced_header s j \<and>
      (reservation t j \<longrightarrow> reservation s j)"
    and i: "holds (position t i) \<longleftrightarrow> holds (position s i)" "position_ok u h t i (position t i)"
  shows "lock_invariant u entry h t"
  unfolding lock_invariant_def
proof (intro conjI allI)
  show "one_holder entry h t"
    by (rule one_holder_move [OF lock_invariantD(1) [OF inv] m]) (metis p i(1))
  show "position_ok u h t j (position t j)" for j
    using i(2) p [of j] m position_ok_other [OF lock_invariantD(2) [OF inv, of j], of t]
    by (cases "j = i") auto
qed

lemma or_absorb: "(x OR u) AND u = (u :: 'w::len word)"
  by (rule bit_word_eqI) (auto simp: bit_simps)

lemma lock_invariant_step:
  assumes "lock_step u entry 0 s t" "lock_invariant u entry h s" "monitors_ok u entry"
  shows "lock_invariant u entry h t"
  using assms(1)
proof cases
  case (lock_exchange i d)
  have k: "position_ok u h s i (L_conditional d)" using lock_invariantD(2) [OF assms(2), of i] lock_exchange by simp
  then have "mark_word s AND u = u" using lock_exchange by simp
  note free = one_holder_free [OF lock_invariantD(1) [OF assms(2)] assms(3) this]
  have "one_holder entry h t" using free(2) lock_exchange by (auto simp: one_holder_def)
  moreover have "position_ok u h t j (position t j)" for j
    using k free(1) lock_exchange position_ok_exchanged [OF lock_invariantD(2) [OF assms(2), of j], of t]
    by (cases "j = i") auto
  ultimately show ?thesis by (simp add: lock_invariant_def)
next
  case (unlock_exchange i x)
  have x: "x = h" using lock_invariantD(2) [OF assms(2), of i] unlock_exchange by simp
  have "holds (position s i)" using unlock_exchange by simp
  note held = one_holder_held [OF lock_invariantD(1) [OF assms(2)] this]
  have "one_holder entry h t" using held(2) unlock_exchange x by (auto simp: one_holder_def)
  moreover have "position_ok u h t j (position t j)" for j
    using unlock_exchange position_ok_exchanged [OF lock_invariantD(2) [OF assms(2), of j], of t]
    by (cases "j = i") auto
  ultimately show ?thesis by (simp add: lock_invariant_def)
next
  case (unlock_fails i x)
  then have "mark_word s = entry i"
    using one_holder_held(1) [OF lock_invariantD(1) [OF assms(2)], of i] by simp
  then show ?thesis using unlock_fails by simp
next
  case (unlock_recursive i)
  then have "u = 0" using lock_invariantD(2) [OF assms(2), of i] by auto
  then show ?thesis using assms(3) by (simp add: monitors_ok_def)
next
  case (lock_load i)
  then show ?thesis using lock_invariantD(2) [OF assms(2), of i]
    by (intro lock_invariant_move [OF assms(2), where i = i]) (auto simp: or_absorb)
next
  case (lock_store i d)
  then show ?thesis using lock_invariantD(2) [OF assms(2), of i]
    by (intro lock_invariant_move [OF assms(2), where i = i]) (auto simp: or_absorb)
next
  case (lock_reserve i d)
  then show ?thesis using lock_invariantD(2) [OF assms(2), of i]
    by (intro lock_invariant_move [OF assms(2), where i = i]) (auto simp: or_absorb)
next
  case (lock_contended i d)
  then show ?thesis using lock_invariantD(2) [OF assms(2), of i]
    by (intro lock_invariant_move [OF assms(2), where i = i]) (auto simp: or_absorb)
next
  case (lock_again i d)
  then show ?thesis using lock_invariantD(2) [OF assms(2), of i]
    by (intro lock_invariant_move [OF assms(2), where i = i]) (auto simp: or_absorb)
next
  case (unlock_load i)
  then show ?thesis using lock_invariantD(2) [OF assms(2), of i]
    by (intro lock_invariant_move [OF assms(2), where i = i]) (auto simp: or_absorb)
next
  case (unlock_reserve i x)
  then show ?thesis using lock_invariantD(2) [OF assms(2), of i]
    by (intro lock_invariant_move [OF assms(2), where i = i]) (auto simp: or_absorb)
next
  case (unlock_again i x)
  then show ?thesis using lock_invariantD(2) [OF assms(2), of i]
    by (intro lock_invariant_move [OF assms(2), where i = i]) (auto simp: or_absorb)
next
  case (reservation_lost i)
  then show ?thesis using lock_invariantD(2) [OF assms(2), of i]
    by (intro lock_invariant_move [OF assms(2), where i = i]) (cases "position s i"; auto)+
qed

text \<open>The states that can be reached.\<close>

inductive lock_reachable ::
  "'w::len word \<Rightarrow> ('i \<Rightarrow> 'w word) \<Rightarrow> 'w word \<Rightarrow> 'w word \<Rightarrow> ('i, 'w word) lock_state \<Rightarrow> bool"
  for u :: "'w::len word" and entry :: "'i \<Rightarrow> 'w word" and lock_ofs h :: "'w word" where
  lock_start: "lock_initial h s \<Longrightarrow> lock_reachable u entry lock_ofs h s"
| lock_next: "lock_reachable u entry lock_ofs h s \<Longrightarrow> lock_step u entry lock_ofs s t \<Longrightarrow> lock_reachable u entry lock_ofs h t"

inductive_simps lock_step_Stuck: "lock_step u entry lock_ofs s t"

lemma lock_initial_invariant: "lock_initial h s \<Longrightarrow> lock_invariant u entry h s"
  by (simp add: lock_initial_def lock_invariant_def one_holder_def)

lemma lock_reachable_invariant:
  assumes "lock_reachable u entry 0 h s" "monitors_ok u entry"
  shows "lock_invariant u entry h s"
  using assms(1) by induction (blast intro: lock_initial_invariant lock_invariant_step [OF _ _ assms(2)])+

lemma lock_reachable_steps:
  assumes "(lock_step u entry k)\<^sup>*\<^sup>* s t" "lock_reachable u entry k h s"
  shows "lock_reachable u entry k h t"
  using assms by induction (auto intro: lock_next)

section \<open>Properties\<close>

text \<open>C1. Mutual exclusion: in every state the threads can reach, however their accesses to memory
  interleave and whenever reservations are lost, at most one thread holds the lock of the
  object; while one does, the mark word is the address of its monitor and the monitor holds
  the header of the unlocked object; while none does, the mark word is that header.\<close>

theorem lock_mutual_exclusion:
  assumes "lock_reachable u entry 0 h s" "monitors_ok u entry"
  shows "(\<forall>i j. holds (position s i) \<longrightarrow> holds (position s j) \<longrightarrow> i = j) \<and>
    (\<forall>i. position s i = Locked \<longrightarrow> mark_word s = entry i \<and> displaced_header s i = h) \<and>
    ((\<forall>i. \<not> holds (position s i)) \<longrightarrow> mark_word s = h)"
proof (intro conjI allI impI)
  note inv = lock_reachable_invariant [OF assms]
  note one = one_holder_held [OF lock_invariantD(1) [OF inv]]
  show "i = j" if "holds (position s i)" "holds (position s j)" for i j
    using one(2) [OF that(2), of i] that(1) by simp
  show "mark_word s = entry i" if "position s i = Locked" for i using one(1) [of i] that by simp
  show "displaced_header s i = h" if "position s i = Locked" for i using lock_invariantD(2) [OF inv, of i] that by simp
  show "mark_word s = h" if "\<forall>i. \<not> holds (position s i)"
    using lock_invariantD(1) [OF inv] that by (auto simp: one_holder_def)
qed

text \<open>Locking and unlocking without interference.\<close>

lemma take_lock:
  assumes "position s i = Outside" "mark_word s AND u = u"
    and t: "t = \<lparr>mark_word = entry i, displaced_header = (displaced_header s)(i := mark_word s),
      reservation = (\<lambda>_. False), position = (position s)(i := Locked)\<rparr>"
  shows "(lock_step u entry k)\<^sup>*\<^sup>* s t"
proof -
  have d: "mark_word s OR u = mark_word s"
    by (rule bit_word_eqI) (use assms(2) in \<open>metis bit_and_iff bit_or_iff\<close>)
  let ?d = "mark_word s"
  define a where "a = goes s i (L_store ?d)"
  define b where "b = goes (a\<lparr>displaced_header := (displaced_header a)(i := ?d)\<rparr>) i (L_reserve ?d)"
  define c where "c = goes (reserves b i True) i (L_conditional ?d)"
  have "lock_step u entry k s a" using lock_load [OF assms(1), of u entry k] unfolding a_def d .
  moreover have "lock_step u entry k a b" unfolding b_def by (rule lock_store) (simp add: a_def)
  moreover have "lock_step u entry k b c" unfolding c_def by (rule lock_reserve) (simp_all add: a_def b_def)
  moreover have "lock_step u entry k c (goes (exchanges c (entry i)) i Locked)"
    by (rule lock_exchange [where d = ?d]) (simp_all add: c_def)
  moreover have "goes (exchanges c (entry i)) i Locked = t"
    by (simp add: t a_def b_def c_def)
  ultimately show ?thesis by (simp add: converse_rtranclp_into_rtranclp)
qed

lemma release_lock:
  assumes "position s i = Locked" "mark_word s = entry i" "displaced_header s i \<noteq> 0"
    and t: "t = \<lparr>mark_word = displaced_header s i, displaced_header = displaced_header s,
      reservation = (\<lambda>_. False), position = (position s)(i := Outside)\<rparr>"
  shows "(lock_step u entry 0)\<^sup>*\<^sup>* s t"
proof -
  let ?h = "displaced_header s i"
  define a where "a = goes s i (U_reserve ?h)"
  define b where "b = goes (reserves a i True) i (U_conditional ?h)"
  have "lock_step u entry 0 s a" unfolding a_def by (rule unlock_load [OF assms(1,3)])
  moreover have "lock_step u entry 0 a b"
    unfolding b_def by (rule unlock_reserve) (simp_all add: a_def assms(2))
  moreover have "lock_step u entry 0 b (goes (exchanges b ?h) i Outside)"
    by (rule unlock_exchange [where h = ?h]) (simp_all add: b_def)
  moreover have "goes (exchanges b ?h) i Outside = t"
    by (simp add: t a_def b_def)
  ultimately show ?thesis by (simp add: converse_rtranclp_into_rtranclp)
qed

text \<open>C2. Progress: a thread that holds the lock can always release it, and then the header is
  back in the object; no step of a holder ends in the unimplemented branch; and while no thread
  holds the lock, any thread that is not in the routines can take it.\<close>

theorem lock_progress:
  assumes "lock_reachable u entry 0 h s" "monitors_ok u entry" "h AND u = u"
  shows "(position s i = Locked \<longrightarrow> (\<exists>t. (lock_step u entry 0)\<^sup>*\<^sup>* s t \<and> position t i = Outside \<and>
      mark_word t = h \<and> (\<forall>j. j \<noteq> i \<longrightarrow> position t j = position s j))) \<and>
    (holds (position s i) \<longrightarrow> (\<forall>t. lock_step u entry 0 s t \<longrightarrow> position t i \<noteq> Stuck)) \<and>
    ((\<forall>j. \<not> holds (position s j)) \<and> position s i = Outside \<longrightarrow>
      (\<exists>t. (lock_step u entry 0)\<^sup>*\<^sup>* s t \<and> position t i = Locked \<and> (\<forall>j. j \<noteq> i \<longrightarrow> position t j = position s j)))"
proof (intro conjI impI allI)
  note inv = lock_reachable_invariant [OF assms(1,2)]
  have u: "h \<noteq> 0" using assms(2,3) by (auto simp: monitors_ok_def)
  show "\<exists>t. (lock_step u entry 0)\<^sup>*\<^sup>* s t \<and> position t i = Outside \<and> mark_word t = h \<and>
      (\<forall>j. j \<noteq> i \<longrightarrow> position t j = position s j)" if "position s i = Locked"
  proof -
    have "mark_word s = entry i" "displaced_header s i = h"
      using one_holder_held(1) [OF lock_invariantD(1) [OF inv], of i] lock_invariantD(2) [OF inv, of i] that by auto
    then show ?thesis using release_lock [OF that _ _ refl, of entry u] u by (intro exI conjI) auto
  qed
  show "position t i \<noteq> Stuck" if h: "holds (position s i)" and s: "lock_step u entry 0 s t" for t
  proof -
    have m: "mark_word s = entry i" using one_holder_held(1) [OF lock_invariantD(1) [OF inv] h] .
    show ?thesis using s
    proof cases
      case (lock_contended j d)
      then show ?thesis using h by (cases "j = i") auto
    next
      case (unlock_fails j x)
      then show ?thesis using h m by (cases "j = i") auto
    qed (use h in \<open>auto split: if_splits\<close>)
  qed
  show "\<exists>t. (lock_step u entry 0)\<^sup>*\<^sup>* s t \<and> position t i = Locked \<and> (\<forall>j. j \<noteq> i \<longrightarrow> position t j = position s j)"
    if f: "(\<forall>j. \<not> holds (position s j)) \<and> position s i = Outside"
  proof -
    have "mark_word s = h" using lock_invariantD(1) [OF inv] f by (auto simp: one_holder_def)
    then show ?thesis using take_lock [OF _ _ refl, of s i u entry 0] assms(3) f by (intro exI conjI) auto
  qed
qed

section \<open>Two threads\<close>

definition two_monitors :: "bool \<Rightarrow> 32 word" where
  "two_monitors i = (if i then 8 else 16)"

definition two_threads :: "(bool, 32 word) lock_state" where
  "two_threads = \<lparr>mark_word = 5, displaced_header = (\<lambda>_. 0), reservation = (\<lambda>_. False), position = (\<lambda>_. Outside)\<rparr>"

definition one_locked :: "(bool, 32 word) lock_state" where
  "one_locked = \<lparr>mark_word = 8, displaced_header = (\<lambda>_. 0)(True := 5), reservation = (\<lambda>_. False),
     position = (\<lambda>_. Outside)(True := Locked)\<rparr>"

lemma two_monitors_ok: "monitors_ok 1 two_monitors"
  by (simp add: monitors_ok_def two_monitors_def)

lemma one_locked_reachable: "lock_reachable 1 two_monitors 0 5 one_locked"
proof -
  have "(lock_step 1 two_monitors 0)\<^sup>*\<^sup>* two_threads one_locked"
    by (rule take_lock [where i = True]) (simp_all add: two_threads_def one_locked_def two_monitors_def)
  then show ?thesis
    by (rule lock_reachable_steps) (auto intro!: lock_start simp: lock_initial_def two_threads_def)
qed

theorem lock_mutual_exclusion_witness:
  "position one_locked True = Locked \<and> mark_word one_locked = two_monitors True"
  using lock_mutual_exclusion [OF one_locked_reachable two_monitors_ok] by (simp add: one_locked_def)

theorem lock_progress_witness:
  "\<exists>t. (lock_step 1 two_monitors 0)\<^sup>*\<^sup>* one_locked t \<and> position t True = Outside \<and> mark_word t = 5"
proof -
  have "position one_locked True = Locked" by (simp add: one_locked_def)
  then show ?thesis using lock_progress [OF one_locked_reachable two_monitors_ok, of True] by auto
qed

end
