(* ===== verification/SampleVM.thy ===== *)
theory SampleVM
  imports CppInterpreter
begin

text \<open>
  One virtual machine, on a 32-bit machine, for the examples that run the generators: some
  value for everything the generated code takes from the rest of the program.
\<close>

definition sample_vm :: "32 word cpp_externals" where
  "sample_vm = \<lparr>
     pending_exception_offset = 4, constants_offset = 12, pool_holder_offset_in_bytes = 16,
     klass_part_offset_in_bytes = 16, java_mirror_offset_in_bytes = 16, get_serialize_page_shift_count = 7,
     vm_page_size = 4096, get_memory_serialize_page = 16,
     VerifyOops = False, report_should_not_reach_here = 0x20000, report_unimplemented = 0x20100,
     report_untested = 0x20200, dump_int_helper = 0x20300, file_literal = 0x30000,
     name_literal = (\<lambda>_. 0x30000), last_Java_pc_offset = 16, last_Java_sp_offset = 16,
     obj_offset_in_bytes = 4, lock_offset_in_bytes = 0, displaced_header_offset_in_bytes = 16,
     mark_offset_in_bytes = 16, unlocked_value = 1, UseHeavyMonitors = False, UseBiasedLocking = False,
     state_offset = (\<lambda>field. case field of S_locals \<Rightarrow> 8 | S_method \<Rightarrow> 16 | S_stack \<Rightarrow> 28 | S_stack_base \<Rightarrow> 84 | S_stack_limit \<Rightarrow> 88 | S_prev_link \<Rightarrow> 72 | _ \<Rightarrow> 32),
     size_of_parameters_offset = 38, slow_signature_handler_entry = 0x20400, InlineIntrinsics = False,
     interp_masm_file = 0x30000, interpreter_file = 0x30000, TaggedStackInterpreter = False,
     BasicType_number = (\<lambda>t. case t of T_INT \<Rightarrow> 10 | T_LONG \<Rightarrow> 11 | T_OBJECT \<Rightarrow> 12 | _ \<Rightarrow> 14),
     stubGenerator_file = 0x30000, number_of_result_handlers = 10, RecursiveInterpreterActivation = 0x20500,
     interpreter_code_contains = (\<lambda>_. False), UseFastEmptyMethods = True, UseFastAccessorMethods = True,
     safepoint_state_address = 16, safepoint_not_synchronized = 16, const_offset = 8, codes_offset = 16,
     cache_offset_in_bytes = 16, cache_base_offset = 16, cache_entry_log2 = 2, indices_offset = 16,
     f2_offset = 16, flags_offset = 16, tosBits = 28, bytecode_aload_0 = 42, bytecode_getfield = 180,
     tos_state = (\<lambda>t. case t of T_BYTE \<Rightarrow> 0 | T_CHAR \<Rightarrow> 2 | T_SHORT \<Rightarrow> 3 | T_INT \<Rightarrow> 4 | _ \<Rightarrow> 8),
     printf_entry = 0x20600, unknown_type_literal = 0x30000, bad_message_literal = 0x30000,
     access_flags_offset = 16, max_stack_offset = 34, size_of_locals_offset = 36, signature_handler_offset = 16,
     native_function_offset = 16, result_index_offset = 16, jni_environment_offset = 16,
     thread_state_offset = 16, suspend_flags_offset = 16, active_handles_offset = 16,
     handle_top_offset_in_bytes = 16, acc_NATIVE = 256, acc_ABSTRACT = 1024, acc_SYNCHRONIZED = 32,
     acc_STATIC = 8, thread_in_Java = 8, thread_in_native = 4, thread_in_native_trans = 5, os_is_MP = True,
     UseMembar = False, prepare_native_call_entry = 0x20700, check_special_condition_entry = 0x20800,
     object_result_handler = 16, can_post_interpreter_events = False, interpreter_run = 0x20900,
     interpreter_runWithChecks = 0x20a00, msg_call_method = 1, msg_return_from_method = 2, msg_more_monitors = 3,
     msg_throwing_exception = 4, msg_method_resume = 16, msg_method_entry = 16, msg_got_monitors = 16,
     sizeof_BytecodeInterpreter = 96, monitor_words = 2, thread_index = 16, pthread_getspecific_entry = 0x20b00,
     tosca_to_stack_array = 0x30000, stack_to_stack_array = 0x30000, stack_to_native_abi_array = 0x30000,
     cppInterpreter_file = 0x30000\<rparr>"

end
