(* ===== verification/Labels.thy ===== *)
theory Labels
  imports FrameManager SharedStubs SampleVM
begin

text \<open>
  Labels across a whole routine. A branch to a label that is not bound yet is emitted with a
  displacement of zero and waits for \<^verbatim>\<open>bind\<close>; the destructor of \<^verbatim>\<open>Label\<close> does not check that it
  came. \<open>eff W B e\<close> says of a piece \<open>e\<close> of generating code that it leaves branches waiting at
  most for the labels \<open>W\<close> and that it binds the labels \<open>B\<close>; the rules follow the structure
  of the code.
\<close>

section \<open>What a piece of code does to labels\<close>

definition waited_for :: "'a asm \<Rightarrow> nat set" where
  "waited_for s = {l. l < length (asm_labels s) \<and> patch_sites (asm_labels s ! l) \<noteq> []}"

definition bound_labels :: "'a asm \<Rightarrow> nat set" where
  "bound_labels s = {l. l < length (asm_labels s) \<and> bound_at (asm_labels s ! l) \<noteq> None}"

text \<open>No branch waits for a label that is bound.\<close>

definition labels_wf :: "'a asm \<Rightarrow> bool" where
  "labels_wf s \<longleftrightarrow> bound_labels s \<inter> waited_for s = {}"

definition label_effect :: "nat set \<Rightarrow> nat set \<Rightarrow> 'a asm \<Rightarrow> 'a asm \<Rightarrow> bool" where
  "label_effect W B s s' \<longleftrightarrow> labels_wf s' \<and> bound_labels s \<union> B \<subseteq> bound_labels s' \<and>
     waited_for s' \<subseteq> waited_for s \<union> W \<and> length (asm_labels s) \<le> length (asm_labels s')"

definition eff :: "nat set \<Rightarrow> nat set \<Rightarrow> 'a emitter \<Rightarrow> bool" where
  "eff W B e \<longleftrightarrow> (\<forall>s s'. labels_wf s \<longrightarrow> e s = Inr s' \<longrightarrow> label_effect W B s s')"

definition keeps :: "'a emitter \<Rightarrow> bool" where
  "keeps e \<longleftrightarrow> (\<forall>s s'. e s = Inr s' \<longrightarrow> asm_labels s' = asm_labels s)"

lemma effI: "(\<And>s s'. labels_wf s \<Longrightarrow> e s = Inr s' \<Longrightarrow> label_effect W B s s') \<Longrightarrow> eff W B e"
  by (auto simp: eff_def)

lemma effD: "eff W B e \<Longrightarrow> labels_wf s \<Longrightarrow> e s = Inr s' \<Longrightarrow> label_effect W B s s'"
  by (auto simp: eff_def)

lemma keepsI: "(\<And>s s'. e s = Inr s' \<Longrightarrow> asm_labels s' = asm_labels s) \<Longrightarrow> keeps e"
  by (auto simp: keeps_def)

lemma keepsD: "keeps e \<Longrightarrow> e s = Inr s' \<Longrightarrow> asm_labels s' = asm_labels s"
  by (auto simp: keeps_def)

lemma label_effect_same:
  "asm_labels s' = asm_labels s \<Longrightarrow> labels_wf s \<Longrightarrow> label_effect W {} s s'"
  by (auto simp: label_effect_def labels_wf_def bound_labels_def waited_for_def)

lemma label_effect_trans:
  "label_effect W B s t \<Longrightarrow> label_effect W B' t u \<Longrightarrow> label_effect W (B \<union> B') s u"
  by (auto simp: label_effect_def)

lemma label_effect_weaken:
  "label_effect W B s t \<Longrightarrow> W \<subseteq> W' \<Longrightarrow> B' \<subseteq> B \<Longrightarrow> label_effect W' B' s t"
  by (auto simp: label_effect_def)

lemma eff_weaken: "eff W B e \<Longrightarrow> W \<subseteq> W' \<Longrightarrow> B' \<subseteq> B \<Longrightarrow> eff W' B' e"
  by (blast intro: effI effD label_effect_weaken)

lemma eff_keeps [simp]: "keeps e \<Longrightarrow> eff W {} e"
  by (rule effI) (blast intro: label_effect_same keepsD)

section \<open>Rules\<close>

lemma keeps_seqR_iff: "(\<forall>e \<in> set es. keeps e) \<Longrightarrow> keeps (seqR es)"
proof (induction es)
  case (Cons e es)
  then show ?case by (fastforce intro!: keepsI dest: keepsD simp: bindR_eq_Inr)
qed (simp add: keeps_def)

lemma keeps_rules [simp]:
  "keeps (emit_long w)" "keeps Inr" "keeps (\<lambda>s. Inl x)"
  "keeps e \<Longrightarrow> keeps (asserting p msg e)"
  "keeps e \<Longrightarrow> keeps e' \<Longrightarrow> keeps (if p then e else e')"
  by (auto simp: keeps_def emit_long_def asserting_eq_Inr)

lemma keeps_withR [simp]: "(\<And>a. m = Inr a \<Longrightarrow> keeps (k a)) \<Longrightarrow> keeps (withR m k)"
  by (cases m) (auto simp: keeps_def)

lemma keeps_bindR: "(\<And>a. m = Inr a \<Longrightarrow> keeps (k a)) \<Longrightarrow> keeps (\<lambda>s. bindR m (\<lambda>a. k a s))"
  by (cases m) (auto simp: keeps_def)

lemma keeps_seqR [simp]: "list_all keeps es \<Longrightarrow> keeps (seqR es)"
  by (simp add: keeps_seqR_iff list_all_iff)

lemma keeps_whenR [simp]: "(p \<Longrightarrow> list_all keeps es) \<Longrightarrow> keeps (whenR p es)"
  by (cases p) (simp_all add: whenR_def)

lemma eff_seqR_list:
  assumes "\<forall>e \<in> set es. eff W {} e"
  shows "eff W {} (seqR es)"
  using assms
proof (induction es)
  case (Cons e es)
  show ?case
  proof (rule effI)
    fix s s' assume "labels_wf s" "seqR (e # es) s = Inr s'"
    then obtain t where t: "e s = Inr t" "seqR es t = Inr s'" by (auto simp: bindR_eq_Inr)
    have 1: "label_effect W {} s t" using Cons.prems \<open>labels_wf s\<close> t(1) by (auto intro: effD)
    then have "labels_wf t" by (simp add: label_effect_def)
    then have "label_effect W {} t s'" using Cons t(2) by (auto intro: effD)
    with 1 show "label_effect W {} s s'" using label_effect_trans by fastforce
  qed
qed simp

lemma eff_seqR_at:
  assumes "\<forall>e \<in> set es. eff W {} e" "e \<in> set es" "eff W {l} e"
  shows "eff W {l} (seqR es)"
  using assms
proof (induction es)
  case (Cons x es)
  show ?case
  proof (rule effI)
    fix s s' assume wf: "labels_wf s" and "seqR (x # es) s = Inr s'"
    then obtain t where t: "x s = Inr t" "seqR es t = Inr s'" by (auto simp: bindR_eq_Inr)
    have 0: "label_effect W {} s t" using Cons.prems wf t(1) by (auto intro: effD)
    then have w: "labels_wf t" by (simp add: label_effect_def)
    have r: "label_effect W {} t s'"
      using effD [where e = "seqR es", OF eff_seqR_list w t(2)] Cons.prems(1) by simp
    show "label_effect W {l} s s'"
    proof (cases "e = x")
      case True
      then have "label_effect W {l} s t" using effD [OF Cons.prems(3)] wf t(1) by simp
      then show ?thesis using label_effect_trans [OF _ r] by fastforce
    next
      case False
      then have "eff W {l} (seqR es)" using Cons by simp
      then show ?thesis using label_effect_trans [OF 0 effD [where e = "seqR es", OF _ w t(2)]] by fastforce
    qed
  qed
qed simp

lemma eff_collect:
  assumes "eff W {} e" "\<forall>l \<in> B. eff W {l} e"
  shows "eff W B e"
proof (rule effI)
  fix s s' assume a: "labels_wf s" "e s = Inr s'"
  have "label_effect W {l} s s'" if "l \<in> B" for l using effD [OF bspec [OF assms(2) that] a] .
  moreover have "label_effect W {} s s'" using effD [OF assms(1) a] .
  ultimately show "label_effect W B s s'" by (auto simp: label_effect_def)
qed

lemma eff_seqR [simp]:
  assumes "list_all (eff W {}) es" "\<forall>l \<in> B. list_ex (eff W {l}) es"
  shows "eff W B (seqR es)"
proof -
  have "eff W {l} (seqR es)" if l: "l \<in> B" for l
  proof -
    obtain e where "e \<in> set es" "eff W {l} e" using assms(2) l by (auto simp: list_ex_iff)
    then show ?thesis using assms(1) by (intro eff_seqR_at) (auto simp: list_all_iff)
  qed
  moreover have "eff W {} (seqR es)" using assms(1) by (intro eff_seqR_list) (simp add: list_all_iff)
  ultimately show ?thesis using eff_collect by blast
qed

lemma eff_rules [simp]:
  "eff W B e \<Longrightarrow> eff W B (asserting p msg e)"
  "eff W B e \<Longrightarrow> eff W B e' \<Longrightarrow> eff W B (if p then e else e')"
  "eff W B (\<lambda>s. Inl x)"
  by (auto simp: eff_def asserting_eq_Inr)

lemma eff_withR [simp]: "(\<And>a. m = Inr a \<Longrightarrow> eff W B (k a)) \<Longrightarrow> eff W B (withR m k)"
  by (cases m) (auto simp: eff_def)

lemma eff_whenR [simp]: "(p \<Longrightarrow> eff W {} (seqR es)) \<Longrightarrow> eff W {} (whenR p es)"
  by (cases p) (simp_all add: whenR_def)

lemma new_label:
  assumes "labels_wf s"
  defines "t \<equiv> s\<lparr>asm_labels := asm_labels s @ [\<lparr>bound_at = None, patch_sites = []\<rparr>]\<rparr>"
  shows "labels_wf t" "bound_labels t = bound_labels s" "waited_for t = waited_for s"
    "length (asm_labels t) = Suc (length (asm_labels s))"
  using assms by (auto simp: labels_wf_def bound_labels_def waited_for_def nth_append split: if_splits)

text \<open>A label that is bound where it is declared leaves nothing behind; so does one nobody branches to.\<close>

lemma eff_with_label [simp]:
  assumes "\<And>l. eff (insert l W) (insert l B) (k l)"
  shows "eff W B (with_label k)"
proof (rule effI)
  fix s s' :: "'a asm"
  assume wf: "labels_wf s" and r: "with_label k s = Inr s'"
  let ?t = "s\<lparr>asm_labels := asm_labels s @ [\<lparr>bound_at = None, patch_sites = []\<rparr>]\<rparr>"
  have "label_effect (insert (length (asm_labels s)) W) (insert (length (asm_labels s)) B) ?t s'"
    using effD [OF assms new_label(1) [OF wf]] r by (simp add: with_label_def)
  then show "label_effect W B s s'"
    using new_label [OF wf] by (auto simp: label_effect_def labels_wf_def)
qed

lemma eff_unused_label:
  assumes "\<And>l. eff W B (k l)"
  shows "eff W B (with_label k)"
proof (rule effI)
  fix s s' :: "'a asm"
  assume wf: "labels_wf s" and r: "with_label k s = Inr s'"
  let ?t = "s\<lparr>asm_labels := asm_labels s @ [\<lparr>bound_at = None, patch_sites = []\<rparr>]\<rparr>"
  have "label_effect W B ?t s'"
    using effD [OF assms new_label(1) [OF wf]] r by (simp add: with_label_def)
  then show "label_effect W B s s'"
    using new_label [OF wf] by (auto simp: label_effect_def labels_wf_def)
qed

lemma add_patch_effect:
  assumes "labels_wf s" "l < length (asm_labels s)" "bound_at (asm_labels s ! l) = None" "l \<in> W"
  shows "label_effect W {} s (add_patch_at l a s)"
  using assms
  by (auto simp: label_effect_def labels_wf_def bound_labels_def waited_for_def add_patch_at_def nth_list_update
      split: if_splits)

lemma eff_branch [simp]:
  assumes "\<And>t. keeps (br t)" "l \<in> W"
  shows "eff W {} (branch_to_label l br)"
proof (rule effI)
  fix s s' assume wf: "labels_wf s" and r: "branch_to_label l br s = Inr s'"
  show "label_effect W {} s s'"
  proof (cases "bound_at (asm_labels s ! l)")
    case (Some t)
    then have "br t s = Inr s'" using r by (simp add: branch_to_label_def split: if_splits)
    then show ?thesis using label_effect_same [OF keepsD [OF assms(1)] wf] by simp
  next
    case None
    then have l: "l < length (asm_labels s)" and "br (pc s) (add_patch_at l (pc s) s) = Inr s'"
      using r by (simp_all add: branch_to_label_def split: if_splits)
    moreover have 1: "label_effect W {} s (add_patch_at l (pc s) s)"
      using add_patch_effect [OF wf l None assms(2)] .
    moreover have "labels_wf (add_patch_at l (pc s) s)" using 1 by (simp add: label_effect_def)
    ultimately show ?thesis using label_effect_trans [OF 1] label_effect_same [OF keepsD [OF assms(1)]] by fastforce
  qed
qed

section \<open>Instructions\<close>

lemma keeps_patch [simp]: "keeps (pd_patch_instruction site target)"
  by (auto simp: keeps_def pd_patch_instruction_def bindR_eq_Inr asserting_eq_Inr Let_def split: if_splits)

lemma eff_bind: "l \<in> B \<Longrightarrow> B \<subseteq> {l} \<Longrightarrow> eff W B (asm_bind l)"
proof (rule effI)
  fix s s' :: "'a::len word asm"
  assume B: "l \<in> B" "B \<subseteq> {l}" and wf: "labels_wf s" and r: "asm_bind l s = Inr s'"
  let ?s = "s\<lparr>asm_labels := (asm_labels s)[l := \<lparr>bound_at = Some (pc s), patch_sites = []\<rparr>]\<rparr>"
  let ?fix = "seqR (map (\<lambda>site. pd_patch_instruction site (pc s)) (patch_sites (asm_labels s ! l)))"
  have l: "l < length (asm_labels s)" and f: "?fix ?s = Inr s'"
    using r by (simp_all add: asm_bind_def split: if_splits)
  have "keeps ?fix" by (simp add: list_all_iff)
  then have e: "asm_labels s' = asm_labels ?s" using f by (rule keepsD)
  show "label_effect W B s s'"
    using wf B l by (auto simp: label_effect_def labels_wf_def bound_labels_def waited_for_def e nth_list_update
        split: if_splits)
qed

lemma eff_bind_simps [simp]: "eff W {l} (asm_bind l)" "eff W {} (asm_bind l)"
proof -
  show "eff W {l} (asm_bind l)" by (rule eff_bind) simp_all
  then show "eff W {} (asm_bind l)" by (rule eff_weaken) simp_all
qed

lemma keeps_forms [simp]:
  "keeps (emit_I opcode li aa lk)" "keeps (emit_B opcode bo bi bd aa lk)" "keeps (emit_D opcode x y z)"
  "keeps (emit_DS opcode x y z d)" "keeps (emit_X opcode x y z xo rc)" "keeps (emit_M opcode x y z d e rc)"
  by (simp_all add: emit_I_def emit_B_def emit_D_def emit_DS_def emit_X_def emit_M_def Let_def)

lemmas form_defs = emit_D_RRi_def emit_DS_RRii_def emit_D_FRi_def emit_D_RA_def emit_DS_RA_def emit_D_FA_def
  emit_X_Rii_def emit_X_RRR_def emit_X_RS_def emit_X_SR_def emit_M_RR_def emit_X_iRR_def emit_X_CR_def
  emit_D_CR_def emit_X_FiF_def

lemma keeps_address_branches [simp]:
  "keeps (asm_b t)" "keeps (asm_bc i j t)" "keeps (asm_bcl i j t)" "keeps (asm_bl t)"
  by (auto intro!: keepsI simp: asm_defs bindR_eq_Inr keepsD [OF keeps_forms(1)] keepsD [OF keeps_forms(2)])

lemma keeps_instructions [simp]:
    "keeps (asm_add x y z)" "keeps (asm_addi x y i)" "keeps (asm_addis x y i)" "keeps (asm_andi_rc x y i)"
    "keeps (asm_bcctrl i j)"
    "keeps (asm_bclr i j)" "keeps (asm_bclrl i j)" "keeps (asm_cmp c q x y)"
    "keeps (asm_cmpi c q x i)" "keeps (asm_dcbf x y)" "keeps (asm_extsb x y)" "keeps (asm_extsh x y)"
    "keeps (asm_fmr f g)" "keeps (asm_icbi x y)" "keeps asm_isync" "keeps (asm_lbzx x y z)"
    "keeps (asm_lfd f a)" "keeps (asm_lfs f a)" "keeps (asm_lhz x a)" "keeps (asm_lhzx x y z)"
    "keeps (asm_lwarx x y z)" "keeps (asm_lwz x a)" "keeps (asm_lwzx x y z)" "keeps (asm_mfcr x)"
    "keeps (asm_mfspr x p)" "keeps (asm_mtcrf i x)" "keeps (asm_mtspr p x)" "keeps (asm_neg x y)"
    "keeps (asm_OR x y z)" "keeps (asm_ori x y i)" "keeps (asm_oris x y i)" "keeps (asm_rlwinm x y i j k)"
    "keeps (asm_stfd f a)" "keeps (asm_stfs f a)" "keeps (asm_stw x a)" "keeps (asm_stwcx_rc x y z)"
    "keeps (asm_stwu x a)" "keeps (asm_stwux x y z)" "keeps (asm_stwx x y z)" "keeps (asm_subf x y z)"
    "keeps (asm_subfic x y i)" "keeps asm_sync" "keeps (asm_extsw x y)" "keeps (asm_ld x a)"
    "keeps (asm_ldarx x y z)" "keeps (asm_ldx x y z)" "keeps (asm_rldicl x y i j)"
    "keeps (asm_rldicr x y i j)" "keeps (asm_std x a)" "keeps (asm_stdcx_rc x y z)" "keeps (asm_stdu x a)"
    "keeps (asm_stdux x y z)" "keeps (asm_stdx x y z)" "keeps asm_bctrl" "keeps asm_beqlr" "keeps asm_blelr"
    "keeps asm_blr" "keeps asm_blrl" "keeps (asm_cmpw c x y)" "keeps (asm_cmpwi c x i)" "keeps (asm_la x a)"
    "keeps (asm_li x i)" "keeps (asm_lis x i)" "keeps (asm_mr x y)" "keeps (asm_mfctr x)"
    "keeps (asm_mflr x)" "keeps (asm_mtcr x)" "keeps (asm_mtctr x)" "keeps (asm_mtlr x)" "keeps asm_nop"
    "keeps (asm_slwi x y i)" "keeps (asm_srwi x y i)" "keeps (asm_sub x y z)" "keeps (asm_subi x y i)"
    "keeps (asm_cmpd c x y)" "keeps (asm_cmpdi c x i)" "keeps (asm_sldi x y i)" "keeps (asm_srdi x y i)"
  by (simp_all add: asm_defs form_defs keeps_bindR Let_def)

lemma eff_branches [simp]:
    "l \<in> W \<Longrightarrow> eff W {} (asm_b_label l)"
    "l \<in> W \<Longrightarrow> eff W {} (asm_bc_label i j l)"
    "l \<in> W \<Longrightarrow> eff W {} (asm_bl_label l)"
    "l \<in> W \<Longrightarrow> eff W {} (asm_bdnz l)" "l \<in> W \<Longrightarrow> eff W {} (asm_beq l)"
    "l \<in> W \<Longrightarrow> eff W {} (asm_bge l)" "l \<in> W \<Longrightarrow> eff W {} (asm_bgt l)"
    "l \<in> W \<Longrightarrow> eff W {} (asm_ble l)" "l \<in> W \<Longrightarrow> eff W {} (asm_blt l)"
    "l \<in> W \<Longrightarrow> eff W {} (asm_bne_cr c l)"
    "l \<in> W \<Longrightarrow> eff W {} (asm_bne l)"
  by (simp_all add: asm_defs)

section \<open>Macros, frames and calls\<close>

lemma keeps_nop_loop [simp]: "keeps (masm_align_loop m)"
proof (rule keepsI)
  fix s s' :: "'a asm"
  show "masm_align_loop m s = Inr s' \<Longrightarrow> asm_labels s' = asm_labels s"
  proof (induction m s rule: masm_align_loop.induct)
    case (1 m s)
    then show ?case
      by (subst (asm) masm_align_loop.simps) (auto simp: bindR_eq_Inr emitsD [OF emits_nop] split: if_splits)
  qed
qed

lemma keeps_macros [simp]:
  "keeps (masm_compare_cr_i arch c x i)" "keeps (masm_compare_cr arch c x y)"
  "keeps (masm_compare_i arch x i)" "keeps (masm_compare arch x y)"
  "keeps (masm_load arch x v)" "keeps (masm_load_A arch x a)"
  "keeps (masm_load_and_reserve_indexed arch x y z)" "keeps (masm_load_indexed arch x y z)"
  "keeps (masm_shift_left arch x y i)" "keeps (masm_shift_right arch x y i)"
  "keeps (masm_store arch x a)" "keeps (masm_store_conditional_indexed arch x y z)"
  "keeps (masm_store_indexed arch x y z)" "keeps (masm_store_update arch x a)"
  "keeps (masm_store_update_indexed arch x y z)" "keeps (masm_lbax x y z)" "keeps (masm_lhax x y z)"
  "keeps (masm_lwa arch x a)" "keeps (masm_lwax arch x y z)" "keeps (masm_call_reg arch x)"
  by (cases arch;
      simp add: masm_compare_cr_i_def masm_compare_cr_def masm_compare_i_def masm_compare_def masm_load_def
        masm_load_32_def masm_load_64_def masm_load_A_def masm_load_and_reserve_indexed_def masm_load_indexed_def
        masm_shift_left_def masm_shift_right_def masm_store_def masm_store_conditional_indexed_def
        masm_store_indexed_def masm_store_update_def masm_store_update_indexed_def masm_lbax_def masm_lhax_def
        masm_lwa_def masm_lwax_def masm_call_reg_def Let_def)+

lemma keeps_calls [simp]:
  "keeps (masm_call arch t)" "keeps masm_mpclr" "keeps (masm_enter arch)"
  by (auto simp: masm_call_def Let_def intro!: keepsI simp: masm_mpclr_def masm_enter_def emit_address_64_def
      keepsD [OF keeps_address_branches(3)] emit_long_def split: arch.splits)

lemma keeps_reports [simp]:
  "keeps (masm_should_not_reach_here arch vm file line)" "keeps (masm_unimplemented arch vm file line)"
  "keeps (masm_verify_oop vm x msg)" "keeps (masm_get_mirror_handle arch vm x)"
  "keeps (masm_serialize_memory arch vm x y)" "keeps (masm_calc_padding_for_alignment y z i)"
  by (auto simp: masm_should_not_reach_here_def masm_unimplemented_def masm_report_and_die_def
      masm_get_mirror_handle_def masm_serialize_memory_def masm_calc_padding_for_alignment_def
      masm_verify_oop_def keeps_def [of "masm_verify_oop vm x msg"] split: option.split)

lemma keeps_each [simp]:
  "(\<And>x a. keeps (store x a)) \<Longrightarrow> list_all keeps (each_gpr arch store lo hi at)"
  "(\<And>x a. keeps (fstore x a)) \<Longrightarrow> list_all keeps (each_fpr arch fstore lo hi at)"
  by (simp_all add: each_gpr_def each_fpr_def list_all_iff)

lemma keeps_frame_code [simp]: "list_all keeps (prolog_code arch f)" "list_all keeps (epilog_code arch f)"
  by (simp_all add: prolog_code_def epilog_code_def Let_def)

lemma prolog_labels: "masm_prolog arch f s = Inr (f', s') \<Longrightarrow> asm_labels s' = asm_labels s"
  by (auto simp: masm_prolog_def generate_prolog_def bindR_eq_Inr asserted_eq_Inr Let_def
      dest!: keepsD [OF keeps_seqR, rotated])

lemma epilog_labels: "masm_epilog arch f s = Inr (f', s') \<Longrightarrow> asm_labels s' = asm_labels s"
  by (auto simp: masm_epilog_def generate_epilog_def bindR_eq_Inr asserted_eq_Inr Let_def
      dest!: keepsD [OF keeps_seqR, rotated])

lemma keeps_with_frame [simp]:
  assumes "\<And>f. keeps (body f)"
  shows "keeps (with_frame arch frame body)"
  using keepsD [OF assms]
  by (auto intro!: keepsI simp: with_frame_def bindR_eq_Inr split_beta dest!: prolog_labels epilog_labels)

lemma mr_labels: "asm_mr x y s = Inr s' \<Longrightarrow> asm_labels s' = asm_labels s"
  by (rule keepsD [OF keeps_instructions(64)])

lemma call_labels: "masm_call arch t s = Inr s' \<Longrightarrow> asm_labels s' = asm_labels s"
  by (rule keepsD [OF keeps_calls(1)])

lemma keeps_pass_args [simp]: "keeps (call_VM_pass_args x y z)"
  by (auto intro!: keepsI simp: call_VM_pass_args_def bindR_eq_Inr asserted_eq_Inr asserting_eq_Inr
      dest!: mr_labels split: if_splits)

section \<open>Code with labels of its own\<close>

lemma eff_cmpxchg [simp]: "eff W {} (masm_cmpxchg arch x y z)"
  by (simp add: masm_cmpxchg_def)

lemma eff_maybe_extend_frame [simp]: "eff W {} (masm_maybe_extend_frame arch x y)"
  by (simp add: masm_maybe_extend_frame_def extend_frame_code_def Let_def split: option.split)

lemma call_VM_base_ok: "eff W {} (with_label (\<lambda>ok. seqR [
    masm_load_A arch r0 a, masm_compare_i arch r0 0, asm_beq ok, masm_unimplemented arch vm file line, asm_bind ok]))"
  by simp

lemma eff_call_VM_base [simp]: "eff W {} (call_VM_base arch vm x t i)"
proof (rule effI)
  fix s s'
  assume wf: "labels_wf s" and r: "call_VM_base arch vm x t i s = Inr s'"
  let ?check = "whenR (i AND CALL_VM_NO_EXCEPTION_CHECKS = 0) [with_label (\<lambda>ok. seqR [
    masm_load_A arch r0 (mk_Address Rthread (pending_exception_offset vm)), masm_compare_i arch r0 0, asm_beq ok,
    masm_unimplemented arch vm (file_literal vm) 1226, asm_bind ok])]"
  have report: "keeps (whenR (Register_is_valid x) [masm_unimplemented arch vm (file_literal vm) 1231])"
    by simp
  obtain s1 s2 where "asm_labels s1 = asm_labels s" and c: "?check s1 = Inr s2" and "asm_labels s' = asm_labels s2"
    using r by (auto simp: call_VM_base_def Let_def bindR_eq_Inr split_beta split: if_splits
        dest!: prolog_labels epilog_labels mr_labels call_labels keepsD [OF report])
  moreover have "eff W {} ?check" by (simp add: call_VM_base_ok)
  from effD [OF this _ c] have "labels_wf s1 \<Longrightarrow> label_effect W {} s1 s2" .
  ultimately show "label_effect W {} s s'"
    using wf by (auto simp: label_effect_def labels_wf_def bound_labels_def waited_for_def)
qed

lemma eff_interp_masm [simp]:
  "eff W {} (imasm_call_VM_base arch vm x t i)" "eff W {} (imasm_call_VM_1 arch vm x t y i)"
  "eff W {} (imasm_call_VM_3 arch vm x t y z u i)"
  "keeps (imasm_fixup_after_potential_safepoint arch vm)" "keeps (imasm_reset_last_Java_frame arch vm)"
  "keeps (imasm_set_last_Java_frame arch vm y)"
  "keeps (imasm_call_VM_leaf_base arch t)"
  "eff W {} (imasm_lock_object arch vm y)" "eff W {} (imasm_unlock_object arch vm y)"
  by (simp_all add: imasm_call_VM_base_def imasm_call_VM_1_def imasm_call_VM_3_def imasm_set_last_Java_frame_def
      imasm_fixup_after_potential_safepoint_def imasm_reset_last_Java_frame_def imasm_call_VM_leaf_base_def
      call_VM_leaf_base_def imasm_lock_object_def imasm_unlock_object_def Let_def)

lemma eff_debug_check [simp]:
  assumes "list_all keeps comparison" "\<And>W l. l \<in> W \<Longrightarrow> eff W {} (br l)"
  shows "eff W {} (debug_check arch vm line br comparison)"
  using assms by (simp add: debug_check_def list_all_iff)

lemma eff_call_stub_check [simp]:
  assumes "list_all keeps comparison"
  shows "eff W {} (call_stub_check arch vm file line comparison)"
  using assms by (simp add: call_stub_check_def list_all_iff)

lemma eff_safepoint_check [simp]: "l \<in> W \<Longrightarrow> eff W {} (safepoint_check arch vm l)"
  by (simp add: safepoint_check_def)

section \<open>The generators\<close>

lemma eff_call_stub_parts [simp]:
  "eff W {} (call_stub_copy arch)"
  "l \<in> W \<Longrightarrow> eff W {} (call_stub_result_code arch vm l)"
  "list_all keeps (call_stub_frame_code arch i j)" "list_all keeps (call_stub_restore_code arch)"
  "list_all keeps (call_stub_unwind_code arch)"
  by (auto simp: call_stub_copy_def call_stub_copy_step_def call_stub_result_code_def call_stub_frame_code_def
      call_stub_restore_code_def call_stub_unwind_code_def Let_def list_all_iff split: arch.split option.split)

lemma eff_accessor [simp]: "eff W {} (accessor_load_code arch vm)"
  by (simp add: accessor_load_code_def Let_def)

lemma eff_adjust_callers_stack [simp]: "eff W {} (generate_adjust_callers_stack arch vm)"
  by (simp add: generate_adjust_callers_stack_def Let_def)

lemma keeps_interp [simp]:
  "list_all keeps (interp_flags_code arch vm)" "list_all keeps (interp_stack_size_code arch vm n)"
  "list_all keeps (interp_frame_code arch n)" "list_all keeps (interp_fields_code arch vm)"
  "list_all keeps (move_pointer arch vm field)"
  "keeps (generate_unwind_interpreter_state arch vm)" "keeps (generate_convert_result arch vm i)"
  by (simp_all add: interp_flags_code_def interp_stack_size_code_def interp_frame_code_def interp_fields_code_def
      move_pointer_def generate_unwind_interpreter_state_def generate_convert_result_def Let_def)

lemma list_eff_keeps [simp]: "list_all keeps es \<Longrightarrow> list_all (eff W {}) es"
  by (auto simp: list_all_iff)

lemma eff_interp [simp]:
  "list_all (eff W {}) (interp_other_fields_code arch vm n)"
  "eff W {} (generate_compute_interpreter_state arch vm n)"
  "eff W {} (generate_more_monitors arch vm)"
  by (simp_all add: interp_other_fields_code_def generate_compute_interpreter_state_def generate_more_monitors_def Let_def)

lemma eff_native_prepare [simp]: "l \<in> W \<Longrightarrow> eff W {} (native_prepare_code arch vm l)"
  unfolding native_prepare_code_def Let_def
  by (rule eff_with_label, rule eff_with_label, rule eff_unused_label) simp

lemma eff_native [simp]:
  "eff W {} (native_call_code arch vm)" "l \<in> W \<Longrightarrow> eff W {} (native_result_code arch vm l)"
  by (simp_all add: native_call_code_def native_result_code_def Let_def)

lemma eff_normal_entry: "l \<in> W \<Longrightarrow> eff W {l} (normal_entry_code arch vm start l)"
  by (simp add: normal_entry_code_def call_interpreter_code_def call_method_code_def return_from_method_code_def)

section \<open>Whole routines\<close>

lemma effect_all:
  assumes "label_effect W B s s'" "waited_for s \<subseteq> W" "W \<subseteq> B"
  shows "waited_for s' = {}" "labels_wf s'"
  using assms unfolding label_effect_def labels_wf_def by blast+

lemma no_wait_wf: "waited_for s = {} \<Longrightarrow> labels_wf s"
  by (simp add: labels_wf_def)

lemma from_here_effect:
  assumes "from_here e s = Inr (a, s')" "eff W B e" "labels_wf s"
  shows "label_effect W B s s'"
  using assms by (auto simp: from_here_def bindR_eq_Inr intro: effD)

lemma eff_nothing: "eff {} {} e \<Longrightarrow> e s = Inr s' \<Longrightarrow> waited_for s = {} \<Longrightarrow> waited_for s' = {}"
  using effD [of "{}" "{}" e s s'] no_wait_wf [of s] by (auto simp: label_effect_def)

lemma eff_nothing_seq: "seqR es s = Inr s' \<Longrightarrow> list_all (eff {} {}) es \<Longrightarrow> waited_for s = {} \<Longrightarrow> waited_for s' = {}"
  by (rule eff_nothing [where e = "seqR es"]) simp_all

lemma call_stub_waits:
  assumes "generate_call_stub arch vm (g, s) = Inr (a, g', s')" "waited_for s = {}"
  shows "waited_for s' = {}"
  using assms
  by (auto simp: generate_call_stub_def Let_def bindR_eq_Inr asserted_eq_Inr simp del: seqR.simps dest!: eff_nothing_seq)

text \<open>
  The entries of empty methods and of accessors branch to the static label of the slow path; it
  is bound where the entry of ordinary methods is generated.
\<close>

lemma normal_entry_effect:
  assumes "generate_normal_entry arch vm l n (c, s) = Inr (a, c', s')" "normal_entry c = None" "labels_wf s"
  shows "label_effect {l} {l} s s'" "normal_entry c' = Some a"
proof -
  have "normal_entry_code arch vm (pc s) l s = Inr s'" and 1: "c' = c\<lparr>normal_entry := Some a\<rparr>"
    using assms(1,2) by (auto simp: generate_normal_entry_def Let_def bindR_eq_Inr asserted_eq_Inr)
  moreover have "eff {l} {l} (normal_entry_code arch vm (pc s) l)" by (rule eff_normal_entry) simp
  ultimately show "label_effect {l} {l} s s'" using assms(3) by (auto dest: effD)
  show "normal_entry c' = Some a" using 1 by simp
qed

lemma special_entries_effect:
  assumes "labels_wf s"
  shows "generate_empty_entry arch vm l s = Inr (a, s') \<Longrightarrow> label_effect {l} {} s s'"
    "generate_accessor_entry arch vm l s = Inr (a, s') \<Longrightarrow> label_effect {l} {} s s'"
proof -
  have 0: "label_effect {l} {} s s" using assms by (simp add: label_effect_same)
  have e: "eff {l} {} (seqR [safepoint_check arch vm l, asm_blr])" by simp
  show "generate_empty_entry arch vm l s = Inr (a, s') \<Longrightarrow> label_effect {l} {} s s'"
    using from_here_effect [OF _ e assms] 0 by (auto simp: generate_empty_entry_def simp del: seqR.simps split: if_splits)
  show "generate_accessor_entry arch vm l s = Inr (a, s') \<Longrightarrow> label_effect {l} {} s s'"
    using 0 by (auto simp: generate_accessor_entry_def Let_def simp del: seqR.simps split: if_splits
        elim!: from_here_effect [OF _ _ assms])
qed

lemma icache_flush_waits:
  assumes "generate_icache_flush arch n s = Inr (a, s')" "waited_for s = {}"
  shows "waited_for s' = {}"
proof -
  have "list_all (eff {} {}) [masm_enter arch,
           with_label (\<lambda>loop1. with_label (\<lambda>loop2. seqR (
             [masm_compare_i arch r4 0,
              asm_blelr] @
             flush_loop asm_dcbf loop1 @
             [asm_sync] @
             flush_loop asm_icbi loop2 @
             [asm_isync,
              asm_mr r3 r5,
              asm_blr])))]"
    by (simp add: flush_loop_def flush_step_def Let_def)
  then show ?thesis
    using assms by (auto simp: generate_icache_flush_def Let_def bindR_eq_Inr asserted_eq_Inr simp del: seqR.simps
        dest!: eff_nothing_seq split: if_splits)
qed

section \<open>The entries of methods\<close>

text \<open>
  The entries of methods are generated one after the other, in an order the shared code
  chooses. What holds in between, \<open>l\<close> being the label of the slow path:
\<close>

definition entries_ok :: "nat \<Rightarrow> 'a entry_cache \<times> 'a asm \<Rightarrow> bool" where
  "entries_ok l = (\<lambda>(c, s). labels_wf s \<and> waited_for s \<subseteq> {l} \<and> (normal_entry c \<noteq> None \<longrightarrow> l \<in> bound_labels s))"

fun generate_entries ::
  "arch \<Rightarrow> ('w::len word, 'x) cpp_externals_scheme \<Rightarrow> nat \<Rightarrow> MethodKind list \<Rightarrow> 'w word entry_cache \<times> 'w word asm \<Rightarrow>
    ('w word entry_cache \<times> 'w word asm) result" where
  "generate_entries arch vm l [] st = Inr st"
| "generate_entries arch vm l (k # ks) st =
     bindR (generate_method_entry arch vm l k st) (\<lambda>(_, st). generate_entries arch vm l ks st)"

lemma entries_ok_step:
  assumes "label_effect {l} {} s s'" "entries_ok l (c, s)" "normal_entry c' = normal_entry c"
  shows "entries_ok l (c', s')"
  using assms by (auto simp: entries_ok_def label_effect_def)

lemma native_entry_effect:
  assumes "generate_native_entry arch vm n (c, s) = Inr (a, c', s')" "labels_wf s"
  shows "label_effect {} {} s s'" "normal_entry c' = normal_entry c"
proof -
  have "label_effect {} {} s s' \<and> normal_entry c' = normal_entry c"
  proof (cases "native_entry c")
    case None
    have "eff {} {} (native_entry_code arch vm)" by (simp add: native_entry_code_def)
    then show ?thesis
      using assms None by (auto simp: generate_native_entry_def native_entry_code_def Let_def bindR_eq_Inr
          asserted_eq_Inr simp del: seqR.simps intro: from_here_effect)
  qed (use assms in \<open>auto simp: generate_native_entry_def asserted_eq_Inr label_effect_same\<close>)
  then show "label_effect {} {} s s'" "normal_entry c' = normal_entry c" by simp_all
qed

lemma abstract_entry_labels:
  assumes "generate_abstract_entry arch vm s = Inr (a, s')"
  shows "asm_labels s' = asm_labels s"
proof -
  have "keeps (seqR [with_frame arch (new_StackFrame 0) (\<lambda>_. masm_unimplemented arch vm (interpreter_file vm) 172), asm_blr])"
    by simp
  from keepsD [OF this] show ?thesis
    using assms by (auto simp: generate_abstract_entry_def generate_unimplemented_entry_def Let_def bindR_eq_Inr
        simp del: seqR.simps)
qed

lemma math_entry_labels:
  assumes "generate_math_entry arch vm k s = Inr (a, s')"
  shows "asm_labels s' = asm_labels s"
  using assms by (auto simp: generate_math_entry_def bindR_eq_Inr dest: keepsD [OF keeps_reports(2)]
      split: if_splits option.splits)

lemma special_entry_effect:
  assumes "special_entry arch vm l k (c, s) = Inr (a, c', s')" "labels_wf s"
  shows "label_effect {l} {} s s' \<and> normal_entry c' = normal_entry c"
proof -
  have 0: "label_effect {} {} t t' \<Longrightarrow> label_effect {l} {} t t'" for t t' :: "'a word asm"
    by (rule label_effect_weaken) auto
  show ?thesis
    using assms
    by (cases k) (auto simp: special_entry_def keeping_cache_def bindR_eq_Inr label_effect_same
        dest: abstract_entry_labels math_entry_labels special_entries_effect native_entry_effect(2)
        intro: 0 native_entry_effect(1))
qed

lemma method_entry_ok:
  assumes r: "generate_method_entry arch vm l k (c, s) = Inr (a, c', s')" and ok: "entries_ok l (c, s)"
  shows "entries_ok l (c', s')"
proof -
  obtain b c1 s1 where 1: "special_entry arch vm l k (c, s) = Inr (b, c1, s1)"
    and 2: "if b \<noteq> 0 then Inr (b, c1, s1) = Inr (a, c', s') else generate_normal_entry arch vm l False (c1, s1) = Inr (a, c', s')"
    using r by (auto simp: generate_method_entry_def bindR_eq_Inr split: if_splits)
  have wf: "labels_wf s" using ok by (simp add: entries_ok_def)
  have ok1: "entries_ok l (c1, s1)" using special_entry_effect [OF 1 wf] ok by (blast intro: entries_ok_step)
  show ?thesis
  proof (cases "b \<noteq> 0 \<or> normal_entry c1 \<noteq> None")
    case True
    then have "(c', s') = (c1, s1)"
      using 2 by (auto simp: generate_normal_entry_def asserted_eq_Inr split: if_splits)
    then show ?thesis using ok1 by simp
  next
    case False
    then have "generate_normal_entry arch vm l False (c1, s1) = Inr (a, c', s')" "normal_entry c1 = None" "labels_wf s1"
      using 2 ok1 by (simp_all add: entries_ok_def)
    from normal_entry_effect(1) [OF this] show ?thesis using ok1 by (auto simp: entries_ok_def label_effect_def)
  qed
qed

lemma generate_entries_ok:
  "generate_entries arch vm l ks st = Inr st' \<Longrightarrow> entries_ok l st \<Longrightarrow> entries_ok l st'"
proof (induction ks arbitrary: st)
  case (Cons k ks)
  then show ?case by (cases st) (auto simp: bindR_eq_Inr dest: method_entry_ok)
qed simp

text \<open>
  C3. Whatever entries of methods are generated and in whatever order, starting with no branch
  waiting and with the label of the slow path bound if the entry of ordinary methods exists
  already: once the entry of ordinary methods exists, the label is bound and every branch
  emitted has been fixed up, those of the entries of accessors and of empty methods to the slow
  path included. No branch to itself is left in the code.
\<close>

theorem method_entries_resolve_labels:
  assumes "generate_entries arch vm l kinds (c, s) = Inr (c', s')"
    and "waited_for s = {}" "normal_entry c = None \<or> l \<in> bound_labels s" "normal_entry c' \<noteq> None"
  shows "waited_for s' = {} \<and> l \<in> bound_labels s'"
proof -
  have "entries_ok l (c, s)" using assms(2,3) by (auto simp: entries_ok_def no_wait_wf)
  then have "entries_ok l (c', s')" using generate_entries_ok assms(1) by blast
  then show ?thesis using assms(4) by (auto simp: entries_ok_def labels_wf_def)
qed

section \<open>Entries are generated once\<close>

text \<open>Methods that are synchronized use the entry of those that are not.\<close>

definition shares_entry :: "MethodKind \<Rightarrow> MethodKind \<Rightarrow> bool" where
  "shares_entry k k' \<longleftrightarrow> {k, k'} \<subseteq> {zerolocals, zerolocals_synchronized} \<or> {k, k'} \<subseteq> {native, native_synchronized}"

lemma normal_entry_cached:
  assumes "generate_normal_entry arch vm l n st = Inr (a, c, s)"
  shows "normal_entry c = Some a" "native_entry c = native_entry (fst st)"
    "generate_normal_entry arch vm l n' (c, s) = Inr (a, c, s)"
  using assms
  by (auto simp: generate_normal_entry_def Let_def split_beta bindR_eq_Inr asserted_eq_Inr asserted_def
      split: option.splits if_splits)

lemma native_entry_cached:
  assumes "generate_native_entry arch vm n st = Inr (a, c, s)"
  shows "native_entry c = Some a" "generate_native_entry arch vm n' (c, s) = Inr (a, c, s)"
  using assms
  by (auto simp: generate_native_entry_def Let_def split_beta bindR_eq_Inr asserted_eq_Inr asserted_def
      split: option.splits if_splits)

lemma native_entry_known:
  assumes "generate_native_entry arch vm n st = Inr (a, c, s)" "native_entry c' = native_entry c"
  shows "generate_native_entry arch vm n' (c', s') = Inr (a, c', s')"
  using assms native_entry_cached(1) [OF assms(1)]
  by (auto simp: generate_native_entry_def split_beta asserted_eq_Inr asserted_def split: if_splits)

text \<open>
  C4. The entries of ordinary and of native methods are generated once: asked again for the
  same kind of method or for its synchronized variant, the generator returns the same address
  and neither emits code nor changes what it remembers.
\<close>

theorem entries_generated_once:
  assumes "generate_method_entry arch vm l k st = Inr (a, st')" "shares_entry k k'"
  shows "generate_method_entry arch vm l k' st' = Inr (a, st')"
proof -
  obtain c s where st: "st' = (c, s)" by fastforce
  consider "{k, k'} \<subseteq> {zerolocals, zerolocals_synchronized}" | "{k, k'} \<subseteq> {native, native_synchronized}"
    using assms(2) by (auto simp: shares_entry_def)
  then show ?thesis
  proof cases
    case 1
    then have "generate_normal_entry arch vm l False st = Inr (a, c, s)"
      using assms(1) st by (auto simp: generate_method_entry_def special_entry_def split_beta)
    from normal_entry_cached(3) [OF this] show ?thesis
      using 1 st by (auto simp: generate_method_entry_def special_entry_def)
  next
    case 2
    then obtain b c1 s1 where 1: "generate_native_entry arch vm False st = Inr (b, c1, s1)"
      and n: "if b \<noteq> 0 then (b, c1, s1) = (a, c, s) else generate_normal_entry arch vm l False (c1, s1) = Inr (a, c, s)"
      using assms(1) st by (auto simp: generate_method_entry_def special_entry_def bindR_eq_Inr split: if_splits)
    have "native_entry c = native_entry c1"
      using n normal_entry_cached(2) [of arch vm l False "(c1, s1)" a c s] by (auto split: if_splits)
    from native_entry_known [OF 1 this] have "generate_native_entry arch vm False (c, s) = Inr (b, c, s)" .
    moreover have "b = 0 \<Longrightarrow> generate_normal_entry arch vm l False (c, s) = Inr (a, c, s)"
      using n normal_entry_cached(3) by simp
    ultimately show ?thesis using 2 n st by (auto simp: generate_method_entry_def special_entry_def)
  qed
qed

section \<open>Examples\<close>

definition after_normal_entry :: "32 word entry_cache \<times> 32 word asm" where
  "after_normal_entry = (\<lparr>normal_entry = Some 0x10000, native_entry = None\<rparr>,
     \<lparr>asm_base = 0x10000, asm_code = [], asm_labels = [\<lparr>bound_at = Some 0x10000, patch_sites = []\<rparr>]\<rparr>)"

lemma entries_exist:
  "case generate_entries PPC32 sample_vm 0 [empty, accessor, zerolocals] after_normal_entry of
     Inl e \<Rightarrow> False | Inr (c, s) \<Rightarrow> normal_entry c = Some 0x10000"
  by code_simp

theorem method_entries_resolve_labels_witness:
  "\<exists>c s. generate_entries PPC32 sample_vm 0 [empty, accessor, zerolocals] after_normal_entry = Inr (c, s) \<and>
     waited_for s = {} \<and> 0 \<in> bound_labels s"
proof -
  obtain c s where r: "generate_entries PPC32 sample_vm 0 [empty, accessor, zerolocals] after_normal_entry = Inr (c, s)"
    and n: "normal_entry c = Some 0x10000"
    using entries_exist by (auto split: sum.splits prod.splits)
  obtain c0 s0 where 0: "after_normal_entry = (c0, s0)" by fastforce
  then have "waited_for s0 = {}" "0 \<in> bound_labels s0"
    by (auto simp: after_normal_entry_def waited_for_def bound_labels_def)
  with method_entries_resolve_labels [OF r [unfolded 0]] show ?thesis using r n by auto
qed

theorem entries_generated_once_witness:
  "\<exists>a st. generate_method_entry PPC32 sample_vm 0 zerolocals after_normal_entry = Inr (a, st) \<and>
     generate_method_entry PPC32 sample_vm 0 zerolocals_synchronized st = Inr (a, st)"
proof -
  have "\<not> isl (generate_method_entry PPC32 sample_vm 0 zerolocals after_normal_entry)" by code_simp
  then obtain a st where r: "generate_method_entry PPC32 sample_vm 0 zerolocals after_normal_entry = Inr (a, st)"
    by (cases "generate_method_entry PPC32 sample_vm 0 zerolocals after_normal_entry") auto
  from entries_generated_once [OF r] show ?thesis using r by (auto simp: shares_entry_def)
qed

end
