(* ===== verification/WordMemory.thy ===== *)
theory WordMemory
  imports SignatureHandlers
begin

text \<open>
  The words of memory the generated code and the C++ part of the interpreter share, as an
  instance of the contract of accessors, and what the contract gives for slots at integer
  offsets from one address.
\<close>

section \<open>Slots\<close>

context byte_accessor
begin

text \<open>Slots that overlap neither directly nor around the end of the address space.\<close>

definition apart :: "int \<Rightarrow> int \<Rightarrow> bool" where
  "apart i j \<longleftrightarrow> int n \<le> \<bar>i - j\<bar> \<and> \<bar>i - j\<bar> \<le> 2 ^ LENGTH('w) - int n"

lemma apart_get:
  assumes "apart i j"
  shows "get (put m (a + word_of_int i) x) (a + word_of_int j) = get m (a + word_of_int j)"
proof -
  have r: "int n \<le> \<bar>j - i\<bar>" "\<bar>j - i\<bar> + int n \<le> 2 ^ LENGTH('w)" using assms by (auto simp: apart_def)
  then have "int n \<le> int (2 ^ LENGTH('w))" by (simp only: of_nat_power of_nat_numeral)
  then have n: "n \<le> 2 ^ LENGTH('w)" by (simp only: of_nat_le_iff)
  show ?thesis
  proof (rule get_put_disjoint [OF n])
    fix k assume k: "k < n"
    have "a + word_of_int j + of_nat k - (a + word_of_int i) = (word_of_int (j - i + int k) :: 'w word)" by simp
    also have "uint \<dots> = (j - i + int k) mod 2 ^ LENGTH('w)"
      by (simp only: unsigned_of_int take_bit_eq_mod) simp
    finally have u: "uint (a + word_of_int j + of_nat k - (a + word_of_int i)) = (j - i + int k) mod 2 ^ LENGTH('w)" .
    have "int n \<le> (j - i + int k) mod 2 ^ LENGTH('w)"
    proof (cases "i \<le> j")
      case True
      then show ?thesis using r k by (subst mod_pos_pos_trivial) auto
    next
      case False
      have "(j - i + int k) mod 2 ^ LENGTH('w) = (j - i + int k + 2 ^ LENGTH('w)) mod 2 ^ LENGTH('w)" by simp
      also have "\<dots> = j - i + int k + 2 ^ LENGTH('w)"
        using False r k by (intro mod_pos_pos_trivial) auto
      finally show ?thesis using False r k by auto
    qed
    then show "n \<le> unat (a + word_of_int j + of_nat k - (a + word_of_int i))"
      using u by (metis nat_int nat_mono unat_eq_nat_uint)
  qed
qed

text \<open>Slots written in any order, each at the offset \<open>ofs i\<close> of its index.\<close>

lemma fold_put_other:
  assumes "\<And>i. i \<in> set xs \<Longrightarrow> apart (ofs i) j"
  shows "get (fold (\<lambda>i m. put m (a + word_of_int (ofs i)) (v i)) xs m) (a + word_of_int j) = get m (a + word_of_int j)"
  using assms by (induction xs arbitrary: m) (simp_all add: apart_get)

lemma fold_put:
  assumes "distinct xs" "i \<in> set xs" "n \<le> 2 ^ LENGTH('w)"
    and "\<And>i j. i \<in> set xs \<Longrightarrow> j \<in> set xs \<Longrightarrow> i \<noteq> j \<Longrightarrow> apart (ofs i) (ofs j)"
  shows "get (fold (\<lambda>i m. put m (a + word_of_int (ofs i)) (v i)) xs m) (a + word_of_int (ofs i)) = v i"
  using assms
proof (induction xs arbitrary: m)
  case (Cons x xs)
  show ?case
  proof (cases "i = x")
    case True
    have "get (fold (\<lambda>i m. put m (a + word_of_int (ofs i)) (v i)) xs (put m (a + word_of_int (ofs x)) (v x)))
        (a + word_of_int (ofs x)) = get (put m (a + word_of_int (ofs x)) (v x)) (a + word_of_int (ofs x))"
      using Cons.prems(1,4) by (intro fold_put_other) auto
    then show ?thesis using True Cons.prems(3) by (simp add: get_put)
  qed (use Cons in simp)
qed simp

end

section \<open>Words\<close>

text \<open>Registers are as wide as the flavour says.\<close>

definition width_ok :: "arch \<Rightarrow> 'w::len itself \<Rightarrow> bool" where
  "width_ok arch _ \<longleftrightarrow> LENGTH('w) = (case arch of PPC32 \<Rightarrow> 32 | PPC64 \<Rightarrow> 64)"

lemma width_okD: "width_ok arch TYPE('w::len) \<Longrightarrow> int LENGTH('w) = 8 * wordSize arch"
  by (cases arch) (simp_all add: width_ok_def)

interpretation big_u2: multibyte "load_u2 False" "store_u2 False" 2 "\<lambda>_ bs. bs" "\<lambda>_ bs. bs"
  by unfold_locales (simp_all add: load_u2_eq store_u2_eq order_def)

interpretation big_u4: multibyte "load_u4 False" "store_u4 False" 4 "\<lambda>_ bs. bs" "\<lambda>_ bs. bs"
  by unfold_locales (simp_all add: load_u4_eq store_u4_eq order_def)

interpretation big_u8: multibyte "load_u8 False" "store_u8 False" 8 "\<lambda>_ bs. bs" "\<lambda>_ bs. bs"
  by unfold_locales (simp_all add: load_u8_eq store_u8_eq order_def)

lemma load_intptr_eq: "width_ok arch TYPE('w) \<Longrightarrow> load_intptr arch m p = be_bytes (bytes_at m (p :: 'w::len word) (nat (wordSize arch)))"
  by (cases arch) (simp_all add: load_intptr_def load_u4_eq load_u8_eq order_def width_ok_def ucast_be_bytes)

lemma store_intptr_eq:
  fixes p x :: "'w::len word"
  assumes "width_ok arch TYPE('w)"
  shows "store_intptr arch m p x = write_bytes m p (to_be (nat (wordSize arch)) x)"
proof -
  have "to_be 4 (ucast x :: 32 word) = to_be 4 x" "to_be 8 (ucast x :: 64 word) = to_be 8 x"
    unfolding to_be_def by (intro arg_cong [where f = rev] map_cong refl bit_word_eqI; auto simp: bit_simps)+
  then show ?thesis
    using assms by (cases arch) (simp_all add: store_intptr_def store_u4_eq store_u8_eq order_def)
qed

lemma intptr_multibyte:
  "width_ok arch TYPE('w::len) \<Longrightarrow>
    multibyte (load_intptr arch :: 'w mem \<Rightarrow> 'w word \<Rightarrow> 'w word) (store_intptr arch) (nat (wordSize arch)) (\<lambda>_ bs. bs) (\<lambda>_ bs. bs)"
  by unfold_locales (auto simp: load_intptr_eq store_intptr_eq width_ok_def split: arch.splits)

end
