(* ===== verification/Machine.thy ===== *)
theory Machine
  imports VMCallFacts RuntimeFrames WordMemory
begin

text \<open>
  The processor the generated code runs on, as far as frames, values and moves are concerned:
  its state, and what the architecture documents of the instructions the frames of the port are
  made with. The processor is a parameter \<open>exec\<close> of the theorems, with the hypothesis
  \<open>isa arch exec\<close> that it does what is documented; \<open>reference_cpu\<close> is one such processor.
\<close>

section \<open>The state of the machine\<close>

record 'p machine =
  m_gpr :: "nat \<Rightarrow> 'p"
  m_fpr :: "nat \<Rightarrow> 64 word"
  m_lr :: 'p
  m_ctr :: 'p
  m_cr :: "32 word"
  m_so :: bool
  m_mem :: "'p \<Rightarrow> 8 word"

definition set_gpr :: "nat \<Rightarrow> 'p \<Rightarrow> 'p machine \<Rightarrow> 'p machine" where
  "set_gpr r x m = m\<lparr>m_gpr := (m_gpr m)(r := x)\<rparr>"

text \<open>The first field of the condition register records the sign of a result.\<close>

definition set_cr0 :: "'w::len word \<Rightarrow> 'w word machine \<Rightarrow> 'w word machine" where
  "set_cr0 x m = m\<lparr>m_cr := take_bit 28 (m_cr m) OR
     push_bit 28 ((if sint x < 0 then 8 else if x = 0 then 2 else 4) OR of_bool (m_so m))\<rparr>"

section \<open>What is documented of the instructions\<close>

definition op :: "c_int \<Rightarrow> nat" where "op w = unat (fld 26 6 w)"
definition rt :: "c_int \<Rightarrow> nat" where "rt w = unat (fld 21 5 w)"
definition ra :: "c_int \<Rightarrow> nat" where "ra w = unat (fld 16 5 w)"
definition rb :: "c_int \<Rightarrow> nat" where "rb w = unat (fld 11 5 w)"
definition xo :: "c_int \<Rightarrow> nat" where "xo w = unat (fld 1 10 w)"

definition rec_bit :: "c_int \<Rightarrow> nat" where "rec_bit w = unat (fld 0 1 w)"

definition base_of :: "c_int \<Rightarrow> 'w::len word machine \<Rightarrow> 'w word" where
  "base_of w m = (if ra w = 0 then 0 else m_gpr m (ra w))"

definition imm :: "c_int \<Rightarrow> 'w::len word" where
  "imm w = sext16 (unat (fld 0 16 w))"

definition ea_D :: "c_int \<Rightarrow> 'w::len word machine \<Rightarrow> 'w word" where
  "ea_D w m = base_of w m + imm w"

definition ea_DS :: "c_int \<Rightarrow> 'w::len word machine \<Rightarrow> 'w word" where
  "ea_DS w m = base_of w m + sext16 (4 * unat (fld 2 14 w))"

text \<open>Instructions of the D-form and the DS-form.\<close>

definition documented_D :: "arch \<Rightarrow> c_int \<Rightarrow> ('w::len word machine \<Rightarrow> 'w word machine) option" where
  "documented_D arch w =
     (if op w = 14 then Some (\<lambda>m. set_gpr (rt w) (base_of w m + imm w) m)
      else if op w = 8 then Some (\<lambda>m. set_gpr (rt w) (imm w - m_gpr m (ra w)) m)
      else if op w = 28 then Some (\<lambda>m. let x = m_gpr m (rt w) AND ucast (fld 0 16 w) in set_cr0 x (set_gpr (ra w) x m))
      else if op w = 32 then Some (\<lambda>m. set_gpr (rt w) (ucast (load_u4 False (m_mem m) (ea_D w m))) m)
      else if op w = 36 then Some (\<lambda>m. m\<lparr>m_mem := store_u4 False (m_mem m) (ea_D w m) (ucast (m_gpr m (rt w)))\<rparr>)
      else if op w = 40 then Some (\<lambda>m. set_gpr (rt w) (ucast (load_u2 False (m_mem m) (ea_D w m))) m)
      else if op w = 50 then Some (\<lambda>m. m\<lparr>m_fpr := (m_fpr m)(rt w := load_u8 False (m_mem m) (ea_D w m))\<rparr>)
      else if op w = 54 then Some (\<lambda>m. m\<lparr>m_mem := store_u8 False (m_mem m) (ea_D w m) (m_fpr m (rt w))\<rparr>)
      else if arch = PPC64 \<and> op w = 58 \<and> fld 0 2 w = 0
        then Some (\<lambda>m. set_gpr (rt w) (ucast (load_u8 False (m_mem m) (ea_DS w m))) m)
      else if arch = PPC64 \<and> op w = 62 \<and> fld 0 2 w = 0
        then Some (\<lambda>m. m\<lparr>m_mem := store_u8 False (m_mem m) (ea_DS w m) (ucast (m_gpr m (rt w)))\<rparr>)
      else None)"

text \<open>
  Instructions of the X-form and the XO-form (opcode 31, no record bit). A special register is
  named by the fields of \<open>ra\<close> and \<open>rb\<close>; \<open>mtcrf\<close> with a mask of ones has 15 and 30 there.
\<close>

definition documented_X :: "arch \<Rightarrow> c_int \<Rightarrow> ('w::len word machine \<Rightarrow> 'w word machine) option" where
  "documented_X arch w =
     (if op w \<noteq> 31 \<or> rec_bit w \<noteq> 0 then None
      else if xo w = 266 then Some (\<lambda>m. set_gpr (rt w) (m_gpr m (ra w) + m_gpr m (rb w)) m)
      else if xo w = 40 then Some (\<lambda>m. set_gpr (rt w) (m_gpr m (rb w) - m_gpr m (ra w)) m)
      else if xo w = 104 \<and> rb w = 0 then Some (\<lambda>m. set_gpr (rt w) (- m_gpr m (ra w)) m)
      else if xo w = 444 then Some (\<lambda>m. set_gpr (ra w) (m_gpr m (rt w) OR m_gpr m (rb w)) m)
      else if xo w = 954 \<and> rb w = 0 then Some (\<lambda>m. set_gpr (ra w) (scast (ucast (m_gpr m (rt w)) :: 8 word)) m)
      else if xo w = 922 \<and> rb w = 0 then Some (\<lambda>m. set_gpr (ra w) (scast (ucast (m_gpr m (rt w)) :: 16 word)) m)
      else if xo w = 986 \<and> rb w = 0 then Some (\<lambda>m. set_gpr (ra w) (scast (ucast (m_gpr m (rt w)) :: 32 word)) m)
      else if xo w = 19 \<and> ra w = 0 \<and> rb w = 0 then Some (\<lambda>m. set_gpr (rt w) (ucast (m_cr m)) m)
      else if xo w = 144 \<and> ra w = 15 \<and> rb w = 30 then Some (\<lambda>m. m\<lparr>m_cr := ucast (m_gpr m (rt w))\<rparr>)
      else if xo w = 339 \<and> ra w = 8 \<and> rb w = 0 then Some (\<lambda>m. set_gpr (rt w) (m_lr m) m)
      else if xo w = 467 \<and> ra w = 8 \<and> rb w = 0 then Some (\<lambda>m. m\<lparr>m_lr := m_gpr m (rt w)\<rparr>)
      else if xo w = 467 \<and> ra w = 9 \<and> rb w = 0 then Some (\<lambda>m. m\<lparr>m_ctr := m_gpr m (rt w)\<rparr>)
      else if xo w = (case arch of PPC32 \<Rightarrow> 183 | PPC64 \<Rightarrow> 181) \<and> ra w \<noteq> 0
        then Some (\<lambda>m. let ea = m_gpr m (ra w) + m_gpr m (rb w)
          in set_gpr (ra w) ea (m\<lparr>m_mem := store_intptr arch (m_mem m) ea (m_gpr m (rt w))\<rparr>))
      else None)"

text \<open>Shifts to the left: \<open>slwi\<close> and \<open>sldi\<close>, by less than 32.\<close>

definition documented_M :: "arch \<Rightarrow> c_int \<Rightarrow> ('w::len word machine \<Rightarrow> 'w word machine) option" where
  "documented_M arch w =
     (if rec_bit w = 0 \<and>
         (case arch of
            PPC32 \<Rightarrow> op w = 21 \<and> fld 6 5 w = 0 \<and> unat (fld 1 5 w) = 31 - rb w
          | PPC64 \<Rightarrow> op w = 30 \<and> unat (fld 6 5 w) = 31 - rb w \<and> fld 1 5 w = 18)
      then Some (\<lambda>m. set_gpr (ra w) (push_bit (rb w) (m_gpr m (rt w))) m)
      else None)"

definition documented :: "arch \<Rightarrow> c_int \<Rightarrow> ('w::len word machine \<Rightarrow> 'w word machine) option" where
  "documented arch w = (case documented_D arch w of Some f \<Rightarrow> Some f | None \<Rightarrow>
     case documented_X arch w of Some f \<Rightarrow> Some f | None \<Rightarrow> documented_M arch w)"

definition isa :: "arch \<Rightarrow> (c_int \<Rightarrow> 'w::len word machine \<Rightarrow> 'w word machine) \<Rightarrow> bool" where
  "isa arch exec \<longleftrightarrow> (\<forall>w f. documented arch w = Some f \<longrightarrow> exec w = f)"

definition reference_cpu :: "arch \<Rightarrow> c_int \<Rightarrow> 'w::len word machine \<Rightarrow> 'w word machine" where
  "reference_cpu arch w m = (case documented arch w of Some f \<Rightarrow> f m | None \<Rightarrow> m)"

lemma reference_cpu_isa: "isa arch (reference_cpu arch)"
  by (auto simp: isa_def reference_cpu_def)

section \<open>What emitted code does\<close>

text \<open>\<open>runs exec e f\<close>: the code that \<open>e\<close> emits changes the state of the machine by \<open>f\<close>.\<close>

definition runs :: "(c_int \<Rightarrow> 'm \<Rightarrow> 'm) \<Rightarrow> 'a emitter \<Rightarrow> ('m \<Rightarrow> 'm) \<Rightarrow> bool" where
  "runs exec e f \<longleftrightarrow> (\<exists>ws. emits e ws \<and> (\<forall>m. fold exec ws m = f m))"

lemma runs_one: "emits e [w] \<Longrightarrow> exec w = f \<Longrightarrow> runs exec e f"
  by (auto simp: runs_def)

lemma runs_Nil: "runs exec (seqR []) (\<lambda>m. m)"
  by (auto simp: runs_def intro!: exI [of _ "[]"])

lemma runs_append: "runs exec (seqR xs) f \<Longrightarrow> runs exec (seqR ys) g \<Longrightarrow> runs exec (seqR (xs @ ys)) (\<lambda>m. g (f m))"
  unfolding runs_def by (metis (no_types, lifting) emits_seq_append fold_append o_apply)

lemma runs_Cons: "runs exec e f \<Longrightarrow> runs exec (seqR es) g \<Longrightarrow> runs exec (seqR (e # es)) (\<lambda>m. g (f m))"
  unfolding runs_def by (metis (no_types, lifting) emits_seq_Cons fold_append o_apply)

lemma runs_single: "runs exec e f \<Longrightarrow> runs exec (seqR [e]) f"
  by (simp add: runs_def emits_def)

lemma runs_cong: "runs exec e f \<Longrightarrow> (\<And>m. f m = g m) \<Longrightarrow> runs exec e g"
  by (simp add: runs_def)

lemma runs_map:
  "(\<And>x. x \<in> set xs \<Longrightarrow> runs exec (e x) (f x)) \<Longrightarrow> runs exec (seqR (map e xs)) (fold f xs)"
proof (induction xs)
  case Nil
  show ?case by (auto simp: runs_def emits_Nil intro!: exI [of _ "[]"])
next
  case (Cons x xs)
  then have "runs exec (seqR (e x # map e xs)) (\<lambda>m. fold f xs (f x m))" by (intro runs_Cons) auto
  then show ?case by (simp del: seqR.simps add: runs_def)
qed

lemma runs_emits: "runs exec e f \<Longrightarrow> emits e ws \<Longrightarrow> fold exec ws m = f m"
  unfolding runs_def by (metis emits_unique)

section \<open>Instructions\<close>

declare Register_encoding.simps [simp del] FloatRegister_encoding.simps [simp del]

lemma bit_int_small: "- 32768 \<le> i \<Longrightarrow> i < 32768 \<Longrightarrow> 15 \<le> n \<Longrightarrow> bit (i :: int) n = bit i 15"
proof -
  assume "- 32768 \<le> i" "i < 32768" and n: "15 \<le> n"
  then have "signed_take_bit 15 i = i" by (intro signed_take_bit_int_eq_self) auto
  moreover have "bit (signed_take_bit 15 i) n = bit i 15" using n by (simp add: bit_simps min_def)
  ultimately show ?thesis by simp
qed

lemma imm_int:
  assumes "- 32768 \<le> i" "i < 32768"
  shows "sext16 (unat (take_bit 16 (word_of_int i :: c_int))) = (word_of_int i :: 'w::len word)"
proof (rule bit_word_eqI)
  fix n assume n: "n < LENGTH('w)"
  show "bit (sext16 (unat (take_bit 16 (word_of_int i :: c_int))) :: 'w word) n = bit (word_of_int i :: 'w word) n"
  proof (cases "n < 15")
    case True
    then show ?thesis using n by (simp add: sext16_unat bit_simps min_def)
  next
    case False
    then have "bit (word_of_int i :: 'w word) n = bit i 15"
      using n bit_int_small [OF assms, of n] by (simp add: bit_simps)
    then show ?thesis using n False by (simp add: sext16_unat bit_simps min_def)
  qed
qed

lemma simm_ok_range: "- 32768 \<le> i \<Longrightarrow> i < 32768 \<Longrightarrow> simm_ok (word_of_int i)"
proof (rule simm_ok_bits)
  fix n :: nat
  assume i: "- 32768 \<le> i" "i < 32768" and n: "16 \<le> n" "n < 32"
  have "bit i n = bit i 15" by (rule bit_int_small [OF i(1,2)]) (use n(1) in linarith)
  moreover have "bit i 31 = bit i 15" by (rule bit_int_small [OF i(1,2)]) linarith
  moreover have "bit (word_of_int i :: c_int) k = bit i k" if "k < 32" for k using that by (simp add: bit_word_of_int_iff)
  ultimately show "bit (word_of_int i :: c_int) n = bit (word_of_int i :: c_int) 31" using n(2) by (simp only:)
qed

lemma displacement_int:
  "Address_displacement \<lparr>Address_base = b, Address_disp = word_of_int d\<rparr> = take_bit 16 (word_of_int d)"
proof (rule bit_word_eqI)
  fix n assume "n < LENGTH(32)"
  consider "n < 15" | "n = 15" | "15 < n" by linarith
  then show "bit (Address_displacement \<lparr>Address_base = b, Address_disp = word_of_int d\<rparr>) n =
      bit (take_bit 16 (word_of_int d) :: c_int) n"
    by cases (simp_all add: Address_displacement_def and_masks bit_simps min_def)
qed

lemma D_fields:
  fixes c :: c_int
  assumes "unat t < 32" "unat a < 32" "fits 6 opc"
  defines "w \<equiv> D_form opc t a (take_bit 16 c)"
  shows "op w = unat opc" "rt w = unat t" "ra w = unat a" "fld 0 16 w = take_bit 16 c"
  using D_form_fields [of opc t a "take_bit 16 c"] assms
  by (simp_all add: op_def rt_def ra_def fits5_small)

lemma DS_fields:
  assumes "unat t < 32" "unat a < 32" "fits 6 opc" "d mod 4 = 0"
  defines "w \<equiv> DS_form opc t a (c_shr (take_bit 16 (word_of_int d)) 2) 0"
  shows "op w = unat opc" "rt w = unat t" "ra w = unat a" "fld 0 2 w = 0"
    "4 * unat (fld 2 14 w) = unat (take_bit 16 (word_of_int d :: c_int))"
proof -
  let ?x = "take_bit 16 (word_of_int d :: c_int)"
  note c = c_shr_disp [of "\<lparr>Address_base = r1, Address_disp = word_of_int d\<rparr>", unfolded displacement_int]
  note F = DS_form_fields [of opc t a, OF assms(3) fits5_small [OF assms(1)] fits5_small [OF assms(2)] c(2), of 0]
  show "op w = unat opc" "rt w = unat t" "ra w = unat a" "fld 0 2 w = 0"
    using F by (simp_all add: w_def op_def rt_def ra_def)
  have "uint ?x = d mod 2 ^ 16"
    by (simp only: unsigned_take_bit_eq unsigned_of_int) (simp add: take_bit_eq_mod mod_mod_cancel)
  then have "int (unat ?x) mod 4 = 0" using assms(4) by (simp add: mod_mod_cancel del: of_nat_mod)
  then have "unat ?x mod 4 = 0" by presburger
  then have "4 * (unat ?x div 4) = unat ?x" by presburger
  moreover have "unat (drop_bit 2 ?x) = unat ?x div 4"
    by (simp only: unat_drop_bit_eq) (simp add: drop_bit_eq_div)
  ultimately show "4 * unat (fld 2 14 w) = unat ?x"
    using F(4) [OF fits_0] by (simp only: w_def c(1))
qed

lemma X_fields:
  assumes "unat a < 32" "unat b < 32" "unat c < 32" "fits 10 x"
  defines "w \<equiv> X_form 31 a b c x False"
  shows "op w = 31" "rt w = unat a" "ra w = unat b" "rb w = unat c" "xo w = unat x" "rec_bit w = 0"
  using X_form_fields [of 31 a b c x False] assms
  by (simp_all add: op_def rt_def ra_def rb_def xo_def rec_bit_def fits5_small fits6_consts)

section \<open>A processor that does what is documented\<close>

locale processor =
  fixes arch :: arch and exec :: "c_int \<Rightarrow> 'w::len word machine \<Rightarrow> 'w word machine"
  assumes isa: "isa arch exec"
    and width: "width_ok arch TYPE('w)"
begin

lemma cpu_D: "documented_D arch w = Some f \<Longrightarrow> exec w = f"
  using isa by (auto simp: isa_def documented_def)

lemma cpu_X:
  assumes "op w = 31" "documented_X arch w = Some f"
  shows "exec w = f"
proof -
  have "documented_D arch w = (None :: ('w word machine \<Rightarrow> 'w word machine) option)"
    using assms(1) by (simp add: documented_D_def)
  then show ?thesis using isa assms(2) by (auto simp: isa_def documented_def)
qed

lemma runs_D:
  assumes "unat t < 32" "unat a < 32" "fits 6 opc" "- 32768 \<le> i" "i < 32768"
    and "documented_D arch (D_form opc t a (take_bit 16 (word_of_int i))) = Some f"
  shows "runs exec (emit_D_RRi opc (as_Register t) (as_Register a) (word_of_int i)) f"
proof (rule runs_one)
  show "emits (emit_D_RRi opc (as_Register t) (as_Register a) (word_of_int i)) [D_form opc t a (take_bit 16 (word_of_int i))]"
    using emit_D_emits [OF assms(3) fits5_small [OF assms(1)] fits5_small [OF assms(2)] simm_ok_range [OF assms(4,5)]] assms(1,2)
    by (simp add: emits_def emit_D_RRi_def)
qed (rule cpu_D [OF assms(6)])

lemma runs_addi:
  assumes "unat t < 32" "unat a < 32" "unat a \<noteq> 0" "- 32768 \<le> i" "i < 32768"
  shows "runs exec (asm_addi (as_Register t) (as_Register a) (word_of_int i))
    (\<lambda>m. set_gpr (unat t) (m_gpr m (unat a) + word_of_int i) m)"
  unfolding asm_addi_def
  using assms by (intro runs_D) (simp_all add: documented_D_def D_fields imm_int imm_def base_of_def fits6_consts)

lemma runs_subi:
  assumes "unat t < 32" "unat a < 32" "unat a \<noteq> 0" "- 32768 < i" "i \<le> 32768"
  shows "runs exec (asm_subi (as_Register t) (as_Register a) (word_of_int i))
    (\<lambda>m. set_gpr (unat t) (m_gpr m (unat a) - word_of_int i) m)"
  using runs_addi [of t a "- i"] assms by (simp add: asm_subi_def)

lemma runs_subfic:
  assumes "unat t < 32" "unat a < 32" "- 32768 \<le> i" "i < 32768"
  shows "runs exec (asm_subfic (as_Register t) (as_Register a) (word_of_int i))
    (\<lambda>m. set_gpr (unat t) (word_of_int i - m_gpr m (unat a)) m)"
  unfolding asm_subfic_def
  using assms by (intro runs_D) (simp_all add: documented_D_def D_fields imm_int imm_def fits6_consts)

lemma runs_andi:
  assumes "unat t < 32" "unat a < 32" "0 \<le> i" "i < 32768"
  shows "runs exec (asm_andi_rc (as_Register a) (as_Register t) (word_of_int i))
    (\<lambda>m. let x = m_gpr m (unat t) AND word_of_int i in set_cr0 x (set_gpr (unat a) x m))"
proof -
  have "take_bit 16 i = i" using assms by (intro take_bit_int_eq_self) auto
  then have high: "bit i n \<Longrightarrow> n < 16" for n by (metis bit_take_bit_iff)
  then have "ucast (take_bit 16 (word_of_int i :: c_int)) = (word_of_int i :: 'w word)"
    by (intro bit_word_eqI) (auto simp: bit_simps dest: high)
  then show ?thesis
    unfolding asm_andi_rc_def
    using assms by (intro runs_D) (simp_all add: documented_D_def D_fields fits6_consts)
qed

subsection \<open>Memory\<close>

lemma runs_RA:
  assumes "unat t < 32" "unat a < 32" "unat a \<noteq> 0" "fits 6 opc"
    and "documented_D arch (D_form opc t a (take_bit 16 (word_of_int d))) = Some f"
  shows "runs exec (emit_D_RA opc (as_Register t) (mk_Address (as_Register a) d)) f"
proof (rule runs_one)
  have "a \<noteq> 0" using assms(3) by auto
  then have "mk_Address (as_Register a) d = Inr \<lparr>Address_base = as_Register a, Address_disp = word_of_int d\<rparr>"
    by (simp add: mk_Address_def r0_def)
  then show "emits (emit_D_RA opc (as_Register t) (mk_Address (as_Register a) d)) [D_form opc t a (take_bit 16 (word_of_int d))]"
    using emit_D_emits_pos [OF assms(4) fits5_small [OF assms(1)] fits5_small [OF assms(2)], of "take_bit 16 (word_of_int d)"] assms(1,2)
    by (simp add: emits_def emit_D_RA_def emit_D_RRi_def displacement_int)
qed (rule cpu_D [OF assms(5)])

lemma runs_FA:
  assumes "unat t < 32" "unat a < 32" "unat a \<noteq> 0" "fits 6 opc"
    and "documented_D arch (D_form opc t a (take_bit 16 (word_of_int d))) = Some f"
  shows "runs exec (emit_D_FA opc (as_FloatRegister t) (mk_Address (as_Register a) d)) f"
proof (rule runs_one)
  have "a \<noteq> 0" using assms(3) by auto
  then have "mk_Address (as_Register a) d = Inr \<lparr>Address_base = as_Register a, Address_disp = word_of_int d\<rparr>"
    by (simp add: mk_Address_def r0_def)
  then show "emits (emit_D_FA opc (as_FloatRegister t) (mk_Address (as_Register a) d)) [D_form opc t a (take_bit 16 (word_of_int d))]"
    using emit_D_emits_pos [OF assms(4) fits5_small [OF assms(1)] fits5_small [OF assms(2)], of "take_bit 16 (word_of_int d)"] assms(1,2)
    by (simp add: emits_def emit_D_FA_def emit_D_FRi_def displacement_int)
qed (rule cpu_D [OF assms(5)])

lemma runs_DS:
  assumes "unat t < 32" "unat a < 32" "unat a \<noteq> 0" "fits 6 opc"
    and "documented_D arch (DS_form opc t a (c_shr (take_bit 16 (word_of_int d)) 2) 0) = Some f"
  shows "runs exec (emit_DS_RA opc (as_Register t) (mk_Address (as_Register a) d) 0) f"
proof (rule runs_one)
  have "a \<noteq> 0" using assms(3) by auto
  then have m: "mk_Address (as_Register a) d = Inr \<lparr>Address_base = as_Register a, Address_disp = word_of_int d\<rparr>"
    by (simp add: mk_Address_def r0_def)
  let ?c = "c_shr (take_bit 16 (word_of_int d)) 2"
  have f: "fits 14 ?c" using c_shr_disp(2) [of "\<lparr>Address_base = r1, Address_disp = word_of_int d\<rparr>"] by (simp add: displacement_int)
  then have "0 \<le> sint ?c" using sint_small [of ?c] by (simp add: fits_unat)
  with f have "emits (emit_DS opc t a ?c 0) [DS_form opc t a ?c 0]"
    using assms by (simp add: emits_def emit_DS_def fits_masks fits_masks_neg fits5_small emit_long_def)
  then show "emits (emit_DS_RA opc (as_Register t) (mk_Address (as_Register a) d) 0) [DS_form opc t a ?c 0]"
    using assms(1,2) by (simp add: emits_def emit_DS_RA_def emit_DS_RRii_def m displacement_int)
qed (rule cpu_D [OF assms(5)])

lemma runs_store:
  assumes "unat t < 32" "unat a < 32" "unat a \<noteq> 0" "disp_ok arch d"
  shows "runs exec (masm_store arch (as_Register t) (mk_Address (as_Register a) d))
    (\<lambda>m. m\<lparr>m_mem := store_intptr arch (m_mem m) (m_gpr m (unat a) + word_of_int d) (m_gpr m (unat t))\<rparr>)"
proof (cases arch)
  case PPC32
  then have e: "masm_store arch = emit_D_RA 36" by (simp add: fun_eq_iff masm_store_def asm_stw_def)
  show ?thesis unfolding e
    using PPC32 assms by (intro runs_RA) (simp_all add: documented_D_def D_fields imm_int imm_def base_of_def ea_D_def
        fits6_consts store_intptr_def disp_ok_def)
next
  case PPC64
  then have "d mod 4 = 0" using assms(4) by (simp add: disp_ok_def) presburger
  moreover have e: "masm_store arch r a = emit_DS_RA 62 r a 0" for r a using PPC64 by (simp add: masm_store_def asm_std_def)
  ultimately show ?thesis unfolding e
    using PPC64 assms by (intro runs_DS) (simp_all add: documented_D_def DS_fields imm_int base_of_def ea_DS_def
        store_intptr_def disp_ok_def)
qed

lemma runs_load:
  assumes "unat t < 32" "unat a < 32" "unat a \<noteq> 0" "disp_ok arch d"
  shows "runs exec (masm_load_A arch (as_Register t) (mk_Address (as_Register a) d))
    (\<lambda>m. set_gpr (unat t) (load_intptr arch (m_mem m) (m_gpr m (unat a) + word_of_int d)) m)"
proof (cases arch)
  case PPC32
  then have e: "masm_load_A arch = emit_D_RA 32" by (simp add: fun_eq_iff masm_load_A_def asm_lwz_def)
  show ?thesis unfolding e
    using PPC32 assms by (intro runs_RA) (simp_all add: documented_D_def D_fields imm_int imm_def base_of_def ea_D_def
        fits6_consts load_intptr_def disp_ok_def)
next
  case PPC64
  then have "d mod 4 = 0" using assms(4) by (simp add: disp_ok_def) presburger
  moreover have e: "masm_load_A arch r a = emit_DS_RA 58 r a 0" for r a using PPC64 by (simp add: masm_load_A_def asm_ld_def)
  ultimately show ?thesis unfolding e
    using PPC64 assms by (intro runs_DS) (simp_all add: documented_D_def DS_fields imm_int base_of_def ea_DS_def
        load_intptr_def disp_ok_def)
qed

lemma runs_stw:
  assumes "unat t < 32" "unat a < 32" "unat a \<noteq> 0" "- 32768 \<le> d" "d < 32768"
  shows "runs exec (asm_stw (as_Register t) (mk_Address (as_Register a) d))
    (\<lambda>m. m\<lparr>m_mem := store_u4 False (m_mem m) (m_gpr m (unat a) + word_of_int d) (ucast (m_gpr m (unat t)))\<rparr>)"
  unfolding asm_stw_def
  using assms by (intro runs_RA) (simp_all add: documented_D_def D_fields imm_int imm_def base_of_def ea_D_def fits6_consts)

lemma runs_lwz:
  assumes "unat t < 32" "unat a < 32" "unat a \<noteq> 0" "- 32768 \<le> d" "d < 32768"
  shows "runs exec (asm_lwz (as_Register t) (mk_Address (as_Register a) d))
    (\<lambda>m. set_gpr (unat t) (ucast (load_u4 False (m_mem m) (m_gpr m (unat a) + word_of_int d))) m)"
  unfolding asm_lwz_def
  using assms by (intro runs_RA) (simp_all add: documented_D_def D_fields imm_int imm_def base_of_def ea_D_def fits6_consts)

lemma runs_lhz:
  assumes "unat t < 32" "unat a < 32" "unat a \<noteq> 0" "- 32768 \<le> d" "d < 32768"
  shows "runs exec (asm_lhz (as_Register t) (mk_Address (as_Register a) d))
    (\<lambda>m. set_gpr (unat t) (ucast (load_u2 False (m_mem m) (m_gpr m (unat a) + word_of_int d))) m)"
proof -
  have "fits 6 (40 :: c_int)" by (simp add: fits_unat)
  then show ?thesis unfolding asm_lhz_def
  using assms by (intro runs_RA) (simp_all add: documented_D_def D_fields imm_int imm_def base_of_def ea_D_def)
qed

lemma runs_stfd:
  assumes "unat t < 32" "unat a < 32" "unat a \<noteq> 0" "- 32768 \<le> d" "d < 32768"
  shows "runs exec (asm_stfd (as_FloatRegister t) (mk_Address (as_Register a) d))
    (\<lambda>m. m\<lparr>m_mem := store_u8 False (m_mem m) (m_gpr m (unat a) + word_of_int d) (m_fpr m (unat t))\<rparr>)"
  unfolding asm_stfd_def
  using assms by (intro runs_FA) (simp_all add: documented_D_def D_fields imm_int imm_def base_of_def ea_D_def)

lemma runs_lfd:
  assumes "unat t < 32" "unat a < 32" "unat a \<noteq> 0" "- 32768 \<le> d" "d < 32768"
  shows "runs exec (asm_lfd (as_FloatRegister t) (mk_Address (as_Register a) d))
    (\<lambda>m. m\<lparr>m_fpr := (m_fpr m)(unat t := load_u8 False (m_mem m) (m_gpr m (unat a) + word_of_int d))\<rparr>)"
  unfolding asm_lfd_def
  using assms by (intro runs_FA) (simp_all add: documented_D_def D_fields imm_int imm_def base_of_def ea_D_def)

end

context processor
begin

subsection \<open>Registers\<close>

lemma runs_X:
  assumes "unat a < 32" "unat b < 32" "unat c < 32" "fits 10 x"
    and "documented_X arch (X_form 31 a b c x False) = Some f"
  shows "runs exec (emit_X 31 a b c x False) f"
proof (rule runs_one)
  show "emits (emit_X 31 a b c x False) [X_form 31 a b c x False]"
    using assms by (intro emit_X_emits) (simp_all add: fits5_small fits6_consts)
  show "exec (X_form 31 a b c x False) = f"
    using assms X_fields(1) by (intro cpu_X) simp_all
qed

lemma runs_RRR:
  assumes "unat a < 32" "unat b < 32" "unat c < 32" "fits 10 x"
    and "documented_X arch (X_form 31 a b c x False) = Some f"
  shows "runs exec (emit_X_RRR 31 (as_Register a) (as_Register b) (as_Register c) x False) f"
  using runs_X [OF assms] assms(1-3) by (simp add: runs_def emits_def emit_X_RRR_def)

lemma xo_fits: "unat x < 1024 \<Longrightarrow> fits 10 (x :: c_int)"
  by (simp add: fits_unat)

lemma runs_add:
  assumes "unat t < 32" "unat a < 32" "unat b < 32"
  shows "runs exec (asm_add (as_Register t) (as_Register a) (as_Register b))
    (\<lambda>m. set_gpr (unat t) (m_gpr m (unat a) + m_gpr m (unat b)) m)"
  unfolding asm_add_def using assms by (intro runs_RRR) (simp_all add: xo_fits documented_X_def X_fields)

lemma runs_sub:
  assumes "unat t < 32" "unat a < 32" "unat b < 32"
  shows "runs exec (asm_sub (as_Register t) (as_Register a) (as_Register b))
    (\<lambda>m. set_gpr (unat t) (m_gpr m (unat a) - m_gpr m (unat b)) m)"
  unfolding asm_sub_def asm_subf_def using assms
  by (intro runs_RRR) (simp_all add: xo_fits documented_X_def X_fields)

lemma runs_neg:
  assumes "unat t < 32" "unat a < 32"
  shows "runs exec (asm_neg (as_Register t) (as_Register a)) (\<lambda>m. set_gpr (unat t) (- m_gpr m (unat a)) m)"
  unfolding asm_neg_def using assms by (intro runs_RRR) (simp_all add: xo_fits documented_X_def X_fields)

lemma runs_mr:
  assumes "unat t < 32" "unat a < 32"
  shows "runs exec (asm_mr (as_Register t) (as_Register a)) (\<lambda>m. set_gpr (unat t) (m_gpr m (unat a)) m)"
  unfolding asm_mr_def asm_OR_def using assms by (intro runs_RRR) (simp_all add: xo_fits documented_X_def X_fields)

lemma runs_ext:
  assumes "unat t < 32" "unat a < 32"
  shows "runs exec (asm_extsb (as_Register t) (as_Register a))
      (\<lambda>m. set_gpr (unat t) (scast (ucast (m_gpr m (unat a)) :: 8 word)) m)"
    "runs exec (asm_extsh (as_Register t) (as_Register a))
      (\<lambda>m. set_gpr (unat t) (scast (ucast (m_gpr m (unat a)) :: 16 word)) m)"
    "runs exec (asm_extsw (as_Register t) (as_Register a))
      (\<lambda>m. set_gpr (unat t) (scast (ucast (m_gpr m (unat a)) :: 32 word)) m)"
  unfolding asm_extsb_def asm_extsh_def asm_extsw_def
  using assms by (intro runs_RRR; simp add: xo_fits documented_X_def X_fields)+

lemma runs_special:
  assumes "unat t < 32"
  shows "runs exec (asm_mflr (as_Register t)) (\<lambda>m. set_gpr (unat t) (m_lr m) m)"
    "runs exec (asm_mtlr (as_Register t)) (\<lambda>m. m\<lparr>m_lr := m_gpr m (unat t)\<rparr>)"
    "runs exec (asm_mtctr (as_Register t)) (\<lambda>m. m\<lparr>m_ctr := m_gpr m (unat t)\<rparr>)"
    "runs exec (asm_mfcr (as_Register t)) (\<lambda>m. set_gpr (unat t) (ucast (m_cr m)) m)"
    "runs exec (asm_mtcr (as_Register t)) (\<lambda>m. m\<lparr>m_cr := ucast (m_gpr m (unat t))\<rparr>)"
proof -
  note d = documented_X_def X_fields xo_fits
  have "runs exec (emit_X 31 t 8 0 339 False) (\<lambda>m. set_gpr (unat t) (m_lr m) m)"
    using assms by (intro runs_X) (simp_all add: d)
  then show "runs exec (asm_mflr (as_Register t)) (\<lambda>m. set_gpr (unat t) (m_lr m) m)"
    using assms by (simp add: runs_def emits_def asm_mflr_def asm_mfspr_def emit_X_RS_def lr_def)
  have "runs exec (emit_X 31 t 8 0 467 False) (\<lambda>m. m\<lparr>m_lr := m_gpr m (unat t)\<rparr>)"
    using assms by (intro runs_X) (simp_all add: d)
  then show "runs exec (asm_mtlr (as_Register t)) (\<lambda>m. m\<lparr>m_lr := m_gpr m (unat t)\<rparr>)"
    using assms by (simp add: runs_def emits_def asm_mtlr_def asm_mtspr_def emit_X_RS_def lr_def)
  have "runs exec (emit_X 31 t 9 0 467 False) (\<lambda>m. m\<lparr>m_ctr := m_gpr m (unat t)\<rparr>)"
    using assms by (intro runs_X) (simp_all add: d)
  then show "runs exec (asm_mtctr (as_Register t)) (\<lambda>m. m\<lparr>m_ctr := m_gpr m (unat t)\<rparr>)"
    using assms by (simp add: runs_def emits_def asm_mtctr_def asm_mtspr_def emit_X_RS_def ctr_def)
  have "runs exec (emit_X 31 t 0 0 19 False) (\<lambda>m. set_gpr (unat t) (ucast (m_cr m)) m)"
    using assms by (intro runs_X) (simp_all add: d)
  then show "runs exec (asm_mfcr (as_Register t)) (\<lambda>m. set_gpr (unat t) (ucast (m_cr m)) m)"
    using assms by (simp add: runs_def emits_def asm_mfcr_def emit_X_Rii_def)
  have "c_shr (0xff AND 0xf0) 4 = 15" "push_bit 1 (0xff AND 0xf) = (30 :: c_int)" by (simp_all add: c_shr_def)
  moreover have "runs exec (emit_X 31 t 15 30 144 False) (\<lambda>m. m\<lparr>m_cr := ucast (m_gpr m (unat t))\<rparr>)"
    using assms by (intro runs_X) (simp_all add: d)
  ultimately show "runs exec (asm_mtcr (as_Register t)) (\<lambda>m. m\<lparr>m_cr := ucast (m_gpr m (unat t))\<rparr>)"
    using assms by (simp add: runs_def emits_def asm_mtcr_def asm_mtcrf_def emit_X_Rii_def)
qed

lemma runs_store_update_indexed:
  assumes "unat t < 32" "unat a < 32" "unat b < 32" "unat a \<noteq> 0"
  shows "runs exec (masm_store_update_indexed arch (as_Register t) (as_Register a) (as_Register b))
    (\<lambda>m. let ea = m_gpr m (unat a) + m_gpr m (unat b)
      in set_gpr (unat a) ea (m\<lparr>m_mem := store_intptr arch (m_mem m) ea (m_gpr m (unat t))\<rparr>))"
proof -
  have e: "masm_store_update_indexed arch r s u = emit_X_RRR 31 r s u (case arch of PPC32 \<Rightarrow> 183 | PPC64 \<Rightarrow> 181) False" for r s u
    by (cases arch) (simp_all add: masm_store_update_indexed_def asm_stwux_def asm_stdux_def)
  define x :: c_int where "x = (case arch of PPC32 \<Rightarrow> 183 | PPC64 \<Rightarrow> 181)"
  have x: "unat x = (case arch of PPC32 \<Rightarrow> 183 | PPC64 \<Rightarrow> 181)" "fits 10 x" "unat x \<noteq> 266" "unat x \<noteq> 40" "unat x \<noteq> 104"
    "unat x \<noteq> 444" "unat x \<noteq> 954" "unat x \<noteq> 922" "unat x \<noteq> 986" "unat x \<noteq> 19" "unat x \<noteq> 144" "unat x \<noteq> 339" "unat x \<noteq> 467"
    by (cases arch; simp add: x_def xo_fits)+
  show ?thesis unfolding e x_def [symmetric]
    by (rule runs_RRR [OF assms(1-3) x(2)])
      (use assms(4) x(3-) in \<open>simp add: documented_X_def X_fields [OF assms(1-3) x(2)] x(1) [symmetric]\<close>)
qed

subsection \<open>Shifts and paddings\<close>

lemma cpu_M:
  assumes "op w = 21 \<or> op w = 30" "documented_M arch w = Some f"
  shows "exec w = f"
proof -
  have "documented_D arch w = (None :: ('w word machine \<Rightarrow> 'w word machine) option)"
    "documented_X arch w = (None :: ('w word machine \<Rightarrow> 'w word machine) option)"
    using assms(1) by (elim disjE; simp add: documented_D_def documented_X_def)+
  then show ?thesis using isa assms(2) by (auto simp: isa_def documented_def)
qed


lemma runs_M:
  assumes "emits e [w]" "op w = 21 \<or> op w = 30" "documented_M arch w = Some f"
  shows "runs exec e f"
  using assms cpu_M by (intro runs_one)

lemma shift_words:
  assumes "unat t < 32" "unat a < 32"
  shows "emits (emit_M 21 a t 2 0 29 False) [M_form 21 a t 2 0 29 False]"
    "emits (emit_M 30 a t 3 60 1 False) [M_form 30 a t 3 28 18 False]"
  using assms
  by (simp_all add: emits_def emit_M_def fits_masks fits_masks_neg fits5_small fits_unat emit_long_def c_shr_def)

lemma runs_shift_left:
  assumes t: "unat t < 32" and a: "unat a < 32"
  shows "runs exec (masm_shift_left arch (as_Register t) (as_Register a) (word_of_int (LogBytesPerWord arch)))
    (\<lambda>m. set_gpr (unat t) (word_of_int (wordSize arch) * m_gpr m (unat a)) m)"
proof (cases arch)
  case PPC32
  have e: "masm_shift_left arch (as_Register t) (as_Register a) (word_of_int (LogBytesPerWord arch)) s = emit_M 21 a t 2 0 29 False s" for s :: "'b asm"
    using PPC32 t a by (simp add: masm_shift_left_def asm_slwi_def asm_rlwinm_def emit_M_RR_def)
  have "fits 6 (21 :: c_int)" "fits 5 (2 :: c_int)" "fits 5 (29 :: c_int)" by (simp_all add: fits_unat)
  note F = M_form_fields [OF this(1) fits5_small [OF a] fits5_small [OF t] this(2) fits_0 this(3), of False]
  show ?thesis
  proof (rule runs_M)
    show "emits (masm_shift_left arch (as_Register t) (as_Register a) (word_of_int (LogBytesPerWord arch))) [M_form 21 a t 2 0 29 False]"
      using shift_words(1) [OF t a] by (simp add: emits_def e)
    show "op (M_form 21 a t 2 0 29 False) = 21 \<or> op (M_form 21 a t 2 0 29 False) = 30"
      by (simp add: op_def F)
  next
    have "documented_M arch (M_form 21 a t 2 0 29 False) = Some (\<lambda>m. set_gpr (unat t) (push_bit 2 (m_gpr m (unat a))) m)"
      using PPC32 by (simp add: documented_M_def op_def rt_def ra_def rb_def rec_bit_def F F(6) [simplified] F(7) [simplified])
    then show "documented_M arch (M_form 21 a t 2 0 29 False) =
        Some (\<lambda>m. set_gpr (unat t) (word_of_int (wordSize arch) * m_gpr m (unat a)) m)"
      using PPC32 by (simp add: push_bit_eq_mult mult.commute)
  qed
next
  case PPC64
  have e: "masm_shift_left arch (as_Register t) (as_Register a) (word_of_int (LogBytesPerWord arch)) s = emit_M 30 a t 3 60 1 False s" for s :: "'b asm"
    using PPC64 t a by (simp add: masm_shift_left_def asm_sldi_def asm_rldicr_def emit_M_RR_def)
  have "fits 6 (30 :: c_int)" "fits 5 (3 :: c_int)" "fits 5 (28 :: c_int)" "fits 5 (18 :: c_int)" by (simp_all add: fits_unat)
  note F = M_form_fields [OF this(1) fits5_small [OF a] fits5_small [OF t] this(2-4), of False]
  show ?thesis
  proof (rule runs_M)
    show "emits (masm_shift_left arch (as_Register t) (as_Register a) (word_of_int (LogBytesPerWord arch))) [M_form 30 a t 3 28 18 False]"
      using shift_words(2) [OF t a] by (simp add: emits_def e)
    show "op (M_form 30 a t 3 28 18 False) = 21 \<or> op (M_form 30 a t 3 28 18 False) = 30"
      by (simp add: op_def F)
  next
    have "documented_M arch (M_form 30 a t 3 28 18 False) = Some (\<lambda>m. set_gpr (unat t) (push_bit 3 (m_gpr m (unat a))) m)"
      using PPC64 by (simp add: documented_M_def op_def rt_def ra_def rb_def rec_bit_def F F(6) [simplified] F(7) [simplified])
    then show "documented_M arch (M_form 30 a t 3 28 18 False) =
        Some (\<lambda>m. set_gpr (unat t) (word_of_int (wordSize arch) * m_gpr m (unat a)) m)"
      using PPC64 by (simp add: push_bit_eq_mult mult.commute)
  qed
qed


text \<open>The padding up to the alignment of stack frames.\<close>

lemma machine_updates:
  "m_gpr (set_gpr r v m) = (m_gpr m)(r := v)" "m_gpr (set_cr0 x m) = m_gpr m"
  "set_gpr r v (set_gpr r u m) = set_gpr r v m" "set_gpr r v (set_cr0 x m) = set_cr0 x (set_gpr r v m)"
  "set_cr0 x (set_cr0 y m) = set_cr0 x m"
proof -
  have "take_bit 28 (take_bit 28 u OR push_bit 28 v :: 32 word) = take_bit 28 u" for u v
    by (rule bit_word_eqI) (auto simp: bit_simps)
  then show "set_cr0 x (set_cr0 y m) = set_cr0 x m" by (simp add: set_cr0_def)
qed (simp_all add: set_gpr_def set_cr0_def)

lemma padding_of: "(word_of_int 16 - (x AND word_of_int 15)) AND word_of_int 15 = take_bit 4 (- x :: 'w word)"
proof -
  have m15: "y AND 15 = take_bit 4 y" for y :: "'w word" by (simp add: take_bit_eq_mask mask_eq_exp_minus_1)
  have "take_bit 4 (16 :: 'w word) = 0"
    using take_bit_push_bit [of 4 4 "1 :: 'w word"] by (simp add: push_bit_eq_mult)
  then have "take_bit 4 (16 - take_bit 4 x) = take_bit 4 (- x)"
    using take_bit_word_diff [of 4 16 x] take_bit_word_diff [of 4 0 x] take_bit_word_diff [of 4 16 "take_bit 4 x"] by simp
  then show ?thesis by (simp only: of_int_numeral m15)
qed

lemma runs_padding:
  assumes t: "unat t < 32" and a: "unat a < 32"
  shows "runs exec (masm_calc_padding_for_alignment (as_Register t) (as_Register a) (word_of_int StackAlignmentInBytes))
    (\<lambda>m. let x = take_bit 4 (- m_gpr m (unat a)) in set_cr0 x (set_gpr (unat t) x m))"
proof -
  let ?and = "\<lambda>a m. let x = m_gpr m (unat a) AND word_of_int 15 in set_cr0 x (set_gpr (unat t) x m)"
  let ?sub = "\<lambda>m. set_gpr (unat t) (word_of_int 16 - m_gpr m (unat t)) m"
  have z: "strip_zeros 16 = Some 1"
    unfolding strip_zeros_one_iff by (rule exI [of _ 4]) simp
  have e: "masm_calc_padding_for_alignment (as_Register t) (as_Register a) (word_of_int StackAlignmentInBytes) s =
      seqR [asm_andi_rc (as_Register t) (as_Register a) (word_of_int 15), asm_subfic (as_Register t) (as_Register t) (word_of_int 16),
        asm_andi_rc (as_Register t) (as_Register t) (word_of_int 15)] s" for s :: "'b asm"
    by (simp add: masm_calc_padding_for_alignment_def StackAlignmentInBytes_def z)
  have "runs exec (seqR [asm_andi_rc (as_Register t) (as_Register a) (word_of_int 15), asm_subfic (as_Register t) (as_Register t) (word_of_int 16),
        asm_andi_rc (as_Register t) (as_Register t) (word_of_int 15)]) (\<lambda>m. ?and t (?sub (?and a m)))"
    using t a by (intro runs_Cons runs_single runs_andi runs_subfic) simp_all
  moreover have "?and t (?sub (?and a m)) = (let x = take_bit 4 (- m_gpr m (unat a)) in set_cr0 x (set_gpr (unat t) x m))" for m :: "'w word machine"
    by (simp only: Let_def machine_updates fun_upd_same padding_of)
  ultimately show ?thesis by (simp add: runs_def emits_def e del: seqR.simps)
qed

end

context processor
begin

lemmas runs_rules = runs_Nil runs_Cons runs_addi runs_subi runs_andi runs_store runs_load runs_stw runs_lwz runs_lhz runs_stfd
  runs_lfd runs_add runs_sub runs_neg runs_mr runs_ext runs_special runs_store_update_indexed runs_shift_left runs_padding

end

text \<open>The memory of a processor is memory with words.\<close>

sublocale processor \<subseteq> words: multibyte "load_intptr arch :: 'w mem \<Rightarrow> 'w word \<Rightarrow> 'w word" "store_intptr arch" "nat (wordSize arch)"
  "\<lambda>_ bs. bs" "\<lambda>_ bs. bs"
  by (rule intptr_multibyte [OF width])

interpretation ppc32: processor PPC32 "reference_cpu PPC32 :: c_int \<Rightarrow> 32 word machine \<Rightarrow> 32 word machine"
  by unfold_locales (simp_all add: reference_cpu_isa width_ok_def)

interpretation ppc64: processor PPC64 "reference_cpu PPC64 :: c_int \<Rightarrow> 64 word machine \<Rightarrow> 64 word machine"
  by unfold_locales (simp_all add: reference_cpu_isa width_ok_def)

end
