(* ===== verification/CallStubFacts.thy ===== *)
theory CallStubFacts
  imports Machine
begin

text \<open>
  The frame of the call stub on the machine: what is in it, that the walker of frames finds the
  call wrapper in it, and that leaving the stub restores what entering it saved.
\<close>

section \<open>Entering the stub\<close>

definition stub_base :: "arch \<Rightarrow> int" where
  "stub_base arch = (case arch of PPC32 \<Rightarrow> 96 | PPC64 \<Rightarrow> 280)"

definition stub_locals :: "arch \<Rightarrow> int" where
  "stub_locals arch = (case arch of PPC32 \<Rightarrow> 8 | PPC64 \<Rightarrow> 112)"

lemma call_stub_frame_sizes:
  "\<exists>f. call_stub_frame = Inr f \<and> (\<forall>arch. unaligned_size arch f + 3 * wordSize arch = stub_base arch \<and>
    start_of_locals arch f = stub_locals arch)"
proof -
  have "case call_stub_frame of Inl e \<Rightarrow> False | Inr f \<Rightarrow>
      unaligned_size PPC32 f = 84 \<and> start_of_locals PPC32 f = 8 \<and> unaligned_size PPC64 f = 256 \<and> start_of_locals PPC64 f = 112"
    by code_simp
  then obtain f where "call_stub_frame = Inr f" "unaligned_size PPC32 f = 84" "start_of_locals PPC32 f = 8"
      "unaligned_size PPC64 f = 256" "start_of_locals PPC64 f = 112"
    by (auto split: sum.splits)
  moreover have "unaligned_size arch f + 3 * wordSize arch = stub_base arch \<and> start_of_locals arch f = stub_locals arch" for arch
    using calculation by (cases arch) (simp_all add: stub_base_def stub_locals_def)
  ultimately show ?thesis by blast
qed


text \<open>The size of the frame in bytes, for a number of parameters in words.\<close>

definition stub_size :: "arch \<Rightarrow> int \<Rightarrow> int" where
  "stub_size arch n = (let b = wordSize arch * n + stub_base arch in b + (- b) mod 16)"

definition stub_offsets :: "arch \<Rightarrow> int \<Rightarrow> int list" where
  "stub_offsets arch n =
     (let W = wordSize arch; end_ofs = final_offset arch
      in [lr_save_offset arch * W, - stub_size arch n] @
         (case arch of PPC32 \<Rightarrow> [] | PPC64 \<Rightarrow> [W - stub_size arch n]) @
         [(1 - end_ofs) * W, (2 - end_ofs) * W, (3 - end_ofs) * W] @
         (case arch of PPC32 \<Rightarrow> [(4 - end_ofs) * W] | PPC64 \<Rightarrow> []) @
         map (\<lambda>i. (i - 32) * W) [14..31])"

lemma stub_size_bounds:
  "0 \<le> n \<Longrightarrow> stub_base arch \<le> stub_size arch n" "n < 65536 \<Longrightarrow> stub_size arch n < 2 ^ 20"
proof -
  have "0 \<le> x mod 16" "x mod 16 < 16" for x :: int by simp_all
  note this [of "- (wordSize arch * n + stub_base arch)"]
  then show "0 \<le> n \<Longrightarrow> stub_base arch \<le> stub_size arch n" "n < 65536 \<Longrightarrow> stub_size arch n < 2 ^ 20"
    by (cases arch; simp add: stub_size_def Let_def stub_base_def)+
qed

lemma stub_offsets_distinct: "0 \<le> n \<Longrightarrow> distinct (stub_offsets arch n)"
  using stub_size_bounds(1) [of n arch]
  by (cases arch) (simp_all add: stub_offsets_def Let_def lr_save_offset_def final_offset_def registers_offset_def
      initial_offset_def stub_base_def)

lemma stub_offsets_cases:
  "a \<in> set (stub_offsets arch n) \<Longrightarrow>
    a = - stub_size arch n \<or> arch = PPC64 \<and> a = 8 - stub_size arch n \<or> (\<exists>j. a = j * wordSize arch \<and> - 22 \<le> j \<and> j \<le> 2)"
  by (cases arch) (auto simp add: stub_offsets_def Let_def lr_save_offset_def final_offset_def registers_offset_def
      initial_offset_def)

lemma stub_offsets_apart:
  assumes "0 \<le> n" "n < 65536" "a \<in> set (stub_offsets arch n)" "b \<in> set (stub_offsets arch n)" "a \<noteq> b"
  shows "wordSize arch \<le> \<bar>a - b\<bar> \<and> \<bar>a - b\<bar> < 2 ^ 21"
proof -
  note s = stub_size_bounds(1) [OF assms(1), of arch] stub_size_bounds(2) [OF assms(2), of arch]
  show ?thesis
    using stub_offsets_cases [OF assms(3)] stub_offsets_cases [OF assms(4)] assms(5) s
    by (cases arch) (auto simp: stub_base_def abs_if)
qed

lemma arch_case_same: "(case a of PPC32 \<Rightarrow> x | PPC64 \<Rightarrow> x) = x"
  by (cases a) simp_all

context processor
begin

definition store_regs :: "(int \<Rightarrow> int) \<Rightarrow> int list \<Rightarrow> 'w word machine \<Rightarrow> 'w word machine" where
  "store_regs ofs is m = m\<lparr>m_mem := fold (\<lambda>i mem. store_intptr arch mem (m_gpr m 11 + word_of_int (ofs i)) (m_gpr m (nat i))) is (m_mem m)\<rparr>"

lemma unat_int_reg: "0 \<le> i \<Longrightarrow> i < 32 \<Longrightarrow> unat (word_of_int i :: c_int) = nat i"
  by (simp add: unsigned_of_int take_bit_int_eq_self)

lemma runs_store_regs:
  assumes "\<And>i. i \<in> set is \<Longrightarrow> 0 \<le> i \<and> i < 32 \<and> disp_ok arch (ofs i)"
  shows "runs exec (seqR (map (\<lambda>i. masm_store arch (as_Register (word_of_int i)) (mk_Address (as_Register 11) (ofs i))) is))
    (store_regs ofs is)"
proof (rule runs_cong [OF runs_map])
  fix i assume i: "i \<in> set is"
  show "runs exec (masm_store arch (as_Register (word_of_int i)) (mk_Address (as_Register 11) (ofs i)))
      (\<lambda>m. m\<lparr>m_mem := store_intptr arch (m_mem m) (m_gpr m (unat (11 :: c_int)) + word_of_int (ofs i))
         (m_gpr m (unat (word_of_int i :: c_int)))\<rparr>)"
    using assms [OF i] by (intro runs_store) (auto simp: unat_int_reg nat_less_iff)
next
  fix m
  show "fold (\<lambda>i m. m\<lparr>m_mem := store_intptr arch (m_mem m) (m_gpr m (unat (11 :: c_int)) + word_of_int (ofs i))
      (m_gpr m (unat (word_of_int i :: c_int)))\<rparr>) is m = store_regs ofs is m"
    using assms
  proof (induction "is" arbitrary: m)
    case (Cons i xs)
    then show ?case by (simp add: store_regs_def unat_int_reg)
  qed (simp add: store_regs_def)
qed

lemma disp_ok_small: "- 100 \<le> n \<Longrightarrow> n \<le> 100 \<Longrightarrow> disp_ok arch (n * wordSize arch)"
  by (cases arch) (simp_all add: disp_ok_def)

text \<open>The blocks of the code. A condition register is stored through \<open>r0\<close>.\<close>

definition store_cr :: "int \<Rightarrow> nat \<Rightarrow> 'w word machine \<Rightarrow> 'w word machine" where
  "store_cr n a m = (let cr = ucast (m_cr m); m' = set_gpr 0 cr m
     in m'\<lparr>m_mem := store_intptr arch (m_mem m') (m_gpr m' a + word_of_int (n * wordSize arch)) cr\<rparr>)"

lemma runs_store_cr:
  assumes "unat a < 32" "unat a \<noteq> 0" "- 100 \<le> n" "n \<le> 100"
  shows "runs exec (seqR [asm_mfcr r0, masm_store arch r0 (mk_Address (as_Register a) (n * wordSize arch))]) (store_cr n (unat a))"
  unfolding r0_def
  by (rule runs_cong, ((rule runs_rules disp_ok_small) | (use assms in simp; fail))+)
    (simp add: store_cr_def set_gpr_def Let_def)

definition stub_bytes :: "'w word \<Rightarrow> 'w word" where
  "stub_bytes n = word_of_int (wordSize arch) * n + word_of_int (stub_base arch)"

definition stub_padding :: "'w word \<Rightarrow> 'w word" where
  "stub_padding n = take_bit 4 (- stub_bytes n)"

definition stub_make :: "'w word machine \<Rightarrow> 'w word machine" where
  "stub_make m =
     (let n = stub_bytes (m_gpr m 9); d = stub_padding (m_gpr m 9); caller = m_gpr m 1;
          bottom = caller + (- n - d)
      in set_cr0 d m
        \<lparr>m_gpr := (m_gpr m)(0 := - n - d, 1 := bottom, 9 := word_of_int (wordSize arch) * m_gpr m 9, 11 := n + d, 12 := d),
         m_mem := store_intptr arch (store_intptr arch (m_mem m) (caller + word_of_int (lr_save_offset arch * wordSize arch)) (m_lr m))
           bottom caller\<rparr>)"

lemma runs_stub_make:
  "runs exec (seqR [
     masm_shift_left arch r9 r9 (word_of_int (LogBytesPerWord arch)),
     asm_addi r11 r9 (word_of_int (stub_base arch)),
     masm_calc_padding_for_alignment r12 r11 (word_of_int StackAlignmentInBytes),
     asm_add r11 r11 r12,
     asm_mflr r0,
     masm_store arch r0 (mk_Address r1 (lr_save_offset arch * wordSize arch)),
     asm_neg r0 r11,
     masm_store_update_indexed arch r1 r1 r0]) stub_make"
proof -
  have b: "- 32768 \<le> stub_base arch" "stub_base arch < 32768" by (cases arch; simp add: stub_base_def)+
  have l: "disp_ok arch (lr_save_offset arch * wordSize arch)" by (cases arch; simp add: lr_save_offset_def disp_ok_def)
  show ?thesis
    unfolding reg_defs
    by (rule runs_cong, ((rule runs_rules b l) | (simp; fail))+,
        simp only: machine_updates fun_upd_same fun_upd_other stub_bytes_def [symmetric] Let_def, rule machine.equality)
      (simp_all add: stub_make_def set_gpr_def set_cr0_def Let_def stub_bytes_def [symmetric] stub_padding_def [symmetric] fun_eq_iff)
qed

definition stub_save :: "'w word machine \<Rightarrow> 'w word machine" where
  "stub_save m =
     (let p = m_gpr m 1 + word_of_int (stub_locals arch - wordSize arch) + m_gpr m 12 + m_gpr m 9;
          st = (\<lambda>n x mem. store_intptr arch mem (p + word_of_int (n * wordSize arch)) x)
      in m\<lparr>m_gpr := (m_gpr m)(11 := p), m_mem := st 3 (m_gpr m 5) (st 2 (m_gpr m 4) (st 1 (m_gpr m 3) (m_mem m)))\<rparr>)"

lemma runs_stub_save:
  "runs exec (seqR [asm_addi r11 r1 (word_of_int (stub_locals arch - wordSize arch)),
     asm_add r11 r11 r12, asm_add r11 r11 r9,
     masm_store arch r3 (mk_Address r11 (initial_offset * wordSize arch)),
     masm_store arch r4 (mk_Address r11 ((initial_offset + 1) * wordSize arch)),
     masm_store arch r5 (mk_Address r11 ((initial_offset + 2) * wordSize arch))]) stub_save"
proof -
  have b: "- 32768 \<le> stub_locals arch - wordSize arch" "stub_locals arch - wordSize arch < 32768"
    by (cases arch; simp add: stub_locals_def)+
  have "initial_offset = 1" "initial_offset + 1 = 2" "initial_offset + 2 = 3" by (simp_all add: initial_offset_def)
  note o = this
  show ?thesis
    unfolding reg_defs o
    by (rule runs_cong, ((rule runs_rules b disp_ok_small) | (simp; fail))+,
        simp only: machine_updates fun_upd_same fun_upd_other Let_def, rule machine.equality)
      (simp_all add: stub_save_def set_gpr_def Let_def fun_eq_iff)
qed

definition stub_entered :: "'w word machine \<Rightarrow> 'w word machine" where
  "stub_entered m =
     (let m = stub_make m; m = (case arch of PPC32 \<Rightarrow> m | PPC64 \<Rightarrow> store_cr 1 1 m); m = stub_save m;
          m = (case arch of PPC32 \<Rightarrow> store_cr 4 11 m | PPC64 \<Rightarrow> m)
      in store_regs (\<lambda>i. (registers_offset arch + (i - 14)) * wordSize arch) [14..31] m)"

lemma runs_call_stub_frame_code:
  "runs exec (seqR (call_stub_frame_code arch (stub_base arch) (stub_locals arch))) stub_entered"
proof -
  have r: "runs exec (seqR (map (\<lambda>i. masm_store arch (as_Register (word_of_int i))
      (mk_Address r11 ((registers_offset arch + (i - 14)) * wordSize arch))) [14..31]))
      (store_regs (\<lambda>i. (registers_offset arch + (i - 14)) * wordSize arch) [14..31])"
    unfolding reg_defs
    by (rule runs_store_regs) (auto simp: disp_ok_def registers_offset_def initial_offset_def split: arch.splits)
  have c: "runs exec (seqR (case cr_save_offset arch of None \<Rightarrow> []
      | Some ofs \<Rightarrow> [asm_mfcr r0, masm_store arch r0 (mk_Address r1 (ofs * wordSize arch))]))
      (\<lambda>m. case arch of PPC32 \<Rightarrow> m | PPC64 \<Rightarrow> store_cr 1 1 m)"
    using runs_store_cr [of 1 1] runs_Nil [of exec]
    by (cases arch) (simp_all add: cr_save_offset_def reg_defs del: seqR.simps)
  have d: "runs exec (seqR (case arch of PPC32 \<Rightarrow> [asm_mfcr r0, masm_store arch r0 (mk_Address r11 ((initial_offset + 3) * wordSize arch))]
      | PPC64 \<Rightarrow> [])) (\<lambda>m. case arch of PPC32 \<Rightarrow> store_cr 4 11 m | PPC64 \<Rightarrow> m)"
    using runs_store_cr [of 11 4] runs_Nil [of exec]
    by (cases arch) (simp_all add: initial_offset_def reg_defs del: seqR.simps)
  from runs_append [OF runs_stub_make runs_append [OF c runs_append [OF runs_stub_save runs_append [OF d r]]]]
  show ?thesis
    by (simp only: call_stub_frame_code_def Let_def stub_entered_def [abs_def] append.simps append_assoc)
qed

text \<open>The frame as slots at offsets from the stack pointer of the caller.\<close>

definition put_slots :: "'w word \<Rightarrow> (int \<times> 'w word) list \<Rightarrow> 'w mem \<Rightarrow> 'w mem" where
  "put_slots p = fold (\<lambda>(k, x) mem. store_intptr arch mem (p + word_of_int k) x)"

definition stub_cr :: "int \<Rightarrow> 'w word machine \<Rightarrow> 'w word" where
  "stub_cr n m = ucast (m_cr (set_cr0 (stub_padding (word_of_int n)) m))"

definition stub_slots :: "int \<Rightarrow> 'w word machine \<Rightarrow> (int \<times> 'w word) list" where
  "stub_slots n m =
     (let W = wordSize arch; end_ofs = final_offset arch
      in [(lr_save_offset arch * W, m_lr m), (- stub_size arch n, m_gpr m 1)] @
         (case arch of PPC32 \<Rightarrow> [] | PPC64 \<Rightarrow> [(W - stub_size arch n, stub_cr n m)]) @
         [((1 - end_ofs) * W, m_gpr m 3), ((2 - end_ofs) * W, m_gpr m 4), ((3 - end_ofs) * W, m_gpr m 5)] @
         (case arch of PPC32 \<Rightarrow> [((4 - end_ofs) * W, stub_cr n m)] | PPC64 \<Rightarrow> []) @
         map (\<lambda>i. ((i - 32) * W, m_gpr m (nat i))) [14..31])"

lemma stub_sizes:
  "stub_bytes (word_of_int n) = word_of_int (wordSize arch * n + stub_base arch)"
  "stub_padding (word_of_int n) = word_of_int ((- (wordSize arch * n + stub_base arch)) mod 16)"
proof -
  show b: "stub_bytes (word_of_int n) = word_of_int (wordSize arch * n + stub_base arch)"
    by (simp add: stub_bytes_def)
  have "LENGTH('w) = 32 \<or> LENGTH('w) = 64" using width by (cases arch) (simp_all add: width_ok_def)
  then have "take_bit 4 (word_of_int k) = (word_of_int (take_bit 4 k) :: 'w word)" for k
    by (intro bit_word_eqI) (auto simp: bit_simps)
  moreover have "- word_of_int k = (word_of_int (- k) :: 'w word)" for k by simp
  ultimately show "stub_padding (word_of_int n) = word_of_int ((- (wordSize arch * n + stub_base arch)) mod 16)"
    unfolding stub_padding_def b by (simp only: take_bit_eq_mod) simp
qed

lemma stub_make_eval:
  assumes n: "m_gpr m 9 = word_of_int n"
  shows "m_gpr (stub_make m) = (m_gpr m)(0 := word_of_int (- stub_size arch n), 1 := m_gpr m 1 + word_of_int (- stub_size arch n),
      9 := word_of_int (wordSize arch * n), 11 := word_of_int (stub_size arch n),
      12 := stub_padding (word_of_int n))"
    "m_mem (stub_make m) = put_slots (m_gpr m 1) [(lr_save_offset arch * wordSize arch, m_lr m), (- stub_size arch n, m_gpr m 1)] (m_mem m)"
    "ucast (m_cr (stub_make m)) = stub_cr n m"
proof -
  have a: "- stub_bytes (word_of_int n) - stub_padding (word_of_int n) = word_of_int (- stub_size arch n)"
    by (simp only: stub_sizes stub_size_def Let_def) simp
  have b: "stub_bytes (word_of_int n) + stub_padding (word_of_int n) = word_of_int (stub_size arch n)"
    by (simp only: stub_sizes stub_size_def Let_def) simp
  show "m_gpr (stub_make m) = (m_gpr m)(0 := word_of_int (- stub_size arch n), 1 := m_gpr m 1 + word_of_int (- stub_size arch n),
      9 := word_of_int (wordSize arch * n), 11 := word_of_int (stub_size arch n),
      12 := stub_padding (word_of_int n))"
    by (simp add: stub_make_def n Let_def a b set_cr0_def del: of_int_minus)
  show "m_mem (stub_make m) = put_slots (m_gpr m 1) [(lr_save_offset arch * wordSize arch, m_lr m), (- stub_size arch n, m_gpr m 1)] (m_mem m)"
    by (simp add: stub_make_def n Let_def a b set_cr0_def put_slots_def del: of_int_minus)
  show "ucast (m_cr (stub_make m)) = stub_cr n m"
    by (simp add: stub_make_def n Let_def stub_cr_def set_cr0_def)
qed

lemma put_slots_append: "put_slots p (xs @ ys) mem = put_slots p ys (put_slots p xs mem)"
  by (simp add: put_slots_def)

lemma put_slots_Nil: "put_slots p [] mem = mem"
  by (simp add: put_slots_def)

text \<open>Each block adds slots; the registers it does not change are those of the caller.\<close>

lemma store_cr_eval:
  assumes "m_gpr m a = p + word_of_int k" "a \<noteq> 0"
  shows "m_mem (store_cr j a m) = put_slots p [(k + j * wordSize arch, ucast (m_cr m))] (m_mem m)"
    "m_gpr (store_cr j a m) = (m_gpr m)(0 := ucast (m_cr m))" "m_cr (store_cr j a m) = m_cr m"
  using assms by (simp_all add: store_cr_def Let_def set_gpr_def put_slots_def add.assoc)

lemma stub_save_eval:
  assumes "m_gpr m 1 = p + word_of_int (- stub_size arch n)" "m_gpr m 9 = word_of_int (wordSize arch * n)"
    "m_gpr m 12 = stub_padding (word_of_int n)"
  defines "e \<equiv> - (final_offset arch * wordSize arch)"
  shows "m_gpr (stub_save m) = (m_gpr m)(11 := p + word_of_int e)"
    "m_mem (stub_save m) = put_slots p [(e + 1 * wordSize arch, m_gpr m 3), (e + 2 * wordSize arch, m_gpr m 4),
       (e + 3 * wordSize arch, m_gpr m 5)] (m_mem m)"
    "m_cr (stub_save m) = m_cr m"
proof -
  have "stub_locals arch - wordSize arch - stub_base arch = e"
    by (cases arch) (simp_all add: stub_locals_def stub_base_def e_def final_offset_def registers_offset_def initial_offset_def)
  then have "- stub_size arch n + (stub_locals arch - wordSize arch) + (- (wordSize arch * n + stub_base arch)) mod 16 + wordSize arch * n = e"
    by (simp add: stub_size_def Let_def)
  then have "m_gpr m 1 + word_of_int (stub_locals arch - wordSize arch) + m_gpr m 12 + m_gpr m 9 = p + word_of_int e"
    unfolding assms(1-3) stub_sizes by (metis (no_types, lifting) add.assoc of_int_add)
  then show "m_gpr (stub_save m) = (m_gpr m)(11 := p + word_of_int e)"
    "m_mem (stub_save m) = put_slots p [(e + 1 * wordSize arch, m_gpr m 3), (e + 2 * wordSize arch, m_gpr m 4),
       (e + 3 * wordSize arch, m_gpr m 5)] (m_mem m)"
    "m_cr (stub_save m) = m_cr m"
    by (simp_all add: stub_save_def Let_def put_slots_def add.assoc)
qed

lemma store_regs_eval:
  assumes "m_gpr m 11 = p + word_of_int e"
  shows "m_mem (store_regs ofs is m) = put_slots p (map (\<lambda>i. (e + ofs i, m_gpr m (nat i))) is) (m_mem m)"
    "m_gpr (store_regs ofs is m) = m_gpr m" "m_cr (store_regs ofs is m) = m_cr m"
  using assms by (simp_all add: store_regs_def put_slots_def fold_map comp_def add.assoc)

lemma stub_entered_eval:
  fixes m :: "'w word machine"
  assumes n: "m_gpr m 9 = word_of_int n"
  shows "m_gpr (stub_entered m) 1 = m_gpr m 1 + word_of_int (- stub_size arch n)"
    "m_gpr (stub_entered m) 11 = m_gpr m 1 + word_of_int (- (final_offset arch * wordSize arch))"
    "m_mem (stub_entered m) = put_slots (m_gpr m 1) (stub_slots n m) (m_mem m)"
proof -
  let ?p = "m_gpr m 1" and ?e = "- (final_offset arch * wordSize arch)" and ?ofs = "\<lambda>i. (registers_offset arch + (i - 14)) * wordSize arch"
  define a where "a = stub_make m"
  define b where "b = (case arch of PPC32 \<Rightarrow> a | PPC64 \<Rightarrow> store_cr 1 1 a)"
  define c where "c = stub_save b"
  define d where "d = (case arch of PPC32 \<Rightarrow> store_cr 4 11 c | PPC64 \<Rightarrow> c)"
  have s: "stub_entered m = store_regs ?ofs [14..31] d" by (simp only: stub_entered_def Let_def a_def b_def c_def d_def)
  note A = stub_make_eval [OF n, folded a_def]
  have a1: "m_gpr a 1 = ?p + word_of_int (- stub_size arch n)" by (simp add: A)
  note S = store_cr_eval [OF a1 one_neq_zero, of 1, unfolded A(3)]
  have "- stub_size arch n + 1 * wordSize arch = wordSize arch - stub_size arch n" by simp
  then have B: "m_mem b = put_slots ?p (case arch of PPC32 \<Rightarrow> [] | PPC64 \<Rightarrow> [(wordSize arch - stub_size arch n, stub_cr n m)]) (m_mem a)"
    unfolding b_def arch.case_distrib [of "\<lambda>x. put_slots ?p x (m_mem a)"] arch.case_distrib [of m_mem] put_slots_Nil S(1)
    by (simp only:)
  have B2: "m_gpr b r = m_gpr a r" if "r \<noteq> 0" for r
    unfolding b_def arch.case_distrib [of "\<lambda>m. m_gpr m r"] S(2) fun_upd_other [OF that] by (simp only: arch_case_same)
  have B3: "m_cr b = m_cr a"
    unfolding b_def arch.case_distrib [of m_cr] S(3) by (simp only: arch_case_same)
  have "m_gpr b 1 = ?p + word_of_int (- stub_size arch n)" "m_gpr b 9 = word_of_int (wordSize arch * n)"
    "m_gpr b 12 = stub_padding (word_of_int n)" using A(1) a1 by (simp_all add: B2)
  note C = stub_save_eval [OF this, folded c_def]
  have c11: "m_gpr c 11 = ?p + word_of_int ?e" by (simp only: C fun_upd_same)
  have "ucast (m_cr c) = stub_cr n m" by (simp only: C(3) B3 A(3))
  note T = store_cr_eval [OF c11, of 4, unfolded this]
  have D: "m_mem d = put_slots ?p (case arch of PPC32 \<Rightarrow> [(?e + 4 * wordSize arch, stub_cr n m)] | PPC64 \<Rightarrow> []) (m_mem c)"
    unfolding d_def arch.case_distrib [of "\<lambda>x. put_slots ?p x (m_mem c)"] arch.case_distrib [of m_mem] put_slots_Nil T(1) [OF zero_neq_numeral [symmetric]]
    by (simp only:)
  have D2: "m_gpr d r = m_gpr c r" if "r \<noteq> 0" for r
    unfolding d_def arch.case_distrib [of "\<lambda>m. m_gpr m r"] T(2) [OF zero_neq_numeral [symmetric]] fun_upd_other [OF that] by (simp only: arch_case_same)
  have "m_gpr d 11 = ?p + word_of_int ?e" using c11 by (simp only: D2 zero_neq_numeral not_False_eq_True)
  note E = store_regs_eval [OF this, of ?ofs "[14..31]", folded s]
  have same: "m_gpr d r = m_gpr m r" if "r \<noteq> 0" "r \<noteq> 1" "r \<noteq> 9" "r \<noteq> 11" "r \<noteq> 12" for r
    using that by (simp add: D2 C(1) B2 A(1))
  have regs: "map (\<lambda>i. ((registers_offset arch + (i - 14) - final_offset arch) * wordSize arch, m_gpr d (nat i))) [14..31] = map (\<lambda>i. ((i - 32) * wordSize arch, m_gpr m (nat i))) [14..31]"
    by (intro map_cong refl) (auto simp: same final_offset_def algebra_simps)
  have args: "m_gpr b 3 = m_gpr m 3" "m_gpr b 4 = m_gpr m 4" "m_gpr b 5 = m_gpr m 5" by (simp_all add: B2 A(1))
  have ofs: "?e + k * wordSize arch = (k - final_offset arch) * wordSize arch" for k by (simp add: algebra_simps)
  show "m_gpr (stub_entered m) 11 = ?p + word_of_int ?e" using c11 by (simp only: E D2 zero_neq_numeral not_False_eq_True)
  show "m_gpr (stub_entered m) 1 = ?p + word_of_int (- stub_size arch n)" using a1 by (simp add: E D2 C(1) B2)
  show "m_mem (stub_entered m) = put_slots ?p (stub_slots n m) (m_mem m)"
    unfolding E(1) D C(2) B A(2) args ofs regs stub_slots_def Let_def by (simp only: put_slots_append)
qed

lemma stub_slots_offsets: "map fst (stub_slots n m) = stub_offsets arch n"
  unfolding stub_slots_def stub_offsets_def Let_def map_append arch.case_distrib [of "map fst"] map_map comp_def list.map fst_conv
  by (rule refl)

lemma put_slots_get:
  fixes m :: "'w word machine"
  assumes "0 \<le> n" "n < 65536" and x: "(k, x) \<in> set (stub_slots n m)"
  shows "load_intptr arch (put_slots p (stub_slots n m) mem) (p + word_of_int k) = x"
proof -
  have W: "wordSize arch = 4 \<and> LENGTH('w) = 32 \<or> wordSize arch = 8 \<and> LENGTH('w) = 64"
    using width by (cases arch) (simp_all add: width_ok_def)
  then have big: "2 ^ 21 \<le> (2 :: int) ^ LENGTH('w) - wordSize arch" "wordSize arch \<le> 2 ^ LENGTH('w)" by auto
  have d: "distinct (map fst (stub_slots n m))" using stub_offsets_distinct [OF assms(1)] by (simp only: stub_slots_offsets)
  have a: "words.apart (fst i) (fst j)" if "i \<in> set (stub_slots n m)" "j \<in> set (stub_slots n m)" "i \<noteq> j" for i j
  proof -
    have "fst i \<noteq> fst j" using d that by (auto simp: distinct_map dest: inj_onD)
    moreover have "fst i \<in> set (stub_offsets arch n)" "fst j \<in> set (stub_offsets arch n)"
      using that(1,2) unfolding stub_slots_offsets [of n m, symmetric] by simp_all
    ultimately show ?thesis
      using stub_offsets_apart [OF assms(1,2)] big(1) W unfolding words.apart_def by fastforce
  qed
  have "load_intptr arch (fold (\<lambda>s mem. store_intptr arch mem (p + word_of_int (fst s)) (snd s)) (stub_slots n m) mem)
      (p + word_of_int (fst (k, x))) = snd (k, x)"
  proof (rule words.fold_put [OF _ x _ a])
    show "distinct (stub_slots n m)" using d by (simp only: distinct_map)
    have "int (nat (wordSize arch)) \<le> int (2 ^ LENGTH('w))" using big(2) W by (auto simp only: of_nat_power of_nat_numeral)
    then show "nat (wordSize arch) \<le> 2 ^ LENGTH('w)" by (simp only: of_nat_le_iff)
  qed
  then show ?thesis by (simp add: put_slots_def split_def)
qed

subsection \<open>Leaving the stub\<close>

definition load_cr :: "int \<Rightarrow> nat \<Rightarrow> 'w word machine \<Rightarrow> 'w word machine" where
  "load_cr n a m = (let x = load_intptr arch (m_mem m) (m_gpr m a + word_of_int (n * wordSize arch))
     in (set_gpr 0 x m)\<lparr>m_cr := ucast x\<rparr>)"

lemma runs_load_cr:
  assumes "unat a < 32" "unat a \<noteq> 0" "- 100 \<le> n" "n \<le> 100"
  shows "runs exec (seqR [masm_load_A arch r0 (mk_Address (as_Register a) (n * wordSize arch)), asm_mtcr r0]) (load_cr n (unat a))"
  unfolding r0_def
  by (rule runs_cong, ((rule runs_rules disp_ok_small) | (use assms in simp; fail))+)
    (simp add: load_cr_def set_gpr_def Let_def)

definition load_regs :: "(int \<Rightarrow> int) \<Rightarrow> int list \<Rightarrow> 'w word machine \<Rightarrow> 'w word machine" where
  "load_regs ofs is m = fold (\<lambda>i m. set_gpr (nat i) (load_intptr arch (m_mem m) (m_gpr m 11 + word_of_int (ofs i))) m) is m"

lemma runs_load_regs:
  assumes "\<And>i. i \<in> set is \<Longrightarrow> 0 \<le> i \<and> i < 32 \<and> disp_ok arch (ofs i)"
  shows "runs exec (seqR (map (\<lambda>i. masm_load_A arch (as_Register (word_of_int i)) (mk_Address (as_Register 11) (ofs i))) is))
    (load_regs ofs is)"
  unfolding load_regs_def [abs_def]
proof (rule runs_map)
  fix i assume i: "i \<in> set is"
  have "runs exec (masm_load_A arch (as_Register (word_of_int i)) (mk_Address (as_Register 11) (ofs i)))
      (\<lambda>m. set_gpr (unat (word_of_int i :: c_int)) (load_intptr arch (m_mem m) (m_gpr m (unat (11 :: c_int)) + word_of_int (ofs i))) m)"
    using assms [OF i] by (intro runs_load) (auto simp: unat_int_reg nat_less_iff)
  then show "runs exec (masm_load_A arch (as_Register (word_of_int i)) (mk_Address (as_Register 11) (ofs i)))
      (\<lambda>m. set_gpr (nat i) (load_intptr arch (m_mem m) (m_gpr m 11 + word_of_int (ofs i))) m)"
    using assms [OF i] by (simp add: unat_int_reg)
qed

lemma load_regs_eval:
  assumes "\<And>i. i \<in> set rs \<Longrightarrow> 11 < i"
  shows "m_mem (load_regs ofs rs m) = m_mem m \<and> m_lr (load_regs ofs rs m) = m_lr m \<and> m_cr (load_regs ofs rs m) = m_cr m \<and>
    m_gpr (load_regs ofs rs m) r = (if int r \<in> set rs
       then load_intptr arch (m_mem m) (m_gpr m 11 + word_of_int (ofs (int r))) else m_gpr m r)"
  using assms
proof (induction rs arbitrary: m)
  case (Cons i xs)
  have "11 < i" using Cons.prems by simp
  let ?m = "set_gpr (nat i) (load_intptr arch (m_mem m) (m_gpr m 11 + word_of_int (ofs i))) m"
  have "load_regs ofs (i # xs) m = load_regs ofs xs ?m" by (simp add: load_regs_def)
  moreover have "m_gpr ?m r = (if i = int r then load_intptr arch (m_mem m) (m_gpr m 11 + word_of_int (ofs i)) else m_gpr m r)"
    "m_gpr ?m 11 = m_gpr m 11" "m_mem ?m = m_mem m" "m_lr ?m = m_lr m" "m_cr ?m = m_cr m"
    using \<open>11 < i\<close> by (auto simp: set_gpr_def)
  moreover have "\<And>j. j \<in> set xs \<Longrightarrow> 11 < j" using Cons.prems by simp
  note IH = Cons.IH [of ?m, OF this]
  ultimately show ?case using IH by (simp split: if_splits)
qed (simp add: load_regs_def)

definition unwind :: "'w word machine \<Rightarrow> 'w word machine" where
  "unwind m = (let sp = load_intptr arch (m_mem m) (m_gpr m 1);
      x = load_intptr arch (m_mem m) (sp + word_of_int (lr_save_offset arch * wordSize arch))
    in m\<lparr>m_gpr := (m_gpr m)(1 := sp, 0 := x), m_lr := x\<rparr>)"

lemma runs_unwind: "runs exec (seqR (butlast (call_stub_unwind_code arch :: 'b emitter list))) unwind"
proof -
  have code: "butlast (call_stub_unwind_code arch :: 'b emitter list) =
      [masm_load_A arch r1 (mk_Address r1 (back_chain_offset * wordSize arch)),
       masm_load_A arch r0 (mk_Address r1 (lr_save_offset arch * wordSize arch)), asm_mtlr r0]"
    by (simp add: call_stub_unwind_code_def)
  have d: "disp_ok arch (lr_save_offset arch * wordSize arch)" "disp_ok arch (back_chain_offset * wordSize arch)"
    by (cases arch; simp add: lr_save_offset_def back_chain_offset_def disp_ok_def)+
  show ?thesis
    unfolding code reg_defs
    by (rule runs_cong, ((rule runs_rules d) | (simp; fail))+)
      (simp add: unwind_def set_gpr_def Let_def back_chain_offset_def fun_upd_twist)
qed

definition stub_left :: "'w word machine \<Rightarrow> 'w word machine" where
  "stub_left m =
     (let m = (case arch of PPC32 \<Rightarrow> load_cr 4 11 m | PPC64 \<Rightarrow> m);
          m = load_regs (\<lambda>i. (registers_offset arch + (i - 14)) * wordSize arch) [14..31] m
      in unwind (case arch of PPC32 \<Rightarrow> m | PPC64 \<Rightarrow> load_cr 1 1 m))"

lemma runs_stub_left:
  "runs exec (seqR (call_stub_restore_code arch @ butlast (call_stub_unwind_code arch :: 'b emitter list))) stub_left"
proof -
  have r: "runs exec (seqR (map (\<lambda>i. masm_load_A arch (as_Register (word_of_int i))
      (mk_Address r11 ((registers_offset arch + (i - 14)) * wordSize arch)) :: 'b emitter) [14..31]))
      (load_regs (\<lambda>i. (registers_offset arch + (i - 14)) * wordSize arch) [14..31])"
    unfolding reg_defs
    by (rule runs_load_regs) (auto simp: disp_ok_def registers_offset_def initial_offset_def split: arch.splits)
  have c: "runs exec (seqR (case arch of PPC32 \<Rightarrow> [masm_load_A arch r0 (mk_Address r11 ((initial_offset + 3) * wordSize arch)) :: 'b emitter, asm_mtcr r0]
      | PPC64 \<Rightarrow> [])) (\<lambda>m. case arch of PPC32 \<Rightarrow> load_cr 4 11 m | PPC64 \<Rightarrow> m)"
    using runs_load_cr [of 11 4] runs_Nil [of exec]
    by (cases arch) (simp_all add: initial_offset_def reg_defs del: seqR.simps)
  have d: "runs exec (seqR (case cr_save_offset arch of None \<Rightarrow> []
      | Some ofs \<Rightarrow> [masm_load_A arch r0 (mk_Address r1 (ofs * wordSize arch)) :: 'b emitter, asm_mtcr r0]))
      (\<lambda>m. case arch of PPC32 \<Rightarrow> m | PPC64 \<Rightarrow> load_cr 1 1 m)"
    using runs_load_cr [of 1 1] runs_Nil [of exec]
    by (cases arch) (simp_all add: cr_save_offset_def reg_defs del: seqR.simps)
  from runs_append [OF runs_append [OF c runs_append [OF r d]] runs_unwind]
  show ?thesis
    by (simp only: call_stub_restore_code_def Let_def stub_left_def [abs_def])
qed

lemma stub_left_eval:
  fixes b :: "'w word machine"
  assumes 11: "m_gpr b 11 = p + word_of_int (- (final_offset arch * wordSize arch))"
    and sp: "load_intptr arch (m_mem b) (m_gpr b 1) = p"
    and lr: "load_intptr arch (m_mem b) (p + word_of_int (lr_save_offset arch * wordSize arch)) = l"
    and cr: "load_intptr arch (m_mem b) (case arch of PPC32 \<Rightarrow> p + word_of_int ((4 - final_offset arch) * wordSize arch)
      | PPC64 \<Rightarrow> m_gpr b 1 + word_of_int (wordSize arch)) = c"
    and regs: "\<And>i. 14 \<le> i \<Longrightarrow> i < 32 \<Longrightarrow>
      load_intptr arch (m_mem b) (p + word_of_int ((int i - 32) * wordSize arch)) = v i"
  shows "m_gpr (stub_left b) 1 = p" "m_lr (stub_left b) = l" "m_cr (stub_left b) = ucast c"
    "14 \<le> i \<Longrightarrow> i < 32 \<Longrightarrow> m_gpr (stub_left b) i = v i"
proof -
  let ?ofs = "\<lambda>i. (registers_offset arch + (i - 14)) * wordSize arch"
  define b1 where "b1 = (case arch of PPC32 \<Rightarrow> load_cr 4 11 b | PPC64 \<Rightarrow> b)"
  define b2 where "b2 = load_regs ?ofs [14..31] b1"
  define b3 where "b3 = (case arch of PPC32 \<Rightarrow> b2 | PPC64 \<Rightarrow> load_cr 1 1 b2)"
  have s: "stub_left b = unwind b3" by (simp only: stub_left_def Let_def b1_def b2_def b3_def)
  have L: "m_mem (load_cr n a m) = m_mem m" "r \<noteq> 0 \<Longrightarrow> m_gpr (load_cr n a m) r = m_gpr m r"
    "m_cr (load_cr n a m) = ucast (load_intptr arch (m_mem m) (m_gpr m a + word_of_int (n * wordSize arch)))" for n a m r
    by (simp_all add: load_cr_def Let_def set_gpr_def)
  have "\<And>i. i \<in> set [14..31] \<Longrightarrow> 11 < i" by auto
  note R = load_regs_eval [OF this, where rs = "[14..31]" and ofs = ?ofs and m = b1, folded b2_def]
  have R4: "m_mem b2 = m_mem b1" "m_lr b2 = m_lr b1" "m_cr b2 = m_cr b1" using R by blast+
  have M: "m_mem b1 = m_mem b" "m_mem b3 = m_mem b2"
    unfolding b1_def b3_def arch.case_distrib [of m_mem] L(1) arch_case_same by (rule refl)+
  note M = M(1) R4(1) [unfolded M(1)] M(2) [unfolded R4(1) M(1)]
  have G: "m_gpr b1 r = m_gpr b r" "m_gpr b3 r = m_gpr b2 r" if "r \<noteq> 0" for r
    unfolding b1_def b3_def arch.case_distrib [of "\<lambda>m. m_gpr m r"] L(2) [OF that] arch_case_same by (rule refl)+
  have b2: "m_gpr b2 r = m_gpr b r" if "r \<noteq> 0" "r < 14" for r
    using R [of r] that G(1) by auto
  have b2r: "m_gpr b2 r = v r" if "14 \<le> r" "r < 32" for r
  proof -
    have "- (final_offset arch * wordSize arch) + ?ofs (int r) = (int r - 32) * wordSize arch"
      by (simp add: final_offset_def algebra_simps)
    then have "m_gpr b1 11 + word_of_int (?ofs (int r)) = p + word_of_int ((int r - 32) * wordSize arch)"
      by (metis (no_types, lifting) 11 G(1) add.assoc of_int_add zero_neq_numeral)
    moreover have "int r \<in> set [14..31]" unfolding set_upto using that by (simp only: atLeastAtMost_iff) linarith
    ultimately show ?thesis using R [of r] regs [OF that] M(1) by simp
  qed
  have "m_gpr b3 1 = m_gpr b 1" using G(2) b2 by simp
  then have U: "m_gpr (unwind b3) = (m_gpr b3)(1 := p, 0 := l)" "m_lr (unwind b3) = l" "m_cr (unwind b3) = m_cr b3"
    using sp lr by (simp_all add: unwind_def Let_def M)
  show "m_gpr (stub_left b) 1 = p" "m_lr (stub_left b) = l" by (simp_all add: s U)
  show "14 \<le> i \<Longrightarrow> i < 32 \<Longrightarrow> m_gpr (stub_left b) i = v i" using b2r [of i] G(2) [of i] by (simp add: s U)
  have "- (final_offset arch * wordSize arch) + 4 * wordSize arch = (4 - final_offset arch) * wordSize arch" by (simp add: algebra_simps)
  then have a: "m_gpr b 11 + word_of_int (4 * wordSize arch) = p + word_of_int ((4 - final_offset arch) * wordSize arch)"
    by (metis (no_types, lifting) 11 add.assoc of_int_add)
  have "m_gpr b2 1 = m_gpr b 1" using b2 by simp
  then have "m_cr b3 = ucast (load_intptr arch (m_mem b) (case arch of PPC32 \<Rightarrow> m_gpr b 11 + word_of_int (4 * wordSize arch)
      | PPC64 \<Rightarrow> m_gpr b 1 + word_of_int (1 * wordSize arch)))"
    using R4(3) M(2)
    unfolding b3_def b1_def arch.case_distrib [of m_cr] arch.case_distrib [of "\<lambda>a. ucast (load_intptr arch (m_mem b) a)"] L(3)
    by (auto split: arch.split)
  then show "m_cr (stub_left b) = ucast c" using cr by (simp only: s U a mult_1)
qed

end

section \<open>Properties\<close>


context processor
begin

lemma stub_cr_fields: "take_bit 28 (ucast (stub_cr n m) :: 32 word) = take_bit 28 (m_cr m)"
proof -
  have "32 \<le> LENGTH('w)" using width by (cases arch) (simp_all add: width_ok_def)
  then have "ucast (ucast c :: 'w word) = (c :: 32 word)" for c
    by (intro bit_word_eqI) (auto simp: bit_simps)
  then have "ucast (stub_cr n m) = m_cr (set_cr0 (stub_padding (word_of_int n)) m)"
    by (simp only: stub_cr_def)
  then show ?thesis
    by (simp only: set_cr0_def) (rule bit_word_eqI, auto simp: bit_simps)
qed

text \<open>What the code of the frame leaves behind, whoever emitted it.\<close>

lemma call_stub_entered:
  assumes "call_stub_frame = Inr frame"
    and "emits (seqR (call_stub_frame_code arch (unaligned_size arch frame + 3 * wordSize arch) (start_of_locals arch frame))) ws"
    and n: "m_gpr m 9 = word_of_int n" "0 \<le> n" "n < 65536"
  defines "e \<equiv> fold exec ws m"
  shows "m_gpr e 1 = m_gpr m 1 + word_of_int (- stub_size arch n)"
    "m_gpr e 11 = m_gpr m 1 + word_of_int (- (final_offset arch * wordSize arch))"
    "(k, x) \<in> set (stub_slots n m) \<Longrightarrow> load_intptr arch (m_mem e) (m_gpr m 1 + word_of_int k) = x"
proof -
  obtain f where f: "call_stub_frame = Inr f" "\<forall>arch. unaligned_size arch f + 3 * wordSize arch = stub_base arch \<and>
    start_of_locals arch f = stub_locals arch" using call_stub_frame_sizes by blast
  have "(Inr f :: StackFrame result) = Inr frame" by (rule trans [OF f(1) [symmetric] assms(1)])
  then have "f = frame" by (rule sum.inject(2) [THEN iffD1])
  then have "unaligned_size arch frame + 3 * wordSize arch = stub_base arch" "start_of_locals arch frame = stub_locals arch"
    using f(2) by simp_all
  then have e: "e = stub_entered m"
    unfolding e_def using assms(2) by (intro runs_emits [OF runs_call_stub_frame_code]) (simp only:)
  note E = stub_entered_eval [OF n(1), folded e]
  show "m_gpr e 1 = m_gpr m 1 + word_of_int (- stub_size arch n)"
    "m_gpr e 11 = m_gpr m 1 + word_of_int (- (final_offset arch * wordSize arch))" by (rule E)+
  show "(k, x) \<in> set (stub_slots n m) \<Longrightarrow> load_intptr arch (m_mem e) (m_gpr m 1 + word_of_int k) = x"
    unfolding E(3) by (rule put_slots_get [OF n(2,3)])
qed

lemma stub_slots_set: "set (stub_slots n m) =
    {(lr_save_offset arch * wordSize arch, m_lr m), (- stub_size arch n, m_gpr m 1)} \<union>
    (case arch of PPC32 \<Rightarrow> {} | PPC64 \<Rightarrow> {(wordSize arch - stub_size arch n, stub_cr n m)}) \<union>
    {((1 - final_offset arch) * wordSize arch, m_gpr m 3), ((2 - final_offset arch) * wordSize arch, m_gpr m 4),
     ((3 - final_offset arch) * wordSize arch, m_gpr m 5)} \<union>
    (case arch of PPC32 \<Rightarrow> {((4 - final_offset arch) * wordSize arch, stub_cr n m)} | PPC64 \<Rightarrow> {}) \<union>
    (\<lambda>i. ((i - 32) * wordSize arch, m_gpr m (nat i))) ` {14..31}"
  unfolding stub_slots_def Let_def set_append set_map set_upto arch.case_distrib [of set]
  by (simp only: list.set) auto

text \<open>The slots the stub reads again when it is left.\<close>

lemma stub_slots_members:
  "(lr_save_offset arch * wordSize arch, m_lr m) \<in> set (stub_slots n m)"
  "(- stub_size arch n, m_gpr m 1) \<in> set (stub_slots n m)"
  "14 \<le> i \<Longrightarrow> i < 32 \<Longrightarrow> ((int i - 32) * wordSize arch, m_gpr m i) \<in> set (stub_slots n m)"
  "(case arch of PPC32 \<Rightarrow> (4 - final_offset arch) * wordSize arch | PPC64 \<Rightarrow> wordSize arch - stub_size arch n, stub_cr n m)
    \<in> set (stub_slots n m)"
proof -
  show "14 \<le> i \<Longrightarrow> i < 32 \<Longrightarrow> ((int i - 32) * wordSize arch, m_gpr m i) \<in> set (stub_slots n m)"
    unfolding stub_slots_set by (intro UnI2 image_eqI [of _ _ "int i"]) simp_all
  show "(case arch of PPC32 \<Rightarrow> (4 - final_offset arch) * wordSize arch | PPC64 \<Rightarrow> wordSize arch - stub_size arch n, stub_cr n m)
      \<in> set (stub_slots n m)"
    unfolding stub_slots_set by (simp split: arch.split)
qed (simp_all only: stub_slots_set, simp_all)

end

text \<open>C6. After the code of the frame, the walker of frames finds the caller and the call wrapper.\<close>

theorem call_stub_frame_walkable:
  fixes m :: "'w::len word machine"
  assumes "isa arch exec" "width_ok arch TYPE('w)" "call_stub_frame = Inr frame"
    and "emits (seqR (call_stub_frame_code arch (unaligned_size arch frame + 3 * wordSize arch) (start_of_locals arch frame))) ws"
    and "m_gpr m 9 = word_of_int n" "0 \<le> n" "n < 65536"
    and "set_call_wrapper_offset ((final_offset arch - initial_offset) * wordSize arch) g = Inr g'"
    and "frame_sp f = m_gpr (fold exec ws m) 1" "is_entry_frame k f"
  shows "sender_sp arch (m_mem (fold exec ws m)) f = m_gpr m 1 \<and>
    m_gpr (fold exec ws m) 11 = sender_sp arch (m_mem (fold exec ws m)) f - word_of_int (final_offset arch * wordSize arch) \<and>
    entry_frame_call_wrapper arch g' k (m_mem (fold exec ws m)) f = Inr (m_gpr m 3)"
proof -
  note P = processor.intro [OF assms(1,2)]
  note E = processor.call_stub_entered [OF P assms(3-7)]
  let ?e = "fold exec ws m"
  have "(- stub_size arch n, m_gpr m 1) \<in> set (processor.stub_slots arch n m)"
    "((1 - final_offset arch) * wordSize arch, m_gpr m 3) \<in> set (processor.stub_slots arch n m)"
    unfolding processor.stub_slots_set [OF P] by simp_all
  note S = this [THEN E(3)]
  have sp: "sender_sp arch (m_mem ?e) f = m_gpr m 1"
    using S(1) by (simp only: sender_sp_def assms(9) E(1))
  have "final_offset arch - initial_offset \<noteq> 0" by (cases arch) (simp_all add: final_offset_def registers_offset_def)
  moreover have "wordSize arch \<noteq> 0" by (cases arch) simp_all
  ultimately have "call_wrapper_offset g' = Inr ((final_offset arch - initial_offset) * wordSize arch)"
    using assms(8)
    by (auto simp: set_call_wrapper_offset_def call_wrapper_offset_def asserted_def split: if_splits)
  moreover have "m_gpr m 1 - word_of_int ((final_offset arch - initial_offset) * wordSize arch) =
      m_gpr m 1 + word_of_int ((1 - final_offset arch) * wordSize arch)"
    by (simp add: initial_offset_def algebra_simps)
  ultimately have "entry_frame_call_wrapper arch g' k (m_mem ?e) f = Inr (m_gpr m 3)"
    using assms(10) S(2) unfolding entry_frame_call_wrapper_def sp
    by (simp only: asserted_simps bindR_simps)
  moreover have "m_gpr ?e 11 = m_gpr m 1 - word_of_int (final_offset arch * wordSize arch)" using E(2) by simp
  ultimately show ?thesis using sp by simp
qed

text \<open>C5. Whatever the Java code does that keeps the frame of the stub, the stub gives back to its
  caller the stack pointer, the general registers a callee saves, the link register, and all
  fields of the condition register but the first.\<close>

theorem call_stub_restores:
  fixes m :: "'w::len word machine"
  assumes "isa arch exec" "width_ok arch TYPE('w)" "call_stub_frame = Inr frame"
    and "emits (seqR (call_stub_frame_code arch (unaligned_size arch frame + 3 * wordSize arch) (start_of_locals arch frame))) ws"
    and "m_gpr m 9 = word_of_int n" "0 \<le> n" "n < 65536"
    and "emits (seqR (call_stub_restore_code arch @ butlast (call_stub_unwind_code arch))) vs"
    and body: "m_gpr b 11 = m_gpr (fold exec ws m) 11"
      "\<forall>k \<in> {0} \<union> (case arch of PPC32 \<Rightarrow> {} | PPC64 \<Rightarrow> {wordSize arch}).
         load_intptr arch (m_mem b) (m_gpr b 1 + word_of_int k) =
         load_intptr arch (m_mem (fold exec ws m)) (m_gpr (fold exec ws m) 1 + word_of_int k)"
      "\<forall>k \<in> {1 - final_offset arch..< 0} \<union> {lr_save_offset arch}.
         load_intptr arch (m_mem b) (m_gpr m 1 + word_of_int (k * wordSize arch)) =
         load_intptr arch (m_mem (fold exec ws m)) (m_gpr m 1 + word_of_int (k * wordSize arch))"
  shows "m_gpr (fold exec vs b) 1 = m_gpr m 1 \<and> (\<forall>i \<in> {14..31}. m_gpr (fold exec vs b) i = m_gpr m i) \<and>
    m_lr (fold exec vs b) = m_lr m \<and> take_bit 28 (m_cr (fold exec vs b)) = take_bit 28 (m_cr m)"
proof -
  note P = processor.intro [OF assms(1,2)]
  note E = processor.call_stub_entered [OF P assms(3-7)]
  note S = E(3) [OF processor.stub_slots_members(1) [OF P]] E(3) [OF processor.stub_slots_members(2) [OF P]]
    E(3) [OF processor.stub_slots_members(3) [OF P]] E(3) [OF processor.stub_slots_members(4) [OF P]]
  let ?e = "fold exec ws m" and ?at = "\<lambda>k. m_gpr m 1 + word_of_int (k * wordSize arch)" and ?cr = "processor.stub_cr arch n m"
  have kept: "load_intptr arch (m_mem b) (?at k) = load_intptr arch (m_mem ?e) (?at k)"
    if "1 - final_offset arch \<le> k \<and> k < 0 \<or> k = lr_save_offset arch" for k
    by (rule bspec [OF body(3)]) (use that in auto)
  have fo: "22 \<le> final_offset arch" by (cases arch) (simp_all add: final_offset_def registers_offset_def initial_offset_def)
  have sp: "load_intptr arch (m_mem b) (m_gpr b 1) = m_gpr m 1" using body(2) S(2) by (simp add: E(1) del: One_nat_def)
  have lr: "load_intptr arch (m_mem b) (?at (lr_save_offset arch)) = m_lr m" using kept S(1) by simp
  have regs: "load_intptr arch (m_mem b) (?at (int i - 32)) = m_gpr m i" if "14 \<le> i" "i < 32" for i
    by (rule trans [OF kept S(3) [OF that]]) (use that fo in simp)
  have cr: "load_intptr arch (m_mem b) (case arch of PPC32 \<Rightarrow> ?at (4 - final_offset arch) | PPC64 \<Rightarrow> m_gpr b 1 + word_of_int (wordSize arch)) = ?cr"
  proof (cases arch)
    case PPC32
    have "load_intptr arch (m_mem b) (?at (4 - final_offset arch)) = load_intptr arch (m_mem ?e) (?at (4 - final_offset arch))"
      by (rule kept) (use fo in simp)
    then show ?thesis using S(4) unfolding PPC32 arch.case by simp
  next
    case PPC64
    have "m_gpr ?e 1 + word_of_int (wordSize arch) = m_gpr m 1 + word_of_int (wordSize arch - stub_size arch n)"
      by (simp add: E(1) del: One_nat_def)
    moreover have "load_intptr arch (m_mem b) (m_gpr b 1 + word_of_int (wordSize arch)) =
        load_intptr arch (m_mem ?e) (m_gpr ?e 1 + word_of_int (wordSize arch))"
      using body(2) PPC64 by (simp del: One_nat_def)
    ultimately show ?thesis using S(4) unfolding PPC64 arch.case by (simp only:)
  qed
  have b11: "m_gpr b 11 = m_gpr m 1 + word_of_int (- (final_offset arch * wordSize arch))" using body(1) E(2) by simp
  note L = processor.stub_left_eval [OF P b11 sp lr cr regs]
  have "fold exec vs b = processor.stub_left arch b"
    by (rule runs_emits [OF processor.runs_stub_left [OF P] assms(8)])
  then show ?thesis using L processor.stub_cr_fields [OF P, of n m] by (simp del: One_nat_def)
qed

section \<open>An example\<close>

text \<open>A call with two words of parameters on a 32-bit machine.\<close>

definition sample_caller :: "32 word machine" where
  "sample_caller = \<lparr>m_gpr = (\<lambda>r. of_nat (1000 * r))(1 := 0x10000, 9 := 2), m_fpr = (\<lambda>_. 0), m_lr = 0x1234, m_ctr = 0,
     m_cr = 0x12345678, m_so = False, m_mem = (\<lambda>_. 0)\<rparr>"

definition sample_routines :: "32 word StubRoutines" where
  "sample_routines = \<lparr>stub_entry = (\<lambda>_. None), call_stub_return_address = None,
     call_stub_base_size_static = 0, call_wrapper_offset_static = 0\<rparr>"

definition sample_frame :: "(32 word, unit) frame" where
  "sample_frame = \<lparr>frame_sp = 65424, frame_pc = 0, frame_cb = None, frame_deopt = not_deoptimized\<rparr>"

lemma sample_stub_code:
  "\<exists>frame ws. call_stub_frame = Inr frame \<and>
     emits (seqR (call_stub_frame_code PPC32 (unaligned_size PPC32 frame + 3 * wordSize PPC32) (start_of_locals PPC32 frame)) :: 'b emitter) ws"
proof -
  obtain f where f: "call_stub_frame = Inr f" "\<forall>arch. unaligned_size arch f + 3 * wordSize arch = stub_base arch \<and>
    start_of_locals arch f = stub_locals arch" using call_stub_frame_sizes by blast
  moreover obtain ws where "emits (seqR (call_stub_frame_code PPC32 (stub_base PPC32) (stub_locals PPC32)) :: 'b emitter) ws"
    using ppc32.runs_call_stub_frame_code by (auto simp: runs_def)
  ultimately show ?thesis by (metis (no_types))
qed

definition sample_walker :: "(32 word, unit) walker" where
  "sample_walker = \<lparr>is_entry_frame = (\<lambda>f. frame_sp f = 65424), entry_frame_is_first = (\<lambda>_. True),
     wrapper_anchor = (\<lambda>_. \<lparr>last_Java_sp = 0, last_Java_pc = 0\<rparr>), map_clear = id\<rparr>"

lemma call_stub_frame_walkable_witness:
  "\<exists>ws :: c_int list. \<exists>g'. set_call_wrapper_offset 88 sample_routines = Inr g' \<and>
     sender_sp PPC32 (m_mem (fold (reference_cpu PPC32) ws sample_caller)) sample_frame = 0x10000 \<and>
     entry_frame_call_wrapper PPC32 g' sample_walker (m_mem (fold (reference_cpu PPC32) ws sample_caller)) sample_frame = Inr 3000"
proof -
  obtain frame ws where code: "call_stub_frame = Inr frame"
    "emits (seqR (call_stub_frame_code PPC32 (unaligned_size PPC32 frame + 3 * wordSize PPC32) (start_of_locals PPC32 frame)) :: 32 word emitter) ws"
    using sample_stub_code by blast
  have n: "m_gpr sample_caller 9 = word_of_int 2" by (simp add: sample_caller_def)
  let ?g = "sample_routines\<lparr>call_wrapper_offset_static := 88\<rparr>"
  have g: "set_call_wrapper_offset ((final_offset PPC32 - initial_offset) * wordSize PPC32) sample_routines = Inr ?g"
    by (simp add: set_call_wrapper_offset_def sample_routines_def final_offset_def registers_offset_def initial_offset_def)
  have sp: "frame_sp sample_frame = m_gpr (fold (reference_cpu PPC32) ws sample_caller) 1"
    using ppc32.call_stub_entered(1) [OF code n] by (simp add: sample_frame_def sample_caller_def stub_size_def stub_base_def)
  have "is_entry_frame sample_walker sample_frame" by (simp add: sample_walker_def sample_frame_def)
  note call_stub_frame_walkable [OF reference_cpu_isa ppc32.width code n _ _ g sp this]
  then have "sender_sp PPC32 (m_mem (fold (reference_cpu PPC32) ws sample_caller)) sample_frame = 0x10000 \<and>
     entry_frame_call_wrapper PPC32 ?g sample_walker (m_mem (fold (reference_cpu PPC32) ws sample_caller)) sample_frame = Inr 3000"
    by (simp add: sample_caller_def)
  moreover have "set_call_wrapper_offset 88 sample_routines = Inr ?g"
    by (simp add: set_call_wrapper_offset_def sample_routines_def)
  ultimately show ?thesis by blast
qed

text \<open>Java code that leaves nothing in the registers but the address of the locals and the stack.\<close>

lemma call_stub_restores_witness:
  "\<exists>ws vs :: c_int list. \<exists>b. m_gpr b 14 = 99 \<and> m_gpr (fold (reference_cpu PPC32) vs b) 14 = (14000 :: 32 word) \<and>
     m_gpr (fold (reference_cpu PPC32) vs b) 1 = 0x10000 \<and> m_lr (fold (reference_cpu PPC32) vs b) = 0x1234"
proof -
  obtain frame ws where code: "call_stub_frame = Inr frame"
    "emits (seqR (call_stub_frame_code PPC32 (unaligned_size PPC32 frame + 3 * wordSize PPC32) (start_of_locals PPC32 frame)) :: 32 word emitter) ws"
    using sample_stub_code by blast
  obtain vs where vs: "emits (seqR (call_stub_restore_code PPC32 @ butlast (call_stub_unwind_code PPC32)) :: 32 word emitter) vs"
    using ppc32.runs_stub_left by (auto simp: runs_def)
  have n: "m_gpr sample_caller 9 = word_of_int 2" by (simp add: sample_caller_def)
  define e where "e = fold (reference_cpu PPC32) ws sample_caller"
  define b where "b = e\<lparr>m_gpr := (\<lambda>r. if r = 1 \<or> r = 11 then m_gpr e r else 99), m_lr := 0, m_cr := 0\<rparr>"
  have b: "m_gpr b 11 = m_gpr e 11" "m_gpr b 1 = m_gpr e 1" "m_mem b = m_mem e" by (simp_all add: b_def)
  note call_stub_restores [OF reference_cpu_isa ppc32.width code n _ _ vs, folded e_def, of b]
  then have "m_gpr (fold (reference_cpu PPC32) vs b) 1 = m_gpr sample_caller 1 \<and>
      (\<forall>i\<in>{14..31}. m_gpr (fold (reference_cpu PPC32) vs b) i = m_gpr sample_caller i) \<and>
      m_lr (fold (reference_cpu PPC32) vs b) = m_lr sample_caller"
    by (simp only: b) simp
  then have "m_gpr (fold (reference_cpu PPC32) vs b) 14 = 14000 \<and> m_gpr (fold (reference_cpu PPC32) vs b) 1 = 0x10000 \<and>
      m_lr (fold (reference_cpu PPC32) vs b) = 0x1234"
    by (simp add: sample_caller_def)
  moreover have "m_gpr b 14 = 99" by (simp add: b_def)
  ultimately show ?thesis by blast
qed

end
