(* ===== verification/FrameExtension.thy ===== *)
theory FrameExtension
  imports Machine
begin

text \<open>
  Extending a frame (\<^verbatim>\<open>MacroAssembler::maybe_extend_frame\<close>): the larger frame has the back chain and
  the saved condition register of the one it replaces, and what was in the frame stays.
\<close>

declare Register_encoding.simps [simp del] FloatRegister_encoding.simps [simp del]

context processor
begin

definition frame_growth :: "'w word \<Rightarrow> 'w word" where
  "frame_growth d = d + take_bit 4 (- d)"

definition extended_chain :: "nat \<Rightarrow> nat \<Rightarrow> 'w word machine \<Rightarrow> 'w word machine" where
  "extended_chain t a m =
     (let d = m_gpr m t - m_gpr m a; sp = m_gpr m 1; new = sp + - frame_growth d;
          mem = store_intptr arch (m_mem m) new sp;
          chain = load_intptr arch mem sp
      in set_cr0 (take_bit 4 (- d)) m
        \<lparr>m_gpr := (m_gpr m)(t := chain, a := sp, 1 := new), m_mem := store_intptr arch mem new chain\<rparr>)"

definition extended_cr :: "nat \<Rightarrow> nat \<Rightarrow> 'w word machine \<Rightarrow> 'w word machine" where
  "extended_cr t a m =
     (let cr = load_intptr arch (m_mem m) (m_gpr m a + word_of_int (wordSize arch))
      in m\<lparr>m_gpr := (m_gpr m)(t := cr), m_mem := store_intptr arch (m_mem m) (m_gpr m 1 + word_of_int (wordSize arch)) cr\<rparr>)"

definition extended :: "nat \<Rightarrow> nat \<Rightarrow> 'w word machine \<Rightarrow> 'w word machine" where
  "extended t a m = (let m = extended_chain t a m in if arch = PPC32 then m else extended_cr t a m)"

lemma runs_extend_frame:
  assumes "unat t < 32" "unat a < 32" "1 < unat t" "1 < unat a" "unat t \<noteq> unat a"
  shows "runs exec (seqR (extend_frame_code arch (as_Register t) (as_Register a))) (extended (unat t) (unat a))"
proof -
  have d: "disp_ok arch 0" "disp_ok arch (wordSize arch)" by (cases arch; simp add: disp_ok_def)+
  have r: "unat t \<noteq> 0" "unat a \<noteq> 0" "unat t \<noteq> 1" "unat a \<noteq> 1" "unat a \<noteq> unat t" "1 \<noteq> unat t" "1 \<noteq> unat a" "unat t \<noteq> unat a"
    using assms by auto
  have one: "unat (1 :: c_int) = 1" by simp
  have code: "extend_frame_code arch (as_Register t) (as_Register a) =
     [asm_sub (as_Register t) (as_Register t) (as_Register a),
       masm_calc_padding_for_alignment (as_Register a) (as_Register t) (word_of_int StackAlignmentInBytes),
       asm_add (as_Register t) (as_Register t) (as_Register a),
       asm_mr (as_Register a) (as_Register 1),
       asm_neg (as_Register t) (as_Register t),
       masm_store_update_indexed arch (as_Register 1) (as_Register 1) (as_Register t),
       masm_load_A arch (as_Register t) (mk_Address (as_Register a) 0),
       masm_store arch (as_Register t) (mk_Address (as_Register 1) 0)] @
       (if arch = PPC32 then [] else [
          masm_load_A arch (as_Register t) (mk_Address (as_Register a) (wordSize arch)),
          masm_store arch (as_Register t) (mk_Address (as_Register 1) (wordSize arch))])"
    by (cases arch) (simp_all add: extend_frame_code_def Let_def cr_save_offset_def back_chain_offset_def reg_defs)
  have chain: "runs exec (seqR [asm_sub (as_Register t) (as_Register t) (as_Register a),
       masm_calc_padding_for_alignment (as_Register a) (as_Register t) (word_of_int StackAlignmentInBytes),
       asm_add (as_Register t) (as_Register t) (as_Register a),
       asm_mr (as_Register a) (as_Register 1),
       asm_neg (as_Register t) (as_Register t),
       masm_store_update_indexed arch (as_Register 1) (as_Register 1) (as_Register t),
       masm_load_A arch (as_Register t) (mk_Address (as_Register a) 0),
       masm_store arch (as_Register t) (mk_Address (as_Register 1) 0)]) (extended_chain (unat t) (unat a))"
    by (rule runs_cong, ((rule runs_rules d assms r) | (simp; fail))+,
        simp only: machine_updates fun_upd_same fun_upd_other r one frame_growth_def [symmetric] Let_def not_False_eq_True, rule machine.equality)
      (simp_all add: extended_chain_def frame_growth_def [symmetric] Let_def set_gpr_def set_cr0_def r fun_eq_iff del: One_nat_def)
  have cr: "runs exec (seqR [masm_load_A arch (as_Register t) (mk_Address (as_Register a) (wordSize arch)),
       masm_store arch (as_Register t) (mk_Address (as_Register 1) (wordSize arch))]) (extended_cr (unat t) (unat a))"
    by (rule runs_cong, ((rule runs_rules d assms r) | (simp; fail))+, rule machine.equality)
      (simp_all add: extended_cr_def Let_def set_gpr_def r del: One_nat_def)
  show ?thesis
  proof (cases "arch = PPC32")
    case True
    show ?thesis using chain unfolding code extended_def [abs_def] Let_def if_P [OF True] by (simp only: append_Nil2)
  next
    case False
    show ?thesis using runs_append [OF chain cr] unfolding code extended_def [abs_def] Let_def if_not_P [OF False] .
  qed
qed

text \<open>Where the words are, for an extension by \<open>x\<close> bytes.\<close>

lemma extended_eval:
  fixes m :: "'w word machine"
  assumes x: "frame_growth (m_gpr m t - m_gpr m a) = word_of_int x" "16 \<le> x" "x < 2 ^ 24"
    and r: "1 < t" "1 < a" "t \<noteq> a"
  defines "e \<equiv> extended t a m" and "p \<equiv> m_gpr m 1"
  shows "m_gpr e 1 = p - word_of_int x"
    "load_intptr arch (m_mem e) (m_gpr e 1) = load_intptr arch (m_mem m) p"
    "arch = PPC64 \<Longrightarrow> load_intptr arch (m_mem e) (m_gpr e 1 + word_of_int (wordSize arch)) =
       load_intptr arch (m_mem m) (p + word_of_int (wordSize arch))"
    "0 \<le> k \<Longrightarrow> k < 2 ^ 24 \<Longrightarrow> m_mem e (p + word_of_int k) = m_mem m (p + word_of_int k)"
proof -
  let ?W = "wordSize arch"
  have W: "(?W = 4 \<or> ?W = 8) \<and> (LENGTH('w) = 32 \<or> LENGTH('w) = 64)"
    using width by (cases arch) (simp_all add: width_ok_def)
  then have n: "nat ?W \<le> 2 ^ LENGTH('w)" by auto
  have ap: "words.apart i j" if "?W \<le> \<bar>i - j\<bar>" "\<bar>i - j\<bar> < 2 ^ 25" for i j
    unfolding words.apart_def using that W by auto
  have g: "load_intptr arch (store_intptr arch mem (p + word_of_int i) v) (p + word_of_int j) = load_intptr arch mem (p + word_of_int j)"
    if "?W \<le> \<bar>i - j\<bar>" "\<bar>i - j\<bar> < 2 ^ 25" for mem i j v
    by (rule words.apart_get [OF ap [OF that]])
  have f: "store_intptr arch mem (p + word_of_int i) v (p + word_of_int j) = mem (p + word_of_int j)"
    if "?W \<le> j - i" "j - i < 2 ^ 25" for mem i j v
  proof (rule words.put_frame [OF n])
    have "uint (p + word_of_int j - (p + word_of_int i) :: 'w word) = uint (word_of_int (j - i) :: 'w word)" by simp
    also have "\<dots> = j - i"
      using that W by (subst uint_word_of_int_eq) (auto simp: take_bit_eq_mod)
    finally have "unat (p + word_of_int j - (p + word_of_int i)) = nat (j - i)" by (simp add: unat_eq_nat_uint)
    then show "nat ?W \<le> unat (p + word_of_int j - (p + word_of_int i))" using that by simp
  qed
  define c where "c = extended_chain t a m"
  define mem where "mem = store_intptr arch (store_intptr arch (m_mem m) (p + word_of_int (- x)) p) (p + word_of_int (- x)) (load_intptr arch (m_mem m) p)"
  have "load_intptr arch (store_intptr arch (m_mem m) (p + word_of_int (- x)) p) p = load_intptr arch (m_mem m) p"
    using g [of "- x" 0] x W by auto
  then have c: "m_gpr c 1 = p + word_of_int (- x)" "m_gpr c a = p" "m_mem c = mem"
    using r by (simp_all add: c_def mem_def extended_chain_def Let_def set_cr0_def x(1) p_def del: One_nat_def)
  have at: "load_intptr arch mem (p + word_of_int (- x)) = load_intptr arch (m_mem m) p"
    unfolding mem_def by (rule words.get_put [OF n])
  have cr: "load_intptr arch mem (p + word_of_int ?W) = load_intptr arch (m_mem m) (p + word_of_int ?W)"
  proof -
    have "?W \<le> \<bar>- x - ?W\<bar>" "\<bar>- x - ?W\<bar> < 2 ^ 25" using x W by auto
    note g [OF this]
    then show ?thesis by (simp only: mem_def)
  qed
  have e: "e = (if arch = PPC32 then c else extended_cr t a c)" by (simp add: e_def extended_def c_def Let_def)
  define mem' where "mem' = store_intptr arch mem (p + word_of_int (- x) + word_of_int ?W) (load_intptr arch mem (p + word_of_int ?W))"
  have new: "p + word_of_int (- x) + word_of_int ?W = p + word_of_int (?W - x)" by simp
  have e1: "m_gpr e 1 = p + word_of_int (- x)" using r c by (simp add: e extended_cr_def Let_def del: One_nat_def)
  have em: "m_mem e = (if arch = PPC32 then mem else mem')"
    unfolding e mem'_def using c by (simp add: extended_cr_def Let_def del: One_nat_def)
  consider "m_mem e = mem" | "m_mem e = mem'" using em by metis
  note cases = this
  show "m_gpr e 1 = p - word_of_int x" using e1 by simp
  have "load_intptr arch mem' (p + word_of_int (- x)) = load_intptr arch mem (p + word_of_int (- x))"
    unfolding mem'_def new by (rule g) (use W in auto)
  then show "load_intptr arch (m_mem e) (m_gpr e 1) = load_intptr arch (m_mem m) p"
    unfolding e1 using at by (rule_tac cases) simp_all
  show "load_intptr arch (m_mem e) (m_gpr e 1 + word_of_int ?W) = load_intptr arch (m_mem m) (p + word_of_int ?W)" if "arch = PPC64"
  proof -
    have "m_mem e = mem'" using em that by simp
    then show ?thesis unfolding e1 mem'_def by (simp only: words.get_put [OF n] cr)
  qed
  show "m_mem e (p + word_of_int k) = m_mem m (p + word_of_int k)" if k: "0 \<le> k" "k < 2 ^ 24"
  proof -
    have "?W \<le> k - - x" "k - - x < 2 ^ 25" using x W k by auto
    note f [OF this]
    then have "mem (p + word_of_int k) = m_mem m (p + word_of_int k)" by (simp only: mem_def)
    moreover have "mem' (p + word_of_int k) = mem (p + word_of_int k)"
      unfolding mem'_def new by (rule f) (use x W k in auto)
    ultimately show ?thesis by (rule_tac cases) simp_all
  qed
qed

lemma frame_growth_int: "frame_growth (word_of_int d) = word_of_int (d + (- d) mod 16)"
proof -
  have "LENGTH('w) = 32 \<or> LENGTH('w) = 64" using width by (cases arch) (simp_all add: width_ok_def)
  then have "take_bit 4 (word_of_int k) = (word_of_int (take_bit 4 k) :: 'w word)" for k
    by (intro bit_word_eqI) (auto simp: bit_simps)
  moreover have "- word_of_int d = (word_of_int (- d) :: 'w word)" by simp
  ultimately show ?thesis unfolding frame_growth_def by (simp only: of_int_add) (simp add: take_bit_eq_mod)
qed

end

section \<open>Properties\<close>

text \<open>C7. An extended frame is larger by what is missing, rounded up to the alignment of the stack; its
  back chain, and on the 64-bit flavour its saved condition register, are those of the frame it
  replaces; and nothing from the old stack pointer upwards has changed.\<close>

theorem extended_frame_kept:
  fixes m :: "'w::len word machine"
  assumes "isa arch exec" "width_ok arch TYPE('w)"
    and code: "emits (seqR (extend_frame_code arch (as_Register t) (as_Register a))) ws"
    and r: "unat t < 32" "unat a < 32" "1 < unat t" "1 < unat a" "unat t \<noteq> unat a"
    and d: "m_gpr m (unat t) - m_gpr m (unat a) = word_of_int d" "0 < d" "d < 2 ^ 20"
  shows "\<exists>x. d \<le> x \<and> x < d + 16 \<and> x mod 16 = 0 \<and> m_gpr (fold exec ws m) 1 = m_gpr m 1 - word_of_int x \<and>
    load_intptr arch (m_mem (fold exec ws m)) (m_gpr (fold exec ws m) 1) = load_intptr arch (m_mem m) (m_gpr m 1) \<and>
    (arch = PPC64 \<longrightarrow> load_intptr arch (m_mem (fold exec ws m)) (m_gpr (fold exec ws m) 1 + word_of_int (wordSize arch)) =
       load_intptr arch (m_mem m) (m_gpr m 1 + word_of_int (wordSize arch))) \<and>
    (\<forall>k. 0 \<le> k \<and> k < 2 ^ 24 \<longrightarrow> m_mem (fold exec ws m) (m_gpr m 1 + word_of_int k) = m_mem m (m_gpr m 1 + word_of_int k))"
proof -
  note P = processor.intro [OF assms(1,2)]
  define x where "x = d + (- d) mod 16"
  have m: "0 \<le> (- d) mod 16" "(- d) mod 16 < 16" "x mod 16 = 0"
    by (simp_all add: x_def mod_add_right_eq)
  then have "16 \<le> x" using d(2) x_def by presburger
  moreover have "x < 2 ^ 24" using m d(3) by (simp add: x_def)
  moreover have "processor.frame_growth (m_gpr m (unat t) - m_gpr m (unat a)) = word_of_int x"
    unfolding d(1) x_def by (rule processor.frame_growth_int [OF P])
  ultimately have x: "processor.frame_growth (m_gpr m (unat t) - m_gpr m (unat a)) = word_of_int x" "16 \<le> x" "x < 2 ^ 24" by blast+
  note E = processor.extended_eval [OF P x r(3-5)]
  have e: "fold exec ws m = processor.extended arch (unat t) (unat a) m"
    by (rule runs_emits [OF processor.runs_extend_frame [OF P r] code])
  have "d \<le> x" "x < d + 16" using m by (simp_all add: x_def)
  then show ?thesis
    unfolding e using E m(3) by (intro exI [of _ x]) (simp del: One_nat_def)
qed

definition sample_full_frame :: "32 word machine" where
  "sample_full_frame = \<lparr>m_gpr = (\<lambda>_. 0)(1 := 0x10000, 3 := 100, 4 := 60), m_fpr = (\<lambda>_. 0), m_lr = 0, m_ctr = 0,
     m_cr = 0, m_so = False, m_mem = (\<lambda>_. 0)\<rparr>"

lemma extended_frame_kept_witness:
  "\<exists>ws. emits (seqR (extend_frame_code PPC32 r3 r4) :: 32 word emitter) ws \<and>
     (\<exists>x. 40 \<le> x \<and> x < 56 \<and> x mod 16 = 0 \<and>
       m_gpr (fold (reference_cpu PPC32) ws sample_full_frame) 1 = 0x10000 - word_of_int x)"
proof -
  obtain ws where ws: "emits (seqR (extend_frame_code PPC32 (as_Register 3) (as_Register 4)) :: 32 word emitter) ws"
    using ppc32.runs_extend_frame [of 3 4] by (auto simp: runs_def)
  have p: "unat (3 :: c_int) < 32" "unat (4 :: c_int) < 32" "1 < unat (3 :: c_int)" "1 < unat (4 :: c_int)" "unat (3 :: c_int) \<noteq> unat (4 :: c_int)"
    "m_gpr sample_full_frame (unat (3 :: c_int)) - m_gpr sample_full_frame (unat (4 :: c_int)) = word_of_int 40"
    "(0 :: int) < 40" "(40 :: int) < 2 ^ 20" by (simp_all add: sample_full_frame_def)
  from extended_frame_kept [OF reference_cpu_isa ppc32.width ws p]
  have "\<exists>x. 40 \<le> x \<and> x < 40 + 16 \<and> x mod 16 = 0 \<and>
      m_gpr (fold (reference_cpu PPC32) ws sample_full_frame) 1 = m_gpr sample_full_frame 1 - word_of_int x"
    by (rule ex_forward) (elim conjE, intro conjI)
  moreover have "m_gpr sample_full_frame 1 = 0x10000" by (simp add: sample_full_frame_def)
  ultimately have "\<exists>x. 40 \<le> x \<and> x < 56 \<and> x mod 16 = 0 \<and>
      m_gpr (fold (reference_cpu PPC32) ws sample_full_frame) 1 = 0x10000 - word_of_int x" by simp
  then show ?thesis using ws unfolding reg_defs by (intro exI [of _ ws] conjI)
qed

end
