(* ===== verification/ResultConversion.thy ===== *)
theory ResultConversion
  imports Machine SampleVM
begin

text \<open>
  Results of methods on their way between native registers and the interpreter's stack
  (\<^verbatim>\<open>cppInterpreter_CPU.cpp\<close>): for which types there are converters, and that a result put on the
  stack of the caller by \<^verbatim>\<open>generate_tosca_to_stack_converter\<close> is what
  \<^verbatim>\<open>generate_stack_to_native_abi_converter\<close> takes from it.
\<close>

section \<open>Words, slots and types\<close>

declare Register_encoding.simps [simp del] FloatRegister_encoding.simps [simp del]

definition result_types :: "BasicType set" where
  "result_types = {T_VOID, T_BOOLEAN, T_CHAR, T_BYTE, T_SHORT, T_INT, T_LONG, T_FLOAT, T_DOUBLE, T_OBJECT}"

definition int_types :: "BasicType set" where
  "int_types = {T_BOOLEAN, T_CHAR, T_BYTE, T_SHORT, T_INT}"

text \<open>How many slots a result takes on the stack.\<close>

definition result_slots :: "BasicType \<Rightarrow> int" where
  "result_slots t = (if t = T_VOID then 0 else if t \<in> {T_LONG, T_DOUBLE} then 2 else 1)"

text \<open>That the registers a result of a type is in hold the same result.\<close>

definition same_result :: "arch \<Rightarrow> BasicType \<Rightarrow> 'w::len word machine \<Rightarrow> 'w word machine \<Rightarrow> bool" where
  "same_result arch t m' m \<longleftrightarrow>
     (if t = T_DOUBLE then m_fpr m' 1 = m_fpr m 1
      else if t = T_LONG then m_gpr m' 3 = m_gpr m 3 \<and> (arch = PPC32 \<longrightarrow> m_gpr m' 4 = m_gpr m 4)
      else if t = T_OBJECT then m_gpr m' 3 = m_gpr m 3
      else m_gpr m' 3 = scast (ucast (m_gpr m 3) :: 32 word))"

context processor
begin

lemma runs_whenR: "(p \<Longrightarrow> runs exec (seqR es) f) \<Longrightarrow> runs exec (whenR p es) (\<lambda>m. if p then f m else m)"
  by (cases p) (auto simp: runs_def emits_def intro: exI [of _ "[]"])

lemma runs_skip: "runs exec Inr (\<lambda>m. m)"
  by (auto simp: runs_def emits_def intro!: exI [of _ "[]"])

definition pushed :: "BasicType \<Rightarrow> 'w word machine \<Rightarrow> 'w word machine" where
  "pushed t m =
     (let p = m_gpr m 29; W = word_of_int (wordSize arch); mem = m_mem m;
          mem = (if t \<in> int_types then store_u4 False mem p (ucast (m_gpr m 3))
            else if t = T_OBJECT then store_intptr arch mem p (m_gpr m 3)
            else if t = T_DOUBLE then store_u8 False mem (p - W) (m_fpr m 1)
            else let mem = store_intptr arch mem (p - W) (m_gpr m 3)
              in if arch = PPC32 then store_intptr arch mem p (m_gpr m 4) else mem)
      in m\<lparr>m_gpr := (m_gpr m)(29 := p - word_of_int (wordSize arch * result_slots t)), m_mem := mem\<rparr>)"

lemma mem_disps:
  "disp_ok arch 0" "disp_ok arch (- wordSize arch)" "disp_ok arch (wordSize arch)" "disp_ok arch (wordSize arch * 2)"
  "- 32768 \<le> - wordSize arch" "- wordSize arch < 32768" "- 32768 \<le> wordSize arch" "wordSize arch < 32768"
  "- 32768 < wordSize arch * 1" "wordSize arch * 1 \<le> 32768" "- 32768 < wordSize arch * 2" "wordSize arch * 2 \<le> 32768"
  by (cases arch; simp add: disp_ok_def)+

lemma runs_verify_oop: "\<not> VerifyOops vm \<Longrightarrow> runs exec (masm_verify_oop vm r msg) (\<lambda>m. m)"
  by (auto simp: runs_def emits_def masm_verify_oop_def intro!: exI [of _ "[]"])

lemmas result_rules = runs_rules mem_disps runs_whenR runs_verify_oop

lemma runs_tosca_to_stack:
  assumes "t \<in> int_types \<union> {T_LONG, T_DOUBLE, T_OBJECT}" "\<not> VerifyOops vm"
  shows "runs exec (tosca_to_stack_code arch vm t) (pushed t)"
proof -
  note regs = Rlocals_def reg_defs
  have "runs exec (seqR [asm_stw r3 (mk_Address Rlocals 0), asm_subi Rlocals Rlocals (word_of_int (wordSize arch * 1))]) (pushed T_INT)"
    unfolding regs
    by (rule runs_cong, ((rule result_rules) | (simp; fail))+)
      (simp add: pushed_def Let_def set_gpr_def int_types_def result_slots_def)
  moreover have "pushed t = pushed T_INT" if "t \<in> int_types"
    using that by (auto simp: fun_eq_iff pushed_def Let_def int_types_def result_slots_def)
  ultimately have i: "runs exec (tosca_to_stack_code arch vm t) (pushed t)" if "t \<in> int_types"
    using that by (auto simp: tosca_to_stack_code_def Let_def int_types_def)
  have l: "runs exec (seqR [masm_store arch r3 (mk_Address Rlocals (- wordSize arch)), whenR (arch = PPC32) [masm_store arch r4 (mk_Address Rlocals 0)],
      asm_subi Rlocals Rlocals (word_of_int (wordSize arch * 2))]) (pushed T_LONG)"
    unfolding regs
    by (rule runs_cong, ((rule result_rules) | (simp; fail))+)
      (simp add: pushed_def Let_def set_gpr_def int_types_def result_slots_def)
  have d: "runs exec (seqR [asm_stfd f1 (mk_Address Rlocals (- wordSize arch)), asm_subi Rlocals Rlocals (word_of_int (wordSize arch * 2))]) (pushed T_DOUBLE)"
    unfolding regs
    by (rule runs_cong, ((rule result_rules) | (simp; fail))+)
      (simp add: pushed_def Let_def set_gpr_def int_types_def result_slots_def)
  have o: "runs exec (seqR [masm_verify_oop vm r3 ''broken oop'', masm_store arch r3 (mk_Address Rlocals 0),
      asm_subi Rlocals Rlocals (word_of_int (wordSize arch * 1))]) (pushed T_OBJECT)"
    unfolding regs
    by (rule runs_cong, ((rule result_rules assms) | (simp; fail))+)
      (simp add: pushed_def Let_def set_gpr_def int_types_def result_slots_def)
  from i l d o assms(1) show ?thesis by (auto simp: tosca_to_stack_code_def Let_def simp del: seqR.simps)
qed

definition popped :: "int \<Rightarrow> BasicType \<Rightarrow> 'w word machine \<Rightarrow> 'w word machine" where
  "popped ofs t m =
     (let p = load_intptr arch (m_mem m) (m_gpr m 28 + word_of_int ofs); W = word_of_int (wordSize arch);
          g = (m_gpr m)(5 := p)
      in if t \<in> int_types then m\<lparr>m_gpr := g(3 := scast (load_u4 False (m_mem m) (p + W)))\<rparr>
         else if t = T_OBJECT then m\<lparr>m_gpr := g(3 := load_intptr arch (m_mem m) (p + W))\<rparr>
         else if t = T_DOUBLE then m\<lparr>m_gpr := g, m_fpr := (m_fpr m)(1 := load_u8 False (m_mem m) (p + W))\<rparr>
         else m\<lparr>m_gpr := if arch = PPC32 then g(3 := load_intptr arch (m_mem m) (p + W), 4 := load_intptr arch (m_mem m) (p + 2 * W))
           else g(3 := load_intptr arch (m_mem m) (p + W))\<rparr>)"

lemma runs_stack_to_native:
  assumes "t \<in> int_types \<union> {T_LONG, T_DOUBLE, T_OBJECT}" "\<not> VerifyOops vm"
    and ofs: "disp_ok arch (state_offset vm S_stack)"
  shows "runs exec (stack_to_native_abi_code arch vm t) (popped (state_offset vm S_stack) t)"
proof -
  let ?popped = "popped (state_offset vm S_stack)" and ?load = "masm_load_A arch r5 (STATE vm S_stack)"
  note regs = STATE_def Rstate_def reg_defs
  have W: "LENGTH('w) = 32 \<and> arch = PPC32 \<or> 32 < LENGTH('w) \<and> arch = PPC64"
    using width by (cases arch) (simp_all add: width_ok_def)
  have ext: "(if arch = PPC64 then scast (ucast (ucast (x :: 32 word) :: 'w word) :: 32 word) else ucast x) = (scast x :: 'w word)" for x
  proof (rule bit_word_eqI)
    fix n assume "n < LENGTH('w)"
    consider "n < 31" | "n = 31" | "31 < n" by linarith
    then show "bit (if arch = PPC64 then scast (ucast (ucast x :: 'w word) :: 32 word) else ucast x :: 'w word) n = bit (scast x :: 'w word) n"
      using W \<open>n < LENGTH('w)\<close> by cases (auto simp: bit_simps min_def)
  qed
  have ext: "arch = PPC64 \<Longrightarrow> scast (ucast (ucast x :: 'w word) :: 32 word) = (scast x :: 'w word)"
    "arch \<noteq> PPC64 \<Longrightarrow> ucast x = (scast x :: 'w word)" for x :: "32 word"
    using ext [of x] by simp_all
  have "runs exec (seqR [?load, seqR [asm_lwz r3 (mk_Address r5 (wordSize arch)), whenR (arch = PPC64) [asm_extsw r3 r3]]]) (?popped T_INT)"
    unfolding regs
    by (rule runs_cong, ((rule result_rules runs_ext ofs) | (simp; fail))+)
      (simp add: popped_def Let_def set_gpr_def int_types_def ext)
  moreover have "?popped t = ?popped T_INT" if "t \<in> int_types"
    using that by (auto simp: fun_eq_iff popped_def Let_def int_types_def)
  ultimately have i: "runs exec (stack_to_native_abi_code arch vm t) (?popped t)" if "t \<in> int_types"
    using that by (auto simp: stack_to_native_abi_code_def masm_lwa_def Let_def int_types_def)
  have l: "runs exec (seqR [?load, masm_load_A arch r3 (mk_Address r5 (wordSize arch)),
      whenR (arch = PPC32) [masm_load_A arch r4 (mk_Address r5 (wordSize arch * 2))]]) (?popped T_LONG)"
    unfolding regs
    by (rule runs_cong, ((rule result_rules ofs) | (simp; fail))+)
      (simp add: popped_def Let_def set_gpr_def int_types_def mult.commute)
  have d: "runs exec (seqR [?load, asm_lfd f1 (mk_Address r5 (wordSize arch))]) (?popped T_DOUBLE)"
    unfolding regs
    by (rule runs_cong, ((rule result_rules ofs) | (simp; fail))+)
      (simp add: popped_def Let_def set_gpr_def int_types_def)
  have o: "runs exec (seqR [?load, masm_load_A arch r3 (mk_Address r5 (wordSize arch)), masm_verify_oop vm r3 ''broken oop'']) (?popped T_OBJECT)"
    unfolding regs
    by (rule runs_cong, ((rule result_rules assms ofs) | (simp; fail))+)
      (simp add: popped_def Let_def set_gpr_def int_types_def)
  from i l d o assms(1) show ?thesis by (auto simp: stack_to_native_abi_code_def Let_def simp del: seqR.simps)
qed

text \<open>What was pushed is what is popped, if the stack is kept.\<close>

lemma popped_pushed:
  assumes t: "t \<in> int_types \<union> {T_LONG, T_DOUBLE, T_OBJECT}"
    and sp: "load_intptr arch (m_mem b) (m_gpr b 28 + word_of_int ofs) = m_gpr (pushed t m) 29"
    and kept: "\<And>k. 0 \<le> k \<Longrightarrow> k < 2 * wordSize arch \<Longrightarrow>
      m_mem b (m_gpr (pushed t m) 29 + word_of_int (wordSize arch + k)) =
      m_mem (pushed t m) (m_gpr (pushed t m) 29 + word_of_int (wordSize arch + k))"
  shows "same_result arch t (popped ofs t b) m"
proof -
  define e where "e = pushed t m"
  define p where "p = m_gpr m 29"
  have W: "arch = PPC32 \<and> LENGTH('w) = 32 \<or> arch = PPC64 \<and> LENGTH('w) = 64"
    using width by (cases arch) (simp_all add: width_ok_def)
  define Q where "Q = m_gpr e 29"
  have Q: "Q = p - word_of_int (wordSize arch * result_slots t)" by (simp add: Q_def e_def p_def pushed_def Let_def)
  have at: "m_mem b (Q + word_of_int j + of_nat i) = m_mem e (Q + word_of_int j + of_nat i)"
    if "i < n" "wordSize arch \<le> j" "j + int n \<le> 3 * wordSize arch" for i j n
    using kept [of "j - wordSize arch + int i"] that by (simp add: e_def Q_def add.assoc)
  have L: "load_u4 False (m_mem b) (Q + word_of_int (wordSize arch)) = load_u4 False (m_mem e) (Q + word_of_int (wordSize arch))"
    "load_u8 False (m_mem b) (Q + word_of_int (wordSize arch)) = load_u8 False (m_mem e) (Q + word_of_int (wordSize arch))"
    "load_intptr arch (m_mem b) (Q + word_of_int (wordSize arch)) = load_intptr arch (m_mem e) (Q + word_of_int (wordSize arch))"
    "load_intptr arch (m_mem b) (Q + word_of_int (2 * wordSize arch)) = load_intptr arch (m_mem e) (Q + word_of_int (2 * wordSize arch))"
    by (rule big_u4.get_local big_u8.get_local words.get_local, (erule at; (use W in auto)))+
  have P: "load_intptr arch (m_mem b) (m_gpr b 28 + word_of_int ofs) = Q" using sp by (simp add: Q_def e_def)
  have off: "Q + word_of_int (wordSize arch) = p - word_of_int (wordSize arch * (result_slots t - 1))"
    "Q + word_of_int (2 * wordSize arch) = p - word_of_int (wordSize arch * (result_slots t - 2))"
    by (simp_all add: Q algebra_simps)
  have n: "(4 :: nat) \<le> 2 ^ LENGTH('w)" "(8 :: nat) \<le> 2 ^ LENGTH('w)" "nat (wordSize arch) \<le> 2 ^ LENGTH('w)" using W by auto
  note gp = big_u4.get_put [OF n(1)] big_u8.get_put [OF n(2)] words.get_put [OF n(3)]
  note defs = same_result_def popped_def Let_def P result_slots_def int_types_def
  consider "t \<in> int_types" | "t = T_OBJECT" | "t = T_DOUBLE" | "t = T_LONG" using t by auto
  then show ?thesis
  proof cases
    case 1
    then have "load_u4 False (m_mem b) (Q + word_of_int (wordSize arch)) = ucast (m_gpr m 3)"
      unfolding L unfolding off by (auto simp: e_def pushed_def Let_def result_slots_def int_types_def gp p_def)
    then show ?thesis using 1 by (auto simp: defs)
  next
    case 2
    then have "load_intptr arch (m_mem b) (Q + word_of_int (wordSize arch)) = m_gpr m 3"
      unfolding L unfolding off by (auto simp: e_def pushed_def Let_def result_slots_def int_types_def gp p_def)
    then show ?thesis using 2 by (auto simp: defs)
  next
    case 3
    then have "load_u8 False (m_mem b) (Q + word_of_int (wordSize arch)) = m_fpr m 1"
      unfolding L unfolding off by (auto simp: e_def pushed_def Let_def result_slots_def int_types_def gp p_def)
    then show ?thesis using 3 by (auto simp: defs)
  next
    case 4
    have a: "words.apart 0 (- wordSize arch)" if "arch = PPC32" unfolding words.apart_def using W that by auto
    have "load_intptr arch (m_mem e) (p - word_of_int (wordSize arch)) = m_gpr m 3"
    proof (cases "arch = PPC32")
      case True
      have "m_mem e = store_intptr arch (store_intptr arch (m_mem m) (p - word_of_int (wordSize arch)) (m_gpr m 3)) p (m_gpr m 4)"
        unfolding e_def pushed_def Let_def if_P [OF True] 4 p_def by (simp add: int_types_def)
      then show ?thesis using words.apart_get [OF a [OF True], of _ p] by (simp add: gp)
    next
      case False
      then have "m_mem e = store_intptr arch (m_mem m) (p - word_of_int (wordSize arch)) (m_gpr m 3)"
        unfolding e_def pushed_def Let_def 4 p_def by (simp add: int_types_def)
      then show ?thesis by (simp only: gp)
    qed
    then have "load_intptr arch (m_mem b) (Q + word_of_int (wordSize arch)) = m_gpr m 3"
      unfolding L unfolding off by (simp add: 4 result_slots_def)
    moreover have "load_intptr arch (m_mem b) (Q + word_of_int (2 * wordSize arch)) = m_gpr m 4" if "arch = PPC32"
    proof -
      have "m_mem e = store_intptr arch (store_intptr arch (m_mem m) (p - word_of_int (wordSize arch)) (m_gpr m 3)) p (m_gpr m 4)"
        unfolding e_def pushed_def Let_def if_P [OF that] 4 p_def by (simp add: int_types_def)
      moreover have "Q + word_of_int (2 * wordSize arch) = p" unfolding off by (simp add: 4 result_slots_def)
      ultimately show ?thesis unfolding L by (simp only: gp)
    qed
    ultimately show ?thesis using 4 by (auto simp: defs mult.commute)
  qed
qed

text \<open>Code that is emitted, whatever it does. Single precision is not part of the machine.\<close>

lemma runs_some: "runs exec e f \<Longrightarrow> \<exists>f. runs exec e f"
  by blast

lemma some_emits: "\<exists>f. runs exec e f \<Longrightarrow> \<exists>ws. emits e ws"
  by (auto simp: runs_def)

lemma some_Cons: "\<exists>f. runs exec e f \<Longrightarrow> \<exists>f. runs exec (seqR es) f \<Longrightarrow> \<exists>f. runs exec (seqR (e # es)) f"
  by (meson runs_Cons)

lemma some_FA:
  assumes "unat t < 32" "unat a < 32" "unat a \<noteq> 0" "fits 6 opc"
  shows "\<exists>f. runs exec (emit_D_FA opc (as_FloatRegister t) (mk_Address (as_Register a) d)) f"
proof -
  have "a \<noteq> 0" using assms(3) by auto
  then have "mk_Address (as_Register a) d = Inr \<lparr>Address_base = as_Register a, Address_disp = word_of_int d\<rparr>"
    by (simp add: mk_Address_def r0_def)
  then have "emits (emit_D_FA opc (as_FloatRegister t) (mk_Address (as_Register a) d)) [D_form opc t a (take_bit 16 (word_of_int d))]"
    using emit_D_emits_pos [OF assms(4) fits5_small [OF assms(1)] fits5_small [OF assms(2)], of "take_bit 16 (word_of_int d)"] assms(1,2)
    by (simp add: emits_def emit_D_FA_def emit_D_FRi_def displacement_int)
  then have "runs exec (emit_D_FA opc (as_FloatRegister t) (mk_Address (as_Register a) d))
      (\<lambda>m. exec (D_form opc t a (take_bit 16 (word_of_int d))) m)"
    by (auto simp: runs_def)
  then show ?thesis by blast
qed

lemma some_single:
  "\<exists>f. runs exec (asm_stfs f1 (mk_Address Rlocals d)) f" "\<exists>f. runs exec (asm_lfs f1 (mk_Address r5 d)) f"
  unfolding asm_stfs_def asm_lfs_def Rlocals_def reg_defs by (rule some_FA; simp add: fits_unat)+

lemma some_stack_to_stack:
  assumes "t \<in> result_types" "\<not> VerifyOops vm" "disp_ok arch (state_offset vm S_stack)"
  shows "\<exists>f. runs exec (stack_to_stack_code arch vm t) f"
proof -
  note regs = STATE_def Rstate_def Rlocals_def reg_defs
  let ?load = "masm_load_A arch r3 (STATE vm S_stack)" and ?pop = "\<lambda>n. asm_subi Rlocals Rlocals (word_of_int (wordSize arch * n))"
  have "\<exists>f. runs exec (seqR [?load, asm_lwz r0 (mk_Address r3 (wordSize arch)), asm_stw r0 (mk_Address Rlocals 0), ?pop 1]) f"
    "\<exists>f. runs exec (seqR [?load, masm_load_A arch r0 (mk_Address r3 (wordSize arch)), masm_store arch r0 (mk_Address Rlocals (- wordSize arch)),
      whenR (arch = PPC32) [masm_load_A arch r0 (mk_Address r3 (wordSize arch * 2)), masm_store arch r0 (mk_Address Rlocals 0)], ?pop 2]) f"
    "\<exists>f. runs exec (seqR [?load, masm_load_A arch r0 (mk_Address r3 (wordSize arch)), masm_verify_oop vm r0 ''broken oop'',
      masm_store arch r0 (mk_Address Rlocals 0), ?pop 1]) f"
    unfolding regs
    by (rule exI, ((rule result_rules assms(2,3)) | (simp; fail))+)+
  then show ?thesis using assms(1)
    by (auto simp: stack_to_stack_code_def Let_def result_types_def simp del: seqR.simps intro: runs_some [OF runs_Nil])
qed

lemma some_tosca_to_stack:
  assumes "t \<in> result_types" "\<not> VerifyOops vm"
  shows "\<exists>f. runs exec (tosca_to_stack_code arch vm t) f"
proof -
  have "\<exists>f. runs exec (seqR [asm_stfs f1 (mk_Address Rlocals 0), asm_subi Rlocals Rlocals (word_of_int (wordSize arch * 1))]) f"
    unfolding reg_defs Rlocals_def
    by (intro some_Cons some_single [unfolded reg_defs Rlocals_def] runs_some [OF runs_Nil])
      (rule exI, ((rule result_rules) | (simp; fail))+)
  moreover have "t \<in> int_types \<union> {T_LONG, T_DOUBLE, T_OBJECT} \<or> t = T_FLOAT \<or> t = T_VOID"
    using assms(1) by (auto simp: result_types_def int_types_def)
  ultimately show ?thesis
    using runs_tosca_to_stack [OF _ assms(2)]
    by (auto simp: tosca_to_stack_code_def Let_def simp del: seqR.simps intro: runs_some [OF runs_Nil])
qed

lemma some_stack_to_native:
  assumes "t \<in> result_types" "\<not> VerifyOops vm" "disp_ok arch (state_offset vm S_stack)"
  shows "\<exists>f. runs exec (stack_to_native_abi_code arch vm t) f"
proof -
  have "\<exists>f. runs exec (seqR [masm_load_A arch r5 (STATE vm S_stack), asm_lfs f1 (mk_Address r5 (wordSize arch))]) f"
    unfolding reg_defs STATE_def Rstate_def
    by (intro some_Cons some_single [unfolded reg_defs] runs_some [OF runs_Nil])
      (rule exI, ((rule result_rules assms(3)) | (simp; fail))+)
  moreover have "t \<in> int_types \<union> {T_LONG, T_DOUBLE, T_OBJECT} \<or> t = T_FLOAT \<or> t = T_VOID"
    using assms(1) by (auto simp: result_types_def int_types_def)
  ultimately show ?thesis
    using runs_stack_to_native [OF _ assms(2,3)]
    by (auto simp: stack_to_native_abi_code_def Let_def simp del: seqR.simps intro: runs_some [OF runs_Nil])
qed

end

section \<open>Properties\<close>

text \<open>C9. The types of results are the same for the three converters: a converter is generated for
  each of them, and for no other type, and different types have different indices in the tables.\<close>

theorem result_types_agree:
  fixes vm :: "('w::len word, 'x) cpp_externals_scheme"
  assumes "width_ok arch TYPE('w)" "\<not> VerifyOops vm" "disp_ok arch (state_offset vm S_stack)" "number_of_result_handlers vm = 10"
  shows "if t \<in> result_types
    then (\<exists>ws. emits (tosca_to_stack_code arch vm t) ws) \<and> (\<exists>ws. emits (stack_to_stack_code arch vm t) ws) \<and>
      (\<exists>ws. emits (stack_to_native_abi_code arch vm t) ws) \<and>
      (\<exists>i. BasicType_as_index vm t = Inr i \<and> (\<forall>u \<in> result_types. BasicType_as_index vm u = Inr i \<longrightarrow> u = t))
    else tosca_to_stack_code arch vm t s = Inl ShouldNotReachHere \<and> stack_to_stack_code arch vm t s = Inl ShouldNotReachHere \<and>
      stack_to_native_abi_code arch vm t s = Inl ShouldNotReachHere"
proof (cases "t \<in> result_types")
  case True
  have P: "processor arch (reference_cpu arch :: c_int \<Rightarrow> 'w word machine \<Rightarrow> 'w word machine)"
    using assms(1) by unfold_locales (rule reference_cpu_isa)
  have "\<exists>i. BasicType_as_index vm t = Inr i \<and> (\<forall>u \<in> result_types. BasicType_as_index vm u = Inr i \<longrightarrow> u = t)"
    using True assms(4) by (auto simp: result_types_def BasicType_as_index_def)
  then show ?thesis
    using True processor.some_emits [OF P processor.some_tosca_to_stack [OF P True assms(2)]]
      processor.some_emits [OF P processor.some_stack_to_stack [OF P True assms(2,3)]]
      processor.some_emits [OF P processor.some_stack_to_native [OF P True assms(2,3)]]
    by simp
next
  case False
  then show ?thesis
    by (cases t) (simp_all add: result_types_def tosca_to_stack_code_def stack_to_stack_code_def stack_to_native_abi_code_def Let_def)
qed

lemma result_types_agree_witness:
  "(\<exists>ws. emits (stack_to_stack_code PPC32 sample_vm T_LONG) ws) \<and>
    tosca_to_stack_code PPC32 sample_vm T_ARRAY (start_at 0) = Inl ShouldNotReachHere"
  using result_types_agree [of PPC32 sample_vm T_LONG] result_types_agree [of PPC32 sample_vm T_ARRAY "start_at 0"]
  by (simp add: width_ok_def sample_vm_def disp_ok_def result_types_def)



end
