(* ===== verification/Atomics.thy ===== *)
theory Atomics
  imports Prelude
begin

text \<open>
  The class \<^verbatim>\<open>Atomic\<close> (\<^verbatim>\<open>atomic_linux_CPU.inline.hpp\<close>), on a memory of cells of one type. The builtins of
  the compiler are single steps that no other access comes between; a program of several threads is
  any sequence of the operations. An operation gives its result and the memory it leaves; the
  versions for \<^verbatim>\<open>void*\<close> only convert pointers. Storing is written for this port only, and the version
  for a pointer that is not volatile is \<^verbatim>\<open>Unimplemented()\<close>.
\<close>

section \<open>The builtins\<close>

type_synonym ('p, 'v) cells = "'p \<Rightarrow> 'v word"

definition sync_add_and_fetch :: "'p \<Rightarrow> 'v::len word \<Rightarrow> ('p, 'v) cells \<Rightarrow> 'v word \<times> ('p, 'v) cells" where
  "sync_add_and_fetch dest x m = (let v = m dest + x in (v, m(dest := v)))"

definition sync_lock_test_and_set :: "'p \<Rightarrow> 'v::len word \<Rightarrow> ('p, 'v) cells \<Rightarrow> 'v word \<times> ('p, 'v) cells" where
  "sync_lock_test_and_set dest x m = (m dest, m(dest := x))"

definition sync_val_compare_and_swap ::
  "'p \<Rightarrow> 'v::len word \<Rightarrow> 'v word \<Rightarrow> ('p, 'v) cells \<Rightarrow> 'v word \<times> ('p, 'v) cells" where
  "sync_val_compare_and_swap dest old new m = (m dest, if m dest = old then m(dest := new) else m)"

section \<open>The operations\<close>

definition Atomic_store :: "'v::len word \<Rightarrow> 'p \<Rightarrow> ('p, 'v) cells \<Rightarrow> ('p, 'v) cells" where
  "Atomic_store store_value dest m = m(dest := store_value)"

definition Atomic_store_ptr :: "'v::len word \<Rightarrow> 'p \<Rightarrow> ('p, 'v) cells \<Rightarrow> ('p, 'v) cells result" where
  "Atomic_store_ptr store_value dest m = Inl Unimplemented"

definition Atomic_add :: "'v::len word \<Rightarrow> 'p \<Rightarrow> ('p, 'v) cells \<Rightarrow> 'v word \<times> ('p, 'v) cells" where
  "Atomic_add add_value dest = sync_add_and_fetch dest add_value"

definition Atomic_add_ptr :: "'v::len word \<Rightarrow> 'p \<Rightarrow> ('p, 'v) cells \<Rightarrow> 'v word \<times> ('p, 'v) cells" where
  "Atomic_add_ptr add_value dest = sync_add_and_fetch dest add_value"

definition Atomic_inc :: "'p \<Rightarrow> ('p, 'v::len) cells \<Rightarrow> ('p, 'v) cells" where
  "Atomic_inc dest m = snd (Atomic_add 1 dest m)"

definition Atomic_inc_ptr :: "'p \<Rightarrow> ('p, 'v::len) cells \<Rightarrow> ('p, 'v) cells" where
  "Atomic_inc_ptr dest m = snd (Atomic_add_ptr 1 dest m)"

definition Atomic_dec :: "'p \<Rightarrow> ('p, 'v::len) cells \<Rightarrow> ('p, 'v) cells" where
  "Atomic_dec dest m = snd (Atomic_add (- 1) dest m)"

definition Atomic_dec_ptr :: "'p \<Rightarrow> ('p, 'v::len) cells \<Rightarrow> ('p, 'v) cells" where
  "Atomic_dec_ptr dest m = snd (Atomic_add_ptr (- 1) dest m)"

definition Atomic_xchg :: "'v::len word \<Rightarrow> 'p \<Rightarrow> ('p, 'v) cells \<Rightarrow> 'v word \<times> ('p, 'v) cells" where
  "Atomic_xchg exchange_value dest = sync_lock_test_and_set dest exchange_value"

definition Atomic_xchg_ptr :: "'v::len word \<Rightarrow> 'p \<Rightarrow> ('p, 'v) cells \<Rightarrow> 'v word \<times> ('p, 'v) cells" where
  "Atomic_xchg_ptr exchange_value dest = sync_lock_test_and_set dest exchange_value"

definition Atomic_cmpxchg :: "'v::len word \<Rightarrow> 'p \<Rightarrow> 'v word \<Rightarrow> ('p, 'v) cells \<Rightarrow> 'v word \<times> ('p, 'v) cells" where
  "Atomic_cmpxchg exchange_value dest compare_value = sync_val_compare_and_swap dest compare_value exchange_value"

definition Atomic_cmpxchg_ptr :: "'v::len word \<Rightarrow> 'p \<Rightarrow> 'v word \<Rightarrow> ('p, 'v) cells \<Rightarrow> 'v word \<times> ('p, 'v) cells" where
  "Atomic_cmpxchg_ptr exchange_value dest compare_value = sync_val_compare_and_swap dest compare_value exchange_value"

lemmas atomic_defs = Atomic_add_def Atomic_inc_def Atomic_dec_def Atomic_xchg_def Atomic_cmpxchg_def
  sync_add_and_fetch_def sync_lock_test_and_set_def sync_val_compare_and_swap_def

section \<open>Programs of several threads\<close>

text \<open>A history is what the threads did, in order, each access with the result it gave.\<close>

datatype ('p, 'c) access = Add 'p 'c | Inc 'p | Dec 'p | Xchg 'p 'c | Cmpxchg 'p 'c 'c

fun perform :: "('p, 'v::len word) access \<Rightarrow> ('p, 'v) cells \<Rightarrow> 'v word \<times> ('p, 'v) cells" where
  "perform (Add p x) m = Atomic_add x p m"
| "perform (Inc p) m = (0, Atomic_inc p m)"
| "perform (Dec p) m = (0, Atomic_dec p m)"
| "perform (Xchg p x) m = Atomic_xchg x p m"
| "perform (Cmpxchg p x old) m = Atomic_cmpxchg x p old m"

fun history :: "('p, 'v::len word) access list \<Rightarrow> ('p, 'v) cells \<Rightarrow>
    (('p, 'v word) access \<times> 'v word) list \<times> ('p, 'v) cells" where
  "history [] m = ([], m)"
| "history (a # as) m = (let (r, m) = perform a m; (h, m) = history as m in ((a, r) # h, m))"

text \<open>What an access believes it changed the cell at \<open>p\<close> by, from its arguments and its result.\<close>

fun contribution :: "'p \<Rightarrow> ('p, 'v::len word) access \<times> 'v word \<Rightarrow> 'v word" where
  "contribution p (Add q x, r) = (if q = p then x else 0)"
| "contribution p (Inc q, r) = (if q = p then 1 else 0)"
| "contribution p (Dec q, r) = (if q = p then - 1 else 0)"
| "contribution p (Xchg q x, r) = (if q = p then x - r else 0)"
| "contribution p (Cmpxchg q x old, r) = (if q = p \<and> r = old then x - old else 0)"

lemma contribution_step: "snd (perform a m) p = m p + contribution p (a, fst (perform a m))"
  by (cases a) (simp_all add: atomic_defs Let_def)

lemma history_Cons: "history (a # as) m =
    ((a, fst (perform a m)) # fst (history as (snd (perform a m))), snd (history as (snd (perform a m))))"
  by (simp add: split_beta)

declare history.simps(2) [simp del]

section \<open>Properties\<close>


text \<open>Two threads count a cell up by one with \<^verbatim>\<open>cmpxchg\<close>; the second tries again.\<close>

lemma two_counters:
  "history [Cmpxchg 0 1 0, Cmpxchg 0 1 0, Cmpxchg 0 2 1] (\<lambda>_ :: nat. 0 :: 32 word) =
     ([(Cmpxchg 0 1 0, 0), (Cmpxchg 0 1 0, 1), (Cmpxchg 0 2 1, 1)], (\<lambda>_. 0)(0 := 2))"
  by (simp add: history_Cons atomic_defs Let_def)

end
