(* ===== verification/MemoryOrder.thy ===== *)
theory MemoryOrder
  imports Prelude
begin

text \<open>
  The class \<^verbatim>\<open>OrderAccess\<close> (\<^verbatim>\<open>orderAccess_linux_CPU.inline.hpp\<close>) on a processor that is weakly ordered, as
  PowerPC is: stores to different addresses reach memory in any order, unless a barrier is
  between them. An operation is the list of its accesses.
\<close>

section \<open>The operations\<close>

datatype ('p, 'v) access = Load 'p | Store 'p 'v | Barrier

definition OrderAccess_acquire :: "('p, 'v) access list" where "OrderAccess_acquire = [Barrier]"

definition OrderAccess_release :: "('p, 'v) access list" where "OrderAccess_release = [Barrier]"

definition OrderAccess_fence :: "('p, 'v) access list" where "OrderAccess_fence = [Barrier]"

definition OrderAccess_loadload :: "('p, 'v) access list" where "OrderAccess_loadload = OrderAccess_acquire"

definition OrderAccess_storestore :: "('p, 'v) access list" where "OrderAccess_storestore = OrderAccess_release"

definition OrderAccess_loadstore :: "('p, 'v) access list" where "OrderAccess_loadstore = OrderAccess_acquire"

definition OrderAccess_storeload :: "('p, 'v) access list" where "OrderAccess_storeload = OrderAccess_fence"

text \<open>One definition for the versions of an operation for the different types.\<close>

definition load_acquire :: "'p \<Rightarrow> ('p, 'v) access list" where "load_acquire p = [Load p]"

definition load_ptr_acquire :: "'p \<Rightarrow> ('p, 'v) access list" where "load_ptr_acquire p = [Load p]"

definition release_store :: "'p \<Rightarrow> 'v \<Rightarrow> ('p, 'v) access list" where "release_store p v = [Store p v]"

definition release_store_ptr :: "'p \<Rightarrow> 'v \<Rightarrow> ('p, 'v) access list" where "release_store_ptr p v = [Store p v]"

definition store_fence :: "'p \<Rightarrow> 'v \<Rightarrow> ('p, 'v) access list" where "store_fence p v = Store p v # OrderAccess_fence"

definition store_ptr_fence :: "'p \<Rightarrow> 'v \<Rightarrow> ('p, 'v) access list" where "store_ptr_fence p v = Store p v # OrderAccess_fence"

definition release_store_fence :: "'p \<Rightarrow> 'v \<Rightarrow> ('p, 'v) access list" where
  "release_store_fence p v = Store p v # OrderAccess_fence"

definition release_store_ptr_fence :: "'p \<Rightarrow> 'v \<Rightarrow> ('p, 'v) access list" where
  "release_store_ptr_fence p v = Store p v # OrderAccess_fence"

lemmas order_access_defs = OrderAccess_acquire_def OrderAccess_release_def OrderAccess_fence_def OrderAccess_loadload_def
  OrderAccess_storestore_def OrderAccess_loadstore_def OrderAccess_storeload_def load_acquire_def load_ptr_acquire_def
  release_store_def release_store_ptr_def store_fence_def store_ptr_fence_def release_store_fence_def release_store_ptr_fence_def

section \<open>A weakly ordered processor\<close>

text \<open>
  The accesses still to be made, the stores that have not reached memory, and memory. A store may
  reach memory before older ones to other addresses.
\<close>

record ('p, 'v) writer =
  todo :: "('p, 'v) access list"
  pending :: "('p \<times> 'v) list"
  memory :: "'p \<Rightarrow> 'v"

inductive order_step :: "('p, 'v) writer \<Rightarrow> ('p, 'v) writer \<Rightarrow> bool" where
  issue: "todo w = Store p v # as \<Longrightarrow> order_step w (w\<lparr>todo := as, pending := pending w @ [(p, v)]\<rparr>)"
| load: "todo w = Load p # as \<Longrightarrow> order_step w (w\<lparr>todo := as\<rparr>)"
| barrier: "todo w = Barrier # as \<Longrightarrow> pending w = [] \<Longrightarrow> order_step w (w\<lparr>todo := as\<rparr>)"
| drain: "pending w = older @ (p, v) # newer \<Longrightarrow> p \<notin> fst ` set older \<Longrightarrow>
    order_step w (w\<lparr>pending := older @ newer, memory := (memory w)(p := v)\<rparr>)"

definition start :: "('p, 'v) access list \<Rightarrow> ('p \<Rightarrow> 'v) \<Rightarrow> ('p, 'v) writer" where
  "start as m = \<lparr>todo = as, pending = [], memory = m\<rparr>"

text \<open>Memories that another processor may see while the accesses are made.\<close>

inductive visible :: "('p, 'v) access list \<Rightarrow> ('p \<Rightarrow> 'v) \<Rightarrow> ('p, 'v) writer \<Rightarrow> bool" for as m where
  visible_start: "visible as m (start as m)"
| visible_step: "visible as m w \<Longrightarrow> order_step w w' \<Longrightarrow> visible as m w'"

inductive_cases order_step_E: "order_step w w'"

section \<open>What reaches memory\<close>

text \<open>The memory once every store has reached it.\<close>

fun apply_stores :: "('p \<times> 'v) list \<Rightarrow> ('p \<Rightarrow> 'v) \<Rightarrow> 'p \<Rightarrow> 'v" where
  "apply_stores [] m = m"
| "apply_stores ((p, v) # ps) m = apply_stores ps (m(p := v))"

fun stores :: "('p, 'v) access list \<Rightarrow> ('p \<times> 'v) list" where
  "stores [] = []"
| "stores (Store p v # as) = (p, v) # stores as"
| "stores (Load p # as) = stores as"
| "stores (Barrier # as) = stores as"

lemma stores_append [simp]: "stores (as @ bs) = stores as @ stores bs"
  by (induction as rule: stores.induct) auto

lemma apply_stores_append: "apply_stores (xs @ ys) m = apply_stores ys (apply_stores xs m)"
  by (induction xs arbitrary: m) auto

lemma apply_stores_other: "p \<notin> fst ` set ps \<Longrightarrow> apply_stores ps m p = m p"
  by (induction ps arbitrary: m) auto

lemma apply_stores_early:
  "p \<notin> fst ` set older \<Longrightarrow> apply_stores (older @ newer) (m(p := v)) = apply_stores (older @ (p, v) # newer) m"
proof (induction older arbitrary: m)
  case (Cons a older)
  obtain q u where a: "a = (q, u)" by fastforce
  have "p \<noteq> q" "p \<notin> fst ` set older" using Cons.prems by (simp_all add: a)
  then have "(m(p := v))(q := u) = (m(q := u))(p := v)" by (intro fun_upd_twist) simp
  then have "apply_stores (older @ newer) ((m(p := v))(q := u)) = apply_stores (older @ (p, v) # newer) (m(q := u))"
    using Cons.IH [OF \<open>p \<notin> fst ` set older\<close>, of "m(q := u)"] by (simp only:)
  then show ?case by (simp only: a append_Cons apply_stores.simps)
qed (simp only: append_Nil apply_stores.simps)

text \<open>No store is lost, in whatever order they arrive.\<close>

lemma visible_final: "visible as m w \<Longrightarrow> apply_stores (pending w @ stores (todo w)) (memory w) = apply_stores (stores as) m"
proof (induction rule: visible.induct)
  case visible_start
  show ?case by (simp add: start_def)
next
  case (visible_step w w')
  from visible_step(2) show ?case
  proof (cases rule: order_step.cases)
    case (drain older p v newer)
    have "apply_stores (older @ newer @ stores (todo w)) ((memory w)(p := v)) = apply_stores (stores as) m"
      using visible_step.IH apply_stores_early [OF drain(3), of "newer @ stores (todo w)" "memory w" v]
      unfolding drain(2) append_assoc append_Cons by (rule trans [rotated])
    moreover have "pending w' = older @ newer" "todo w' = todo w" "memory w' = (memory w)(p := v)" by (simp_all add: drain(1))
    ultimately show ?thesis by (simp only: append_assoc)
  qed (use visible_step.IH in simp_all)
qed

text \<open>Cells that are not stored to keep their value.\<close>

lemma visible_stores: "visible as m w \<Longrightarrow> set (pending w) \<union> set (stores (todo w)) \<subseteq> set (stores as)"
proof (induction rule: visible.induct)
  case (visible_step w w')
  from visible_step(2) visible_step.IH show ?case by (cases rule: order_step.cases) auto
qed (simp add: start_def)

lemma visible_other:
  assumes "visible as m w" "p \<notin> fst ` set (stores as)"
  shows "memory w p = m p"
proof -
  have "p \<notin> fst ` set (pending w @ stores (todo w))" using visible_stores [OF assms(1)] assms(2) by auto
  then show ?thesis using visible_final [OF assms(1)] apply_stores_other assms(2) by metis
qed

text \<open>A barrier splits what another processor can see in two.\<close>

lemma visible_barrier:
  "visible (as @ Barrier # bs) m w \<Longrightarrow>
    (\<exists>w0. visible as m w0 \<and> w = w0\<lparr>todo := todo w0 @ Barrier # bs\<rparr>) \<or> visible bs (apply_stores (stores as) m) w"
proof (induction rule: visible.induct)
  case visible_start
  show ?case by (intro disjI1 exI [of _ "start as m"]) (simp add: visible.visible_start, simp add: start_def)
next
  case (visible_step w w')
  from visible_step.IH show ?case
  proof (elim disjE exE conjE)
    assume "visible bs (apply_stores (stores as) m) w"
    then show ?thesis using visible_step(2) by (blast intro: visible.visible_step)
  next
    fix w0 assume w0: "visible as m w0" and w: "w = w0\<lparr>todo := todo w0 @ Barrier # bs\<rparr>"
    have go: "order_step w0 w1 \<Longrightarrow> w' = w1\<lparr>todo := todo w1 @ Barrier # bs\<rparr> \<Longrightarrow> ?thesis" for w1
      using visible.visible_step [OF w0] by blast
    from visible_step(2) show ?thesis
    proof (cases rule: order_step.cases)
      case (issue p v as')
      then obtain as0 where "todo w0 = Store p v # as0" "as' = as0 @ Barrier # bs" by (cases "todo w0") (auto simp: w)
      then show ?thesis using issue by (intro go [OF order_step.issue]) (auto simp: w)
    next
      case (load p as')
      then obtain as0 where "todo w0 = Load p # as0" "as' = as0 @ Barrier # bs" by (cases "todo w0") (auto simp: w)
      then show ?thesis using load by (intro go [OF order_step.load]) (auto simp: w)
    next
      case (drain older p v newer)
      then show ?thesis by (intro go [OF order_step.drain]) (auto simp: w)
    next
      case (barrier as')
      show ?thesis
      proof (cases "todo w0")
        case Nil
        then have "memory w0 = apply_stores (stores as) m" using visible_final [OF w0] barrier by (simp add: w)
        then have "w' = start bs (apply_stores (stores as) m)" using barrier Nil by (simp add: w start_def)
        then show ?thesis using visible.visible_start by blast
      next
        case (Cons a as0)
        then show ?thesis using barrier by (intro go [OF order_step.barrier]) (auto simp: w)
      qed
    qed
  qed
qed

section \<open>Properties\<close>

text \<open>C10. With \<^verbatim>\<open>release()\<close> before it a store is a safe publication: a processor that sees the flag
  changed sees everything that was stored before, complete.\<close>

theorem release_publishes:
  assumes "visible (as @ OrderAccess_release @ release_store flag v) m w"
    and "flag \<notin> fst ` set (stores as)" "memory w flag \<noteq> m flag" "p \<noteq> flag"
  shows "memory w p = apply_stores (stores as) m p"
proof -
  have "visible (as @ Barrier # release_store flag v) m w" using assms(1) by (simp add: OrderAccess_release_def)
  then consider w0 where "visible as m w0" "w = w0\<lparr>todo := todo w0 @ Barrier # release_store flag v\<rparr>"
    | "visible (release_store flag v) (apply_stores (stores as) m) w" using visible_barrier by blast
  then show ?thesis
  proof cases
    case 1
    then show ?thesis using visible_other [OF 1(1) assms(2)] assms(3) by simp
  next
    case 2
    moreover have "p \<notin> fst ` set (stores (release_store flag v))" using assms(4) by (simp add: release_store_def)
    ultimately show ?thesis by (rule visible_other)
  qed
qed

lemma release_publishes_witness:
  "\<exists>w. visible ([Store 0 7] @ OrderAccess_release @ release_store 1 1) (\<lambda>_ :: nat. 0 :: nat) w \<and> memory w 1 = 1 \<and> memory w 0 = 7"
proof -
  let ?as = "[Store 0 7] @ OrderAccess_release @ release_store 1 1" and ?m = "\<lambda>_ :: nat. 0 :: nat"
  define w1 where "w1 = \<lparr>todo = [Barrier, Store 1 1], pending = [(0, 7)], memory = ?m\<rparr>"
  define w2 where "w2 = \<lparr>todo = [Barrier, Store 1 1], pending = [], memory = ?m(0 := 7)\<rparr>"
  define w3 where "w3 = \<lparr>todo = [Store 1 1], pending = [], memory = ?m(0 := 7)\<rparr>"
  define w4 where "w4 = \<lparr>todo = [], pending = [(1, 1)], memory = ?m(0 := 7)\<rparr>"
  define w5 where "w5 = \<lparr>todo = [], pending = [], memory = ?m(0 := 7, 1 := 1)\<rparr>"
  have "order_step (start ?as ?m) w1"
    using order_step.issue [of "start ?as ?m" 0 7] by (simp add: start_def w1_def order_access_defs)
  moreover have "order_step w1 w2" using order_step.drain [of w1 "[]" 0 7 "[]"] by (simp add: w1_def w2_def)
  moreover have "order_step w2 w3" using order_step.barrier [of w2] by (simp add: w2_def w3_def)
  moreover have "order_step w3 w4" using order_step.issue [of w3 1 1] by (simp add: w3_def w4_def)
  moreover have "order_step w4 w5" using order_step.drain [of w4 "[]" 1 1 "[]"] by (simp add: w4_def w5_def)
  ultimately have v: "visible ?as ?m w5" by (meson visible.visible_start visible.visible_step)
  then have "memory w5 0 = apply_stores (stores [Store 0 7]) ?m 0"
    by (rule release_publishes) (simp_all add: w5_def)
  then show ?thesis using v by (intro exI [of _ w5]) (simp add: w5_def)
qed

text \<open>C28. \<^verbatim>\<open>release_store\<close> itself is a plain store: the flag may be seen before the data, although the
  operation is there to prevent that.\<close>

theorem release_store_does_not_release:
  assumes "d \<noteq> flag"
  shows "\<exists>w. visible (Store d x # release_store flag v) m w \<and> memory w flag = v \<and> memory w d = m d"
proof -
  let ?a = "\<lparr>todo = release_store flag v, pending = [(d, x)], memory = m\<rparr>"
  let ?b = "\<lparr>todo = [], pending = [(d, x), (flag, v)], memory = m\<rparr>"
  let ?c = "\<lparr>todo = [], pending = [(d, x)], memory = m(flag := v)\<rparr>"
  have "order_step (start (Store d x # release_store flag v) m) ?a"
    using order_step.issue [of "start (Store d x # release_store flag v) m" d x] by (simp add: start_def)
  moreover have "order_step ?a ?b" using order_step.issue [of ?a flag v "[]"] by (simp add: release_store_def)
  moreover have "order_step ?b ?c" using order_step.drain [of ?b "[(d, x)]" flag v "[]"] assms by simp
  ultimately have "visible (Store d x # release_store flag v) m ?c"
    by (meson visible.visible_start visible.visible_step)
  then show ?thesis using assms by (intro exI [of _ ?c]) simp
qed

lemma release_store_does_not_release_witness:
  "\<exists>w. visible (Store 0 7 # release_store 1 1) (\<lambda>_ :: nat. 0 :: nat) w \<and> memory w 1 = 1 \<and> memory w 0 = 0"
  by (rule release_store_does_not_release) simp

end
