(* ===== verification/Placeholders.thy ===== *)
theory Placeholders
  imports RuntimeFrames
begin

text \<open>
  The routines of the walker of frames (\<^verbatim>\<open>frame_CPU.cpp\<close>, \<^verbatim>\<open>frame_CPU.inline.hpp\<close>), of the operating system
  layer (\<^verbatim>\<open>os_linux_CPU.cpp\<close>, \<^verbatim>\<open>threadLS_linux_CPU.cpp\<close>), of the interpreter (\<^verbatim>\<open>cppInterpreter_CPU.cpp\<close>,
  \<^verbatim>\<open>interpreter_CPU.cpp\<close>) and of the shared runtime (\<^verbatim>\<open>sharedRuntime_CPU.cpp\<close>) that this port does
  not have, or that have nothing to do on it. What the caller passes is of no importance: the types
  of arguments and of results from shared code are variables.
\<close>

section \<open>Frames\<close>

definition check_location_valid :: "RegisterMap \<Rightarrow> RegisterMap result" where
  "check_location_valid mp = Inl Unimplemented"

definition frame_patch_pc :: "'t \<Rightarrow> 'p \<Rightarrow> ('p, 'b) frame \<Rightarrow> ('p, 'b) frame result" where
  "frame_patch_pc thread a f = Inl Unimplemented"

definition safe_for_sender :: "'t \<Rightarrow> ('p, 'b) frame \<Rightarrow> bool result" where
  "safe_for_sender thread f = Inl Unimplemented"

definition pd_gc_epilog :: "('p, 'b) frame \<Rightarrow> ('p, 'b) frame result" where
  "pd_gc_epilog f = Inr f"

definition is_interpreted_frame_valid :: "('p, 'b) frame \<Rightarrow> bool result" where
  "is_interpreted_frame_valid f = Inl Unimplemented"

definition interpreter_frame_result :: "'o \<Rightarrow> 'v \<Rightarrow> ('p, 'b) frame \<Rightarrow> BasicType result" where
  "interpreter_frame_result oop_result value_result f = Inl Unimplemented"

definition frame_frame_size :: "('p, 'b) frame \<Rightarrow> int result" where
  "frame_frame_size f = Inl Unimplemented"

definition set_saved_oop_result :: "RegisterMap \<Rightarrow> 'o \<Rightarrow> ('p, 'b) frame \<Rightarrow> ('p, 'b) frame result" where
  "set_saved_oop_result mp obj f = Inl Unimplemented"

definition saved_oop_result :: "RegisterMap \<Rightarrow> ('p, 'b) frame \<Rightarrow> 'o result" where
  "saved_oop_result mp f = Inl Unimplemented"

definition is_older :: "'p \<Rightarrow> ('p, 'b) frame \<Rightarrow> bool result" where
  "is_older i f = Inl Unimplemented"

definition entry_frame_argument_at :: "int \<Rightarrow> ('p, 'b) frame \<Rightarrow> 'p result" where
  "entry_frame_argument_at ofs f = Inl Unimplemented"

definition unextended_sp :: "('p, 'b) frame \<Rightarrow> 'p result" where
  "unextended_sp f = Inl Unimplemented"

section \<open>The operating system layer\<close>

definition os_initialize_thread :: "'t \<Rightarrow> 't" where
  "os_initialize_thread thread = thread"

definition ucontext_get_pc :: "'u \<Rightarrow> 'p result" where
  "ucontext_get_pc uc = Inl Unimplemented"

definition fetch_frame_from_context_regs :: "'u \<Rightarrow> ('p \<times> 'p \<times> 'p) result" where
  "fetch_frame_from_context_regs uc = Inl Unimplemented"

definition fetch_frame_from_context :: "'u \<Rightarrow> ('p, 'b) frame result" where
  "fetch_frame_from_context uc = Inl Unimplemented"

definition allocatable_physical_memory :: "64 word \<Rightarrow> 64 word result" where
  "allocatable_physical_memory bytes = Inl Unimplemented"

definition init_thread_fpu_state :: "'t \<Rightarrow> 't" where
  "init_thread_fpu_state thread = thread"

definition get_fpu_control_word :: "c_int result" where
  "get_fpu_control_word = Inl Unimplemented"

definition set_fpu_control_word :: "c_int \<Rightarrow> 't \<Rightarrow> 't result" where
  "set_fpu_control_word fpu thread = Inl Unimplemented"

definition min_stack_allowed :: int where
  "min_stack_allowed = 64 * 1024"

definition supports_variable_stack_size :: bool where
  "supports_variable_stack_size = True"

definition os_print_context :: "'st \<Rightarrow> 'u \<Rightarrow> 'st result" where
  "os_print_context st context = Inl Unimplemented"

section \<open>Threads\<close>

text \<open>Thread-local storage is a map from indices; the index of the current thread is \<open>thread_index\<close>.\<close>

definition TLS_generate_code_for_get_thread :: "'t \<Rightarrow> 't" where
  "TLS_generate_code_for_get_thread s = s"

definition TLS_pd_init :: "'t \<Rightarrow> 't" where
  "TLS_pd_init s = s"

definition pd_set_thread :: "int \<Rightarrow> 'p \<Rightarrow> (int \<Rightarrow> 'p) \<Rightarrow> int \<Rightarrow> 'p" where
  "pd_set_thread index thread s = s(index := thread)"

definition TLS_thread :: "int \<Rightarrow> (int \<Rightarrow> 'p) \<Rightarrow> 'p" where
  "TLS_thread index s = s index"

definition set_base_of_stack_pointer :: "'p \<Rightarrow> 't \<Rightarrow> 't result" where
  "set_base_of_stack_pointer base_sp thread = Inr thread"

definition record_base_of_stack_pointer :: "'t \<Rightarrow> 't result" where
  "record_base_of_stack_pointer thread = Inr thread"

definition pd_get_top_frame_for_signal_handler :: "'u \<Rightarrow> bool \<Rightarrow> ('p, 'b) frame option result" where
  "pd_get_top_frame_for_signal_handler ucontext isInJava = Inl Unimplemented"

definition register_stack_overflow :: bool where
  "register_stack_overflow = False"

definition enable_register_stack_guard :: "'t \<Rightarrow> 't" where
  "enable_register_stack_guard s = s"

definition disable_register_stack_guard :: "'t \<Rightarrow> 't" where
  "disable_register_stack_guard s = s"

text \<open>Prefetching is left out on this port.\<close>

definition Prefetch_read :: "'p \<Rightarrow> int \<Rightarrow> 'm \<Rightarrow> 'm result" where
  "Prefetch_read loc interval m = Inr m"

definition Prefetch_write :: "'p \<Rightarrow> int \<Rightarrow> 'm \<Rightarrow> 'm result" where
  "Prefetch_write loc interval m = Inr m"

section \<open>The interpreter\<close>

definition layout_activation ::
  "'m \<Rightarrow> int \<Rightarrow> int \<Rightarrow> int \<Rightarrow> int \<Rightarrow> int \<Rightarrow> ('p, 'b) frame \<Rightarrow> ('p, 'b) frame option \<Rightarrow> bool \<Rightarrow> int result" where
  "layout_activation method tempcount popframe_extra_args moncount callee_param_count callee_locals caller interpreter_frame is_top_frame =
     Inl Unimplemented"

definition return_entry :: "'s \<Rightarrow> int \<Rightarrow> 'p result" where
  "return_entry tos len = Inl Unimplemented"

definition deopt_entry :: "'s \<Rightarrow> int \<Rightarrow> 'p result" where
  "deopt_entry tos len = Inl Unimplemented"

definition size_activation :: "'m \<Rightarrow> int \<Rightarrow> int \<Rightarrow> int \<Rightarrow> int \<Rightarrow> int \<Rightarrow> bool \<Rightarrow> int result" where
  "size_activation method tempcount popframe_extra_args moncount callee_param_count callee_locals is_top_frame = Inl Unimplemented"

definition unwind_callee_save_values :: "('p, 'b) frame \<Rightarrow> 'v \<Rightarrow> 'v result" where
  "unwind_callee_save_values f vframe_array = Inl Unimplemented"

section \<open>The shared runtime and JNI\<close>

definition generate_native_wrapper ::
  "'m \<Rightarrow> int \<Rightarrow> int \<Rightarrow> BasicType list \<Rightarrow> VMRegPair list \<Rightarrow> BasicType \<Rightarrow> 'a asm \<Rightarrow> ('n \<times> 'a asm) result" where
  "generate_native_wrapper method total_in_args comp_args_on_stack in_sig_bt in_regs ret_type s = Inl Unimplemented"

definition last_frame_adjust :: "int \<Rightarrow> int \<Rightarrow> int result" where
  "last_frame_adjust callee_parameters callee_locals = Inl Unimplemented"

definition out_preserve_stack_slots :: "int result" where
  "out_preserve_stack_slots = Inl Unimplemented"

definition c_calling_convention :: "BasicType list \<Rightarrow> int \<Rightarrow> (int \<times> VMRegPair list) result" where
  "c_calling_convention sig_bt total_args_passed = Inl Unimplemented"

text \<open>There is no fast way to get the field of an object from C, whatever its type.\<close>

definition generate_fast_get_field :: "BasicType \<Rightarrow> 'w::len word" where
  "generate_fast_get_field type = - 1"

end
