(* ===== verification/Spec2Isabelle.thy ===== *)
theory Spec2Isabelle
  imports DisassemblyShifts VMCallFacts BytecodeArith BytesAccess CopyRoutines CallingConvention SignatureFacts
    FrameManager RuntimeFrames JavaArguments SharedStubs Locking Labels CallStubFacts FrameExtension
    ResultConversion Atomics MemoryOrder Placeholders
begin

text \<open>
  The interpreter port of HotSpot in IcedTea: the C++ templates in
  \<^verbatim>\<open>src/contrib/templater/hotspot/src/cpu/CPU/vm\<close> (below \<^verbatim>\<open>vm/\<close>) and
  \<^verbatim>\<open>src/contrib/templater/hotspot/src/os_cpu/linux_CPU/vm\<close> (below \<^verbatim>\<open>os_cpu/\<close>), which make the C++
  interpreter of HotSpot run on 32-bit and 64-bit PowerPC.

  \<^bold>\<open>The program.\<close> The port is a code generator. When the virtual machine starts, \<^verbatim>\<open>Assembler\<close> and
  \<^verbatim>\<open>MacroAssembler\<close> emit words of machine code into a code buffer; \<^verbatim>\<open>StackFrame\<close> lays out the
  frames of the routines it emits; \<^verbatim>\<open>StubGenerator\<close> emits the stub through which C++ calls Java;
  \<^verbatim>\<open>InterpreterGenerator\<close> emits the entries of methods and the converters of results;
  \<^verbatim>\<open>InterpreterRuntime\<close> emits, or performs, the passing of arguments to native methods;
  \<^verbatim>\<open>SharedRuntime\<close> places the arguments of Java calls. Around the generator stand routines that run
  as C++: the walker of frames, the arithmetic of bytecodes, the accesses to memory in Java byte
  order, the copying of arrays, and the disassembler, which prints what was emitted.

  \<^bold>\<open>How it is modelled.\<close> A routine that emits code is an emitter, a function from the state of the
  assembler (the words emitted so far, where they start, the labels) to an error or a new state.
  The build modelled is the debug build: an assertion that fails is an error \<open>AssertFailed\<close> with its
  text, \<^verbatim>\<open>Unimplemented()\<close> and \<^verbatim>\<open>ShouldNotReachHere()\<close> are errors as well, and every routine is a
  function to a sum. \<^verbatim>\<open>#ifdef PPC32\<close> and \<^verbatim>\<open>#ifdef PPC64\<close> are branches on a value of type \<open>arch\<close>.
  Operands of type \<^verbatim>\<open>int\<close> are 32-bit words, a pointer or \<^verbatim>\<open>intptr_t\<close> is a word whose width is a
  type variable, counters that cannot reach their bound are integers. Memory is a function from
  addresses to bytes; address 0 is \<^verbatim>\<open>NULL\<close>. What the port takes from the rest of the virtual
  machine (offsets of fields, addresses of routines, whether a method is synchronized) is a
  parameter: the records \<open>vm_externals\<close>, \<open>interp_externals\<close>, \<open>cpp_externals\<close> and their like.

  \<^bold>\<open>The theories.\<close>
  \<^item> \<open>Prelude\<close>: flavours, C integers, errors and sequencing, bit fields of words, the code buffer.
  \<^item> \<open>Registers\<close>: \<^verbatim>\<open>vm/register_CPU.*\<close>, \<^verbatim>\<open>vm/vmreg_CPU.*\<close>. The locale \<open>reg_kind\<close> is the contract of a
    kind of register, interpreted on all four kinds.
  \<^item> \<open>Assembler\<close>, \<open>Branches\<close>, \<open>Macros\<close>: \<^verbatim>\<open>vm/assembler_CPU.hpp\<close> and \<^verbatim>\<open>vm/assembler_CPU.cpp\<close>, the class
    \<^verbatim>\<open>Assembler\<close>, the fixing up of branches, and the macros that differ between the flavours. The
    locale \<open>patchable_branch\<close> is what \<^verbatim>\<open>pd_patch_instruction\<close> needs of a branch instruction.
  \<^item> \<open>StackFrames\<close>, \<open>FrameLayout\<close>: the class \<^verbatim>\<open>StackFrame\<close>, its prolog and epilog; the words both emit
    are read back as accesses to memory and compared with an abstract save area.
  \<^item> \<open>VMCalls\<close>, \<open>VMCallFacts\<close>, \<open>LoadConst\<close>: the calls of \<^verbatim>\<open>MacroAssembler\<close> into the virtual machine and
    \<^verbatim>\<open>load(Register, long)\<close>, with what their instructions leave in the registers.
  \<^item> \<open>Disassembler\<close>, \<open>Disassembly\<close>, \<open>DisassemblyShifts\<close>: \<^verbatim>\<open>vm/disassembler_CPU.*\<close> and the round trips from the
    assembler to the text.
  \<^item> \<open>CallingConvention\<close>: \<^verbatim>\<open>java_calling_convention\<close> of \<^verbatim>\<open>vm/sharedRuntime_CPU.cpp\<close>; \<open>SharedStubs\<close>: its stubs,
    and \<^verbatim>\<open>vm/icache_CPU.*\<close>.
  \<^item> \<open>SignatureHandlers\<close>, \<open>SignatureFacts\<close>: \<^verbatim>\<open>vm/interpreterRT_CPU.*\<close>.
  \<^item> \<open>InterpMasm\<close>: \<^verbatim>\<open>vm/interp_masm_CPU.*\<close>; \<open>Locking\<close>: the protocol its locking code follows, between
    threads, as the step relation \<open>lock_step\<close>.
  \<^item> \<open>StubGenerator\<close>: \<^verbatim>\<open>vm/stubGenerator_CPU.cpp\<close>, \<^verbatim>\<open>vm/stubRoutines_CPU.*\<close>; \<open>JavaArguments\<close>: \<^verbatim>\<open>vm/jniTypes_CPU.hpp\<close>
    and the accesses to stack and locals of \<^verbatim>\<open>vm/bytecodeInterpreter_CPU.hpp\<close>.
  \<^item> \<open>CppInterpreter\<close>, \<open>FrameManager\<close>: \<^verbatim>\<open>vm/cppInterpreter_CPU.cpp\<close>, \<^verbatim>\<open>vm/interpreter_CPU.cpp\<close>; \<open>Labels\<close>: that the
    labels of whole routines are bound; \<open>SampleVM\<close>: one virtual machine for the examples.
  \<^item> \<open>RuntimeFrames\<close>: \<^verbatim>\<open>vm/frame_CPU.*\<close>, \<^verbatim>\<open>vm/javaFrameAnchor_CPU.hpp\<close>, \<^verbatim>\<open>os_cpu/os_linux_CPU.cpp\<close>.
  \<^item> \<open>BytecodeArith\<close>: \<^verbatim>\<open>vm/bytecodeInterpreter_CPU.inline.hpp\<close>; \<open>BytesAccess\<close>: \<^verbatim>\<open>vm/bytes_CPU.hpp\<close>,
    \<^verbatim>\<open>os_cpu/bytes_linux_CPU.inline.hpp\<close>; \<open>CopyRoutines\<close>: \<^verbatim>\<open>vm/copy_CPU.hpp\<close> and the copies of
    \<^verbatim>\<open>os_cpu/os_linux_CPU.cpp\<close>.
  \<^item> \<open>Atomics\<close>: \<^verbatim>\<open>os_cpu/atomic_linux_CPU.inline.hpp\<close>; \<open>MemoryOrder\<close>: \<^verbatim>\<open>os_cpu/orderAccess_linux_CPU.inline.hpp\<close>
    on a processor that lets stores pass each other (step relation \<open>order_step\<close>); \<open>Placeholders\<close>: routines
    without an implementation.
  \<^item> \<open>WordMemory\<close>, \<open>Machine\<close>: words in memory as an instance of the contract of accessors, and a
    processor that does what the architecture documents (locale \<open>processor\<close>, interpreted on
    \<open>reference_cpu\<close> in both widths), on which emitted code is run. \<open>CallStubFacts\<close> runs the frame of the
    call stub on it, \<open>FrameExtension\<close> the code that replaces a frame by a larger one, and
    \<open>ResultConversion\<close> the converters of results.

  \<^bold>\<open>What is proved.\<close>
  \<^item> Emission: the fields of each instruction form can be read back; a displacement is accepted
    exactly if it is in range; a forward branch reaches the place its label is bound at; no entry
    of a method leaves a branch unresolved, whatever was generated before.
  \<^item> Meaning of emitted code: constants loaded, arguments passed, paddings computed, registers
    saved and restored; the call stub gives back what it saved, whatever the Java code does that
    keeps its frame, and extending a frame keeps what the stub relies on; a result survives the
    way over the stack. The instructions are given by hypotheses that are their documented
    behaviour; the witnesses instantiate them.
  \<^item> Placement of arguments: the calling convention never uses a place twice, stack arguments of
    native methods are disjoint, and the two signature handlers agree.
  \<^item> Printing: arithmetic, memory, branch and shift instructions are printed as assembled.
  \<^item> Run-time routines: arithmetic as the specification of the virtual machine has it, Java
    byte order, copying as \<^verbatim>\<open>memmove\<close>, mutual exclusion and progress of object locks, counters
    that lose no update, the publication of data and of frame anchors to other threads.
  \<^item> Where the code does not do what it means to, a theorem of kind error states what it does.

  \<^bold>\<open>Bounds and fuel.\<close> No definition has fuel. The loops of the C++ code run over lists, over a
  counter that decreases, or over a word that shrinks; the loop over the alignment, which does not
  end for zero, is an optional value (\<open>strip_zeros\<close>). A call through the stub has fewer than 65536
  words of parameters (a method has at most 255), so that its frame does not wrap around memory.

  \<^bold>\<open>Not modelled.\<close>
  \<^item> \<^verbatim>\<open>os_cpu/linux_ppc.s\<close> and \<^verbatim>\<open>os_cpu/linux_ppc64.s\<close> are written in assembly language; the tables of
    \<^verbatim>\<open>vmStructs\<close> and \<^verbatim>\<open>globals\<close> have no behaviour.
  \<^item> \<^verbatim>\<open>pd_print_patched_instruction\<close> is pure output.
  \<^item> Arithmetic of \<^verbatim>\<open>jfloat\<close> and \<^verbatim>\<open>jdouble\<close> is that of the C++ compiler.
  \<^item> The files of \<^verbatim>\<open>vm/\<close> for the compilers and the template interpreter (\<^verbatim>\<open>nativeInst\<close>, \<^verbatim>\<open>relocInfo\<close>,
    \<^verbatim>\<open>vtableStubs\<close>, \<^verbatim>\<open>icBuffer\<close>, \<^verbatim>\<open>dump\<close>, \<^verbatim>\<open>vm_version\<close> and their like) hold declarations or
    bodies that are \<^verbatim>\<open>Unimplemented()\<close>.
  \<^item> Signals arrive between two stores in the model of the anchor only; generated code runs without
    them. The order in which other processors see stores is modelled for \<^verbatim>\<open>OrderAccess\<close> only.
  \<^item> Outside \<^verbatim>\<open>vm/\<close> and \<^verbatim>\<open>os_cpu/\<close>: the generator of the port (Python), the build, the patches to
    sources that are not here, the tests, tapsets and scripts.
\<close>

end
